(* ===== verification/Prelude.thy ===== *)
theory Prelude
  imports Main "HOL-Library.Word"
begin

text \<open>
  What every component of the development shares: the machine types of the Rust sources, the three
  ways a Rust call can end (a value, an error, a panic), and a small state monad for code that
  works on a mutable buffer or connection and may loop for ever.

  \<^item> A \<open>&mut\<close> argument is the state of a \<open>proc\<close>: the state is returned beside every outcome,
    because Rust keeps what a failing call has already written.
  \<^item> \<open>None\<close> is a computation that never returns.
  \<^item> \<open>usize\<close> is modelled by \<open>nat\<close>. The target is a 64-bit machine; the sums of the sources count
    bytes of buffers that are in memory, so they stay below \<open>2 ^ 63\<close> and do not wrap.
\<close>

unbundle bit_operations_syntax

section \<open>Machine types\<close>

type_synonym u8 = "8 word"
type_synonym u16 = "16 word"
type_synonym u32 = "32 word"
type_synonym u64 = "64 word"
type_synonym bytes = "u8 list"

section \<open>Outcomes and procedures\<close>

datatype ('a, 'e) outcome = Ok 'a | Err 'e | Panic string

type_synonym ('s, 'a, 'e) proc = "'s \<Rightarrow> (('a, 'e) outcome \<times> 's) option"

definition retM :: "'a \<Rightarrow> ('s, 'a, 'e) proc" where
  "retM x s = Some (Ok x, s)"

definition failM :: "'e \<Rightarrow> ('s, 'a, 'e) proc" where
  "failM e s = Some (Err e, s)"

definition panicM :: "string \<Rightarrow> ('s, 'a, 'e) proc" where
  "panicM msg s = Some (Panic msg, s)"

text \<open>Sequencing: the \<open>?\<close> operator of the sources, which leaves at the first error.\<close>

definition bindM :: "('s, 'a, 'e) proc \<Rightarrow> ('a \<Rightarrow> ('s, 'b, 'e) proc) \<Rightarrow> ('s, 'b, 'e) proc" where
  "bindM m f s =
     (case m s of
        None \<Rightarrow> None
      | Some (Ok x, s') \<Rightarrow> f x s'
      | Some (Err e, s') \<Rightarrow> Some (Err e, s')
      | Some (Panic msg, s') \<Rightarrow> Some (Panic msg, s'))"

text \<open>\<open>Result::map_err\<close> and \<open>Result::unwrap\<close>.\<close>

definition map_errM :: "('e \<Rightarrow> 'f) \<Rightarrow> ('s, 'a, 'e) proc \<Rightarrow> ('s, 'a, 'f) proc" where
  "map_errM g m s =
     (case m s of
        None \<Rightarrow> None
      | Some (Ok x, s') \<Rightarrow> Some (Ok x, s')
      | Some (Err e, s') \<Rightarrow> Some (Err (g e), s')
      | Some (Panic msg, s') \<Rightarrow> Some (Panic msg, s'))"

definition unwrapM :: "('s, 'a, 'e) proc \<Rightarrow> ('s, 'a, 'f) proc" where
  "unwrapM m s =
     (case m s of
        None \<Rightarrow> None
      | Some (Ok x, s') \<Rightarrow> Some (Ok x, s')
      | Some (Err e, s') \<Rightarrow> Some (Panic ''called `Result::unwrap()` on an `Err` value'', s')
      | Some (Panic msg, s') \<Rightarrow> Some (Panic msg, s'))"

text \<open>An outcome computed without state, as a step of a procedure.\<close>

definition liftM :: "('a, 'e) outcome \<Rightarrow> ('s, 'a, 'e) proc" where
  "liftM r s = Some (r, s)"

named_theorems proc_simps \<open>evaluation of the procedure combinators\<close>

lemma retM_eq [simp, proc_simps]: "retM x s = Some (Ok x, s)"
  by (simp add: retM_def)

lemma failM_eq [simp, proc_simps]: "failM e s = Some (Err e, s)"
  by (simp add: failM_def)

lemma panicM_eq [simp, proc_simps]: "panicM msg s = Some (Panic msg, s)"
  by (simp add: panicM_def)

lemma liftM_eq [simp, proc_simps]: "liftM r s = Some (r, s)"
  by (simp add: liftM_def)

lemma bindM_Ok [simp]: "m s = Some (Ok x, s') \<Longrightarrow> bindM m f s = f x s'"
  by (simp add: bindM_def)

lemma bindM_Err [simp]: "m s = Some (Err e, s') \<Longrightarrow> bindM m f s = Some (Err e, s')"
  by (simp add: bindM_def)

lemma bindM_Panic [simp]: "m s = Some (Panic msg, s') \<Longrightarrow> bindM m f s = Some (Panic msg, s')"
  by (simp add: bindM_def)

lemma bindM_None [simp]: "m s = None \<Longrightarrow> bindM m f s = None"
  by (simp add: bindM_def)

lemma bindM_OkE:
  assumes "bindM m f s = Some (Ok y, t)"
  obtains x s' where "m s = Some (Ok x, s')" and "f x s' = Some (Ok y, t)"
  using assms by (auto simp: bindM_def split: option.splits outcome.splits prod.splits)

lemma bindM_Ok_iff:
  "bindM m f s = Some (Ok y, t) \<longleftrightarrow> (\<exists>x s'. m s = Some (Ok x, s') \<and> f x s' = Some (Ok y, t))"
  by (auto simp: bindM_def split: option.splits outcome.splits prod.splits)

lemma bindM_assoc: "bindM (bindM m f) g = bindM m (\<lambda>x. bindM (f x) g)"
  by (auto simp: bindM_def fun_eq_iff split: option.splits outcome.splits prod.splits)

lemma bindM_retM [simp]: "bindM (retM x) f = f x"
  by (simp add: bindM_def fun_eq_iff)

lemma bindM_ret_right [simp]: "bindM m retM = m"
  by (auto simp: bindM_def fun_eq_iff split: option.splits outcome.splits prod.splits)

lemma bindM_cong [fundef_cong]:
  assumes "m s = m' s" and "\<And>x s'. m' s = Some (Ok x, s') \<Longrightarrow> f x s' = f' x s'"
  shows "bindM m f s = bindM m' f' s"
  using assms by (auto simp: bindM_def split: option.splits outcome.splits prod.splits)

lemma map_errM_Ok_iff [simp]:
  "map_errM g m s = Some (Ok x, t) \<longleftrightarrow> m s = Some (Ok x, t)"
  by (auto simp: map_errM_def split: option.splits outcome.splits prod.splits)

lemma unwrapM_Ok_iff [simp]:
  "unwrapM m s = Some (Ok x, t) \<longleftrightarrow> m s = Some (Ok x, t)"
  by (auto simp: unwrapM_def split: option.splits outcome.splits prod.splits)

text \<open>
  Rust's \<open>loop\<close>: a body that answers \<open>None\<close> is run again, one that answers \<open>Some x\<close> leaves the loop
  with the value \<open>x\<close>. \<open>iterM\<close> is the same body run a fixed number of times.
\<close>

partial_function (option) loopM :: "('s, 'a option, 'e) proc \<Rightarrow> ('s, 'a, 'e) proc" where
  "loopM body s =
     (case body s of
        None \<Rightarrow> None
      | Some (Ok None, s') \<Rightarrow> loopM body s'
      | Some (Ok (Some x), s') \<Rightarrow> Some (Ok x, s')
      | Some (Err e, s') \<Rightarrow> Some (Err e, s')
      | Some (Panic msg, s') \<Rightarrow> Some (Panic msg, s'))"

fun iterM :: "nat \<Rightarrow> ('s, 'a option, 'e) proc \<Rightarrow> 's \<Rightarrow> 's option" where
  "iterM 0 body s = Some s"
| "iterM (Suc n) body s = (case body s of Some (Ok None, s') \<Rightarrow> iterM n body s' | _ \<Rightarrow> None)"

lemma loopM_continue: "body s = Some (Ok None, s') \<Longrightarrow> loopM body s = loopM body s'"
  by (simp add: loopM.simps [of body s])

lemma loopM_return: "body s = Some (Ok (Some x), s') \<Longrightarrow> loopM body s = Some (Ok x, s')"
  by (simp add: loopM.simps [of body s])

lemma loopM_Err: "body s = Some (Err e, s') \<Longrightarrow> loopM body s = Some (Err e, s')"
  by (simp add: loopM.simps [of body s])

lemma loopM_Panic: "body s = Some (Panic msg, s') \<Longrightarrow> loopM body s = Some (Panic msg, s')"
  by (simp add: loopM.simps [of body s])

lemma loopM_None: "body s = None \<Longrightarrow> loopM body s = None"
  by (simp add: loopM.simps [of body s])

lemmas loopM_step = loopM_continue loopM_return loopM_Err loopM_Panic loopM_None

lemma loopM_iterM: "iterM n body s = Some s' \<Longrightarrow> loopM body s = loopM body s'"
  by (induction n arbitrary: s)
     (auto simp: loopM_continue split: option.splits outcome.splits prod.splits)

text \<open>A procedure run a number of times, its results collected.\<close>

fun repeatM :: "nat \<Rightarrow> ('s, 'a, 'e) proc \<Rightarrow> ('s, 'a list, 'e) proc" where
  "repeatM 0 m = retM []"
| "repeatM (Suc n) m = bindM m (\<lambda>x. bindM (repeatM n m) (\<lambda>xs. retM (x # xs)))"

section \<open>Strings\<close>

text \<open>\<open>str::from_utf8\<close>: the well-formed sequences of the Unicode standard (its table 3-7).\<close>

definition utf8_tail :: "u8 \<Rightarrow> bool" where
  "utf8_tail b \<longleftrightarrow> 0x80 \<le> b \<and> b \<le> 0xBF"

fun utf8_valid :: "bytes \<Rightarrow> bool" where
  "utf8_valid [] = True"
| "utf8_valid (a # rest) =
     (if a \<le> 0x7F then utf8_valid rest
      else if 0xC2 \<le> a \<and> a \<le> 0xDF then
        (case rest of b # rest \<Rightarrow> utf8_tail b \<and> utf8_valid rest | _ \<Rightarrow> False)
      else if 0xE0 \<le> a \<and> a \<le> 0xEF then
        (case rest of
           b # c # rest \<Rightarrow>
             utf8_tail b \<and> (a = 0xE0 \<longrightarrow> 0xA0 \<le> b) \<and> (a = 0xED \<longrightarrow> b \<le> 0x9F) \<and>
             utf8_tail c \<and> utf8_valid rest
         | _ \<Rightarrow> False)
      else if 0xF0 \<le> a \<and> a \<le> 0xF4 then
        (case rest of
           b # c # d # rest \<Rightarrow>
             utf8_tail b \<and> (a = 0xF0 \<longrightarrow> 0x90 \<le> b) \<and> (a = 0xF4 \<longrightarrow> b \<le> 0x8F) \<and>
             utf8_tail c \<and> utf8_tail d \<and> utf8_valid rest
         | _ \<Rightarrow> False)
      else False)"

definition to_ascii_lowercase :: "bytes \<Rightarrow> bytes" where
  "to_ascii_lowercase = map (\<lambda>b. if 65 \<le> b \<and> b \<le> 90 then b + 32 else b)"

section \<open>Overwriting a stretch of a byte array\<close>

definition overwrite :: "nat \<Rightarrow> 'a list \<Rightarrow> 'a list \<Rightarrow> 'a list" where
  "overwrite p bs m = take p m @ bs @ drop (p + length bs) m"

lemma length_overwrite [simp]:
  "p + length bs \<le> length m \<Longrightarrow> length (overwrite p bs m) = length m"
  by (simp add: overwrite_def)

lemma overwrite_Nil [simp]: "overwrite p [] m = m"
  by (simp add: overwrite_def)

lemma overwrite_append:
  assumes "p + length a + length b \<le> length m"
  shows "overwrite (p + length a) b (overwrite p a m) = overwrite p (a @ b) m"
proof -
  have "length (take p m) = p" using assms by simp
  then show ?thesis by (simp add: overwrite_def ac_simps)
qed

lemma overwrite_overwrite:
  assumes "length a = length b" and "p + length a \<le> length m"
  shows "overwrite p a (overwrite p b m) = overwrite p a m"
  using assms by (simp add: overwrite_def)

lemma overwrite_prefix:
  assumes "length a = length h" and "p + length a + length b \<le> length m"
  shows "overwrite p h (overwrite p (a @ b) m) = overwrite p (h @ b) m"
proof -
  have "length (take p m) = p" using assms by simp
  then show ?thesis using assms(1) by (simp add: overwrite_def ac_simps)
qed

lemma overwrite_end [simp]: "overwrite (length m) bs (m @ cs) = m @ bs @ drop (length bs) cs"
  by (simp add: overwrite_def)

lemma take_overwrite [simp]: "p \<le> length m \<Longrightarrow> take p (overwrite p bs m) = take p m"
  by (simp add: overwrite_def)

section \<open>Lists\<close>

lemma append_eq_take_drop:
  "n \<le> length bs \<Longrightarrow> (bs = xs @ ys \<and> length xs = n) \<longleftrightarrow> (xs = take n bs \<and> ys = drop n bs)"
  by auto

lemma length_Suc_0_conv: "length xs = Suc 0 \<longleftrightarrow> (\<exists>x. xs = [x])"
  by (cases xs) auto

lemma length_2_conv: "length xs = 2 \<longleftrightarrow> (\<exists>a b. xs = [a, b])"
  by (auto simp: numeral_2_eq_2 length_Suc_conv)

lemma length_4_conv: "length xs = 4 \<longleftrightarrow> (\<exists>a b c d. xs = [a, b, c, d])"
  by (auto simp: numeral_eq_Suc length_Suc_conv)

lemma length_ge_5E:
  assumes "5 \<le> length xs"
  obtains a b c d e rest where "xs = a # b # c # d # e # rest"
proof -
  have "Suc (Suc (Suc (Suc (Suc 0)))) \<le> length xs" using assms by simp
  then show thesis using that by (fastforce simp: Suc_le_length_iff)
qed

section \<open>Network byte order\<close>

text \<open>\<open>to_be_bytes\<close> of \<open>u16\<close>, \<open>u32\<close> and \<open>u64\<close>: most significant byte first.\<close>

definition to_be_bytes :: "nat \<Rightarrow> 'a::len word \<Rightarrow> bytes" where
  "to_be_bytes n x = map (\<lambda>i. ucast (drop_bit (8 * i) x)) (rev [0..<n])"

lemma length_to_be_bytes [simp]: "length (to_be_bytes n x) = n"
  by (simp add: to_be_bytes_def)

lemma to_be_bytes_2: "to_be_bytes 2 x = [ucast (drop_bit 8 x), ucast x]"
  by (simp add: to_be_bytes_def numeral_eq_Suc)

lemma to_be_bytes_4:
  "to_be_bytes 4 x = [ucast (drop_bit 24 x), ucast (drop_bit 16 x), ucast (drop_bit 8 x), ucast x]"
  by (simp add: to_be_bytes_def numeral_eq_Suc)

text \<open>
  The sums of the decoders have no carry: the shifted bytes do not overlap, so a sum is the
  bitwise \<open>OR\<close>.
\<close>

lemma be16_or:
  fixes a b :: u8
  shows "push_bit 8 (ucast a) + ucast b = (push_bit 8 (ucast a) OR ucast b :: u16)"
  by (rule disjunctive_add_eq_or, rule bit_word_eqI) (auto simp: bit_simps dest: bit_imp_le_length)

lemma be32_or:
  fixes a b c d :: u8
  shows "push_bit 24 (ucast a) + push_bit 16 (ucast b) + push_bit 8 (ucast c) + ucast d
           = (((push_bit 24 (ucast a) OR push_bit 16 (ucast b)) OR push_bit 8 (ucast c)) OR ucast d :: u32)"
proof -
  have 1: "push_bit 24 (ucast a) + push_bit 16 (ucast b)
             = (push_bit 24 (ucast a) OR push_bit 16 (ucast b) :: u32)"
    by (rule disjunctive_add_eq_or, rule bit_word_eqI) (auto simp: bit_simps dest: bit_imp_le_length)
  have 2: "(push_bit 24 (ucast a) OR push_bit 16 (ucast b)) + push_bit 8 (ucast c)
             = ((push_bit 24 (ucast a) OR push_bit 16 (ucast b)) OR push_bit 8 (ucast c) :: u32)"
    by (rule disjunctive_add_eq_or, rule bit_word_eqI) (auto simp: bit_simps dest: bit_imp_le_length)
  have 3: "((push_bit 24 (ucast a) OR push_bit 16 (ucast b)) OR push_bit 8 (ucast c)) + ucast d
             = (((push_bit 24 (ucast a) OR push_bit 16 (ucast b)) OR push_bit 8 (ucast c)) OR ucast d :: u32)"
    by (rule disjunctive_add_eq_or, rule bit_word_eqI) (auto simp: bit_simps dest: bit_imp_le_length)
  show ?thesis by (simp only: 1 2 3)
qed

lemma bit_u8_beyond: "8 \<le> n \<Longrightarrow> \<not> bit (b :: u8) n"
  by (auto dest: bit_imp_le_length)

lemma be16_bytes: "to_be_bytes 2 (push_bit 8 (ucast a) + ucast b :: u16) = [a, b]"
  unfolding be16_or to_be_bytes_2
  by (auto intro!: bit_word_eqI simp: bit_simps bit_u8_beyond)

lemma be32_bytes:
  "to_be_bytes 4 (push_bit 24 (ucast a) + push_bit 16 (ucast b) + push_bit 8 (ucast c) + ucast d :: u32)
     = [a, b, c, d]"
  unfolding be32_or to_be_bytes_4
  by (auto intro!: bit_word_eqI simp: bit_simps bit_u8_beyond)

lemma be16_value:
  "push_bit 8 (ucast (ucast (drop_bit 8 x) :: u8)) + ucast (ucast x :: u8) = (x :: u16)"
  unfolding be16_or by (rule bit_word_eqI) (auto simp: bit_simps)

lemma be32_value:
  "push_bit 24 (ucast (ucast (drop_bit 24 x) :: u8)) + push_bit 16 (ucast (ucast (drop_bit 16 x) :: u8))
     + push_bit 8 (ucast (ucast (drop_bit 8 x) :: u8)) + ucast (ucast x :: u8) = (x :: u32)"
  unfolding be32_or
proof (rule bit_word_eqI)
  fix n assume "n < LENGTH(32)"
  then consider "n < 8" | "8 \<le> n" "n < 16" | "16 \<le> n" "n < 24" | "24 \<le> n" "n < 32" by force
  then show "bit (((push_bit 24 (ucast (ucast (drop_bit 24 x) :: u8))
      OR push_bit 16 (ucast (ucast (drop_bit 16 x) :: u8)))
      OR push_bit 8 (ucast (ucast (drop_bit 8 x) :: u8))) OR ucast (ucast x :: u8) :: u32) n = bit x n"
    by cases (auto simp: bit_simps)
qed

lemma be16_no_overflow:
  fixes a b :: u8
  shows "unat (push_bit 8 (ucast a) :: u16) + unat (ucast b :: u16) < 2 ^ 16"
proof -
  have "unat a < 2 ^ 8" "unat b < 2 ^ 8" using unsigned_less [of a] unsigned_less [of b] by simp_all
  then show ?thesis
    by (simp add: push_bit_eq_mult unat_word_ariths unsigned_ucast_eq take_bit_eq_mod)
qed

end
