(* ===== verification/Write_Buffer.thy ===== *)
theory Write_Buffer
  imports Prelude
begin

text \<open>
  The write side of the codec crate's buffers (codec/src/encode.rs): the trait \<open>WriteBuffer\<close> as a
  dictionary of its methods, its two implementations (\<open>&mut [u8]\<close> and \<open>Vec<u8>\<close>), and the
  interface \<open>write_buffer\<close> that every encoder relies on, interpreted on both.

  A mutable slice is a window into an array that outlives it, so \<open>slice\<close> keeps the whole array and
  the window's place in it. \<open>later_fill\<close> hands back a mutable borrow of the bytes it skipped; the
  borrow is the pair of its start and its length in the array behind the buffer, and writing
  through it is \<open>set_backing\<close>.
\<close>

section \<open>The trait\<close>

datatype BufferOverflow = BufferOverflow

text \<open>
  The callback of \<open>later_fill\<close> is a closure that captures one local of its caller, the count
  \<open>total\<close>; the value the closure leaves in it is the result of the callback here.
\<close>

record ('w, 'e) WriteBuffer =
  fill_from :: "bytes \<Rightarrow> ('w, unit, 'e) proc"
  later_fill :: "nat \<Rightarrow> ('w, nat, 'e) proc \<Rightarrow> ('w, nat \<times> nat \<times> nat, 'e) proc"
  backing :: "'w \<Rightarrow> bytes"
  set_backing :: "bytes \<Rightarrow> 'w \<Rightarrow> 'w"

section \<open>Mutable slices\<close>

record slice =
  s_mem :: bytes
  s_pos :: nat
  s_len :: nat

definition slice_view :: "slice \<Rightarrow> bytes" where
  "slice_view s = take (s_len s) (drop (s_pos s) (s_mem s))"

definition slice_fill_from :: "bytes \<Rightarrow> (slice, unit, BufferOverflow) proc" where
  "slice_fill_from buffer s =
     (if s_len s < length buffer then Some (Err BufferOverflow, s)
      else Some (Ok (), s\<lparr>s_mem := overwrite (s_pos s) buffer (s_mem s),
                         s_pos := s_pos s + length buffer,
                         s_len := s_len s - length buffer\<rparr>))"

text \<open>
  \<open>mem::replace\<close> leaves \<open>*self\<close> empty while the callback runs; only a callback that succeeds puts
  the rest of the window back.
\<close>

definition slice_later_fill ::
  "nat \<Rightarrow> (slice, nat, BufferOverflow) proc \<Rightarrow> (slice, nat \<times> nat \<times> nat, BufferOverflow) proc" where
  "slice_later_fill n callback s =
     (if s_len s < n then Some (Err BufferOverflow, s)
      else case callback (s\<lparr>s_pos := s_pos s + n, s_len := s_len s - n\<rparr>) of
             None \<Rightarrow> None
           | Some (Ok tot, left) \<Rightarrow> Some (Ok (tot, s_pos s, n), left)
           | Some (Err e, left) \<Rightarrow> Some (Err e, left\<lparr>s_len := 0\<rparr>)
           | Some (Panic msg, left) \<Rightarrow> Some (Panic msg, left\<lparr>s_len := 0\<rparr>))"

definition slice_buffer :: "(slice, BufferOverflow) WriteBuffer" where
  "slice_buffer =
     \<lparr>fill_from = slice_fill_from, later_fill = slice_later_fill,
      backing = s_mem, set_backing = (\<lambda>bs s. s\<lparr>s_mem := bs\<rparr>)\<rparr>"

section \<open>Vectors\<close>

text \<open>
  The error type of \<open>Vec<u8>\<close> is the empty type \<open>Infallible\<close>: the definitions are polymorphic in the
  error type and never build an error of their own.
\<close>

definition vec_fill_from :: "bytes \<Rightarrow> (bytes, unit, 'e) proc" where
  "vec_fill_from buffer v = Some (Ok (), v @ buffer)"

definition vec_later_fill ::
  "nat \<Rightarrow> (bytes, nat, 'e) proc \<Rightarrow> (bytes, nat \<times> nat \<times> nat, 'e) proc" where
  "vec_later_fill n callback v =
     (let start = length v in
      case callback (v @ replicate n 0) of
        None \<Rightarrow> None
      | Some (Ok tot, v') \<Rightarrow>
          if start + n \<le> length v' then Some (Ok (tot, start, n), v')
          else Some (Panic ''range end index out of range'', v')
      | Some (Err e, v') \<Rightarrow> Some (Err e, v')
      | Some (Panic msg, v') \<Rightarrow> Some (Panic msg, v'))"

definition vec_buffer :: "(bytes, 'e) WriteBuffer" where
  "vec_buffer =
     \<lparr>fill_from = vec_fill_from, later_fill = vec_later_fill,
      backing = (\<lambda>v. v), set_backing = (\<lambda>bs v. bs)\<rparr>"

lemmas buffer_defs = slice_buffer_def slice_fill_from_def slice_later_fill_def
  vec_buffer_def vec_fill_from_def vec_later_fill_def

section \<open>The interface encoders rely on\<close>

text \<open>
  \<open>ok w\<close> is the buffer's own invariant, \<open>fits w n\<close> says that \<open>n\<close> more bytes have room, \<open>advance bs w\<close>
  is the buffer after \<open>bs\<close> has been written and \<open>cursor w\<close> is where the next byte goes in the array
  behind it. A write either fits, and then has exactly the effect of \<open>advance\<close>, or fails with an
  error and changes nothing; a reservation of \<open>n\<close> bytes leaves \<open>n\<close> arbitrary bytes in place, which
  can be overwritten afterwards as if they had been written first.
\<close>

locale write_buffer =
  fixes W :: "('w, 'e) WriteBuffer"
    and ok :: "'w \<Rightarrow> bool"
    and fits :: "'w \<Rightarrow> nat \<Rightarrow> bool"
    and advance :: "bytes \<Rightarrow> 'w \<Rightarrow> 'w"
    and cursor :: "'w \<Rightarrow> nat"
  assumes fits_0: "ok w \<Longrightarrow> fits w 0"
    and fits_mono: "fits w n \<Longrightarrow> m \<le> n \<Longrightarrow> fits w m"
    and advance_Nil: "ok w \<Longrightarrow> advance [] w = w"
    and ok_advance: "ok w \<Longrightarrow> fits w (length bs) \<Longrightarrow> ok (advance bs w)"
    and fits_advance: "ok w \<Longrightarrow> fits w (length bs) \<Longrightarrow> fits (advance bs w) n = fits w (length bs + n)"
    and advance_append:
      "ok w \<Longrightarrow> fits w (length as + length bs) \<Longrightarrow> advance bs (advance as w) = advance (as @ bs) w"
    and fill_fits: "ok w \<Longrightarrow> fits w (length bs) \<Longrightarrow> fill_from W bs w = Some (Ok (), advance bs w)"
    and fill_full: "ok w \<Longrightarrow> \<not> fits w (length bs) \<Longrightarrow> \<exists>e. fill_from W bs w = Some (Err e, w)"
    and later_fits:
      "ok w \<Longrightarrow> fits w n \<Longrightarrow>
       \<exists>junk. length junk = n \<and>
         (\<forall>callback tot bs.
            fits w (n + length bs) \<and> callback (advance junk w) = Some (Ok tot, advance (junk @ bs) w)
            \<longrightarrow> later_fill W n callback w = Some (Ok (tot, cursor w, n), advance (junk @ bs) w)) \<and>
         (\<forall>callback e w'.
            callback (advance junk w) = Some (Err e, w')
            \<longrightarrow> (\<exists>w''. later_fill W n callback w = Some (Err e, w'')))"
    and later_full: "ok w \<Longrightarrow> \<not> fits w n \<Longrightarrow> \<exists>e. later_fill W n callback w = Some (Err e, w)"
    and patch_bounds:
      "ok w \<Longrightarrow> fits w (length bs) \<Longrightarrow> cursor w + length bs \<le> length (backing W (advance bs w))"
    and patch:
      "ok w \<Longrightarrow> fits w (length junk + length bs) \<Longrightarrow> length hdr = length junk \<Longrightarrow>
       set_backing W (overwrite (cursor w) hdr (backing W (advance (junk @ bs) w)))
         (advance (junk @ bs) w) = advance (hdr @ bs) w"

text \<open>The slice: its window lies inside the array.\<close>

definition slice_ok :: "slice \<Rightarrow> bool" where
  "slice_ok s \<longleftrightarrow> s_pos s + s_len s \<le> length (s_mem s)"

definition slice_advance :: "bytes \<Rightarrow> slice \<Rightarrow> slice" where
  "slice_advance bs s =
     s\<lparr>s_mem := overwrite (s_pos s) bs (s_mem s), s_pos := s_pos s + length bs,
       s_len := s_len s - length bs\<rparr>"

lemma slice_reserve:
  assumes "slice_ok s" and "n \<le> s_len s"
  shows "slice_advance (take n (drop (s_pos s) (s_mem s))) s
           = s\<lparr>s_pos := s_pos s + n, s_len := s_len s - n\<rparr>"
proof -
  have "length (take n (drop (s_pos s) (s_mem s))) = n"
    using assms by (simp add: slice_ok_def)
  moreover have "overwrite (s_pos s) (take n (drop (s_pos s) (s_mem s))) (s_mem s) = s_mem s"
    using assms calculation
    by (simp add: overwrite_def slice_ok_def)
       (metis add.commute append_take_drop_id drop_drop)
  ultimately show ?thesis by (simp add: slice_advance_def)
qed

lemma slice_advance_append:
  assumes "slice_ok s" and "length as + length bs \<le> s_len s"
  shows "slice_advance bs (slice_advance as s) = slice_advance (as @ bs) s"
  using assms by (simp add: slice_advance_def slice_ok_def overwrite_append add.assoc)

lemma slice_patch:
  assumes "slice_ok s" and "length junk + length bs \<le> s_len s" and "length hdr = length junk"
  shows "(slice_advance (junk @ bs) s)
           \<lparr>s_mem := overwrite (s_pos s) hdr (s_mem (slice_advance (junk @ bs) s))\<rparr>
         = slice_advance (hdr @ bs) s"
  using assms by (simp add: slice_advance_def slice_ok_def overwrite_prefix)

lemma slice_later_fits:
  assumes "slice_ok s" and "n \<le> s_len s"
  shows "\<exists>junk. length junk = n \<and>
         (\<forall>callback tot bs.
            n + length bs \<le> s_len s \<and>
            callback (slice_advance junk s) = Some (Ok tot, slice_advance (junk @ bs) s)
            \<longrightarrow> slice_later_fill n callback s
                  = Some (Ok (tot, s_pos s, n), slice_advance (junk @ bs) s)) \<and>
         (\<forall>callback e s'.
            callback (slice_advance junk s) = Some (Err e, s')
            \<longrightarrow> (\<exists>s''. slice_later_fill n callback s = Some (Err e, s'')))"
proof (intro exI conjI)
  let ?junk = "take n (drop (s_pos s) (s_mem s))"
  show "length ?junk = n" using assms by (simp add: slice_ok_def)
qed (use assms in \<open>auto simp: slice_reserve slice_later_fill_def\<close>)

interpretation slc: write_buffer slice_buffer slice_ok "\<lambda>s n. n \<le> s_len s" slice_advance s_pos
proof (unfold_locales, goal_cases)
  case (6 w as bs)
  then show ?case by (rule slice_advance_append)
next
  case (9 w n)
  then show ?case using slice_later_fits by (simp add: slice_buffer_def)
next
  case (12 w junk bs hdr)
  then show ?case using slice_patch by (simp add: slice_buffer_def)
qed (auto simp: slice_ok_def slice_advance_def buffer_defs)

lemma vec_later_fits:
  "\<exists>junk. length junk = n \<and>
     (\<forall>callback tot bs.
        True \<and> callback (v @ junk) = Some (Ok tot, v @ (junk @ bs))
        \<longrightarrow> vec_later_fill n callback v = Some (Ok (tot, length v, n), v @ (junk @ bs))) \<and>
     (\<forall>callback e v'.
        callback (v @ junk) = Some (Err e, v')
        \<longrightarrow> (\<exists>v''. vec_later_fill n callback v = Some (Err e, v'')))"
  by (rule exI [of _ "replicate n 0"]) (auto simp: vec_later_fill_def)

interpretation vec: write_buffer vec_buffer "\<lambda>v. True" "\<lambda>v n. True" "\<lambda>bs v. v @ bs" length
proof (unfold_locales, goal_cases)
  case (9 w n)
  then show ?case using vec_later_fits by (simp add: vec_buffer_def)
qed (auto simp: buffer_defs)

end
