(* ===== verification/Codec_Encode.thy ===== *)
theory Codec_Encode
  imports Write_Buffer
begin

text \<open>
  The implementations of the trait \<open>Encode\<close> in codec/src/encode.rs and the wrapper types of
  codec/src/lib.rs. An encoder takes the dictionary of the write buffer it is used at; a type
  parameter \<open>T: Encode\<close> is the encoder of \<open>T\<close> at that buffer.

  The lemmas are proved once, inside \<open>write_buffer\<close>: \<open>emits enc bs\<close> says that on every buffer with
  room for \<open>bs\<close> the encoder appends exactly \<open>bs\<close> and returns its length, and that on every other
  buffer it fails with the buffer's error, never with a panic.
\<close>

section \<open>Wrapper types\<close>

datatype 'z Opaque = Opaque (opaque_inner: bytes)

definition opaque_new :: "'z Opaque" where
  "opaque_new = Opaque []"

definition opaque_from :: "bytes \<Rightarrow> 'z Opaque" where
  "opaque_from vec = Opaque vec"

datatype ('z, 't) SizeWrapper = SizeWrapper (into_inner: 't)

type_synonym ('z, 't) Vector = "('z, 't list) SizeWrapper"

datatype Ignore = Ignore

text \<open>
  Access to what is wrapped: \<open>into_inner\<close>, \<open>Default\<close>, and the references of \<open>Deref\<close> and \<open>DerefMut\<close>. A mutable
  reference is the change \<open>f\<close> its holder makes; on the slice of an \<open>Opaque\<close> it keeps the length.
\<close>

definition opaque_into_inner :: "'z Opaque \<Rightarrow> bytes" where
  "opaque_into_inner x = opaque_inner x"

definition opaque_default :: "'z Opaque" where
  "opaque_default = opaque_new"

definition opaque_deref :: "'z Opaque \<Rightarrow> bytes" where
  "opaque_deref x = opaque_inner x"

definition opaque_deref_mut :: "(bytes \<Rightarrow> bytes) \<Rightarrow> 'z Opaque \<Rightarrow> 'z Opaque" where
  "opaque_deref_mut f x = Opaque (f (opaque_inner x))"

definition wrapper_deref :: "('z, 't) SizeWrapper \<Rightarrow> 't" where
  "wrapper_deref x = into_inner x"

definition wrapper_deref_mut :: "('t \<Rightarrow> 't) \<Rightarrow> ('z, 't) SizeWrapper \<Rightarrow> ('z, 't) SizeWrapper" where
  "wrapper_deref_mut f x = SizeWrapper (f (into_inner x))"

definition wrapper_default :: "'t \<Rightarrow> ('z, 't) SizeWrapper" where
  "wrapper_default t = SizeWrapper t"

declare opaque_deref_def [simp] wrapper_deref_def [simp]

lemma opaque_access:
  "opaque_into_inner (opaque_from vec) = vec" "opaque_deref opaque_default = []"
  "opaque_deref (opaque_deref_mut f x) = f (opaque_deref x)" "opaque_from (opaque_into_inner x) = x"
  by (cases x; simp add: opaque_into_inner_def opaque_default_def opaque_deref_mut_def opaque_from_def opaque_new_def)+

lemma wrapper_access:
  "wrapper_deref (SizeWrapper t) = t" "wrapper_deref (wrapper_default t) = t"
  "wrapper_deref (wrapper_deref_mut f y) = f (wrapper_deref y)"
  by (simp_all add: wrapper_default_def wrapper_deref_mut_def)

section \<open>Sizes\<close>

text \<open>
  \<open>DataSize\<close>: \<open>TryFrom<usize>\<close>, the width on the wire and the encoder at \<open>&mut [u8]\<close>, which is the
  buffer \<open>SizeWrapper\<close> encodes a size into.
\<close>

type_synonym ('w, 'a, 'e) encoder = "'a \<Rightarrow> ('w, nat, 'e) proc"

record 'z DataSize =
  try_from_usize :: "nat \<Rightarrow> 'z option"
  BYTE_SIZE :: nat
  encode_size :: "(slice, 'z, BufferOverflow) encoder"

section \<open>Encoders\<close>

definition encode_u8 :: "('w, 'e) WriteBuffer \<Rightarrow> ('w, u8, 'e) encoder" where
  "encode_u8 W x = bindM (fill_from W [x]) (\<lambda>_. retM 1)"

definition encode_u16 :: "('w, 'e) WriteBuffer \<Rightarrow> ('w, u16, 'e) encoder" where
  "encode_u16 W x = bindM (fill_from W (to_be_bytes 2 x)) (\<lambda>_. retM 2)"

definition encode_u32 :: "('w, 'e) WriteBuffer \<Rightarrow> ('w, u32, 'e) encoder" where
  "encode_u32 W x = bindM (fill_from W (to_be_bytes 4 x)) (\<lambda>_. retM 4)"

definition encode_u64 :: "('w, 'e) WriteBuffer \<Rightarrow> ('w, u64, 'e) encoder" where
  "encode_u64 W x = bindM (fill_from W (to_be_bytes 8 x)) (\<lambda>_. retM 8)"

definition encode_unit :: "('w, 'e) WriteBuffer \<Rightarrow> ('w, unit, 'e) encoder" where
  "encode_unit W x = retM 0"

definition encode_Option :: "('w, 'a, 'e) encoder \<Rightarrow> ('w, 'a option, 'e) encoder" where
  "encode_Option enc x = (case map_option enc x of Some r \<Rightarrow> r | None \<Rightarrow> retM 0)"

fun encode_Vec_loop :: "('w, 'a, 'e) encoder \<Rightarrow> nat \<Rightarrow> ('w, 'a list, 'e) encoder" where
  "encode_Vec_loop enc tot [] = retM tot"
| "encode_Vec_loop enc tot (elem # elems) =
     bindM (enc elem) (\<lambda>n. encode_Vec_loop enc (tot + n) elems)"

definition encode_Vec :: "('w, 'a, 'e) encoder \<Rightarrow> ('w, 'a list, 'e) encoder" where
  "encode_Vec enc xs = encode_Vec_loop enc 0 xs"

definition encode_slice_u8 :: "('w, 'e) WriteBuffer \<Rightarrow> ('w, bytes, 'e) encoder" where
  "encode_slice_u8 W bs = bindM (fill_from W bs) (\<lambda>_. retM (length bs))"

text \<open>\<open>[u8; SIZE]\<close>: a byte list of length \<open>SIZE\<close>.\<close>

definition encode_array :: "nat \<Rightarrow> ('w, 'e) WriteBuffer \<Rightarrow> ('w, bytes, 'e) encoder" where
  "encode_array SIZE W a = bindM (fill_from W a) (\<lambda>_. retM SIZE)"

text \<open>\<open>&T\<close>: the value it refers to.\<close>

definition encode_ref :: "('w, 'a, 'e) encoder \<Rightarrow> ('w, 'a, 'e) encoder" where
  "encode_ref enc x = enc x"

definition encode_Opaque ::
  "'z DataSize \<Rightarrow> ('w, 'z, 'e) encoder \<Rightarrow> ('w, bytes, 'e) encoder \<Rightarrow> ('w, 'z Opaque, 'e) encoder" where
  "encode_Opaque Z enc_size enc_bytes x =
     (case try_from_usize Z (length (opaque_deref x)) of
        None \<Rightarrow> panicM ''called `Result::unwrap()` on an `Err` value''
      | Some z \<Rightarrow>
          bindM (enc_size z) (\<lambda>n. bindM (enc_bytes (opaque_inner x)) (\<lambda>m. retM (n + m))))"

text \<open>
  \<open>SizeWrapper\<close>: reserve the size, encode the value behind it, then encode the size through a slice
  over the reserved bytes.
\<close>

definition fill_size :: "'z DataSize \<Rightarrow> ('w, 'e) WriteBuffer \<Rightarrow> nat \<Rightarrow> nat \<Rightarrow> nat \<Rightarrow> ('w, unit, 'e) proc" where
  "fill_size Z W tot start n w =
     (case try_from_usize Z tot of
        None \<Rightarrow> Some (Panic ''called `Result::unwrap()` on an `Err` value'', w)
      | Some z \<Rightarrow>
          (case unwrapM (encode_size Z z) \<lparr>s_mem = backing W w, s_pos = start, s_len = n\<rparr> of
             None \<Rightarrow> None
           | Some (Ok _, s) \<Rightarrow> Some (Ok (), set_backing W (s_mem s) w)
           | Some (Err e, s) \<Rightarrow> Some (Err e, set_backing W (s_mem s) w)
           | Some (Panic msg, s) \<Rightarrow> Some (Panic msg, set_backing W (s_mem s) w)))"

definition encode_SizeWrapper ::
  "'z DataSize \<Rightarrow> ('w, 'e) WriteBuffer \<Rightarrow> ('w, 't, 'e) encoder \<Rightarrow> ('w, ('z, 't) SizeWrapper, 'e) encoder" where
  "encode_SizeWrapper Z W enc x =
     bindM (later_fill W (BYTE_SIZE Z) (enc (into_inner x))) (\<lambda>(tot, start, n).
     bindM (fill_size Z W tot start n) (\<lambda>_. retM (tot + BYTE_SIZE Z)))"

definition encode_Ignore :: "('w, Ignore, 'e) encoder" where
  "encode_Ignore x = panicM ''Can not encode `Ignore`''"

text \<open>\<open>Infallible\<close> has no values, so its encoder is never entered.\<close>

definition encode_Infallible :: "('w, 'v, 'e) encoder" where
  "encode_Infallible x = panicM ''Can not encode `Infallible`''"

definition encode_pair :: "('w, 'a, 'e) encoder \<Rightarrow> ('w, 'b, 'e) encoder \<Rightarrow> ('w, 'a \<times> 'b, 'e) encoder" where
  "encode_pair enc_a enc_b p =
     (case p of (a, b) \<Rightarrow> bindM (enc_a a) (\<lambda>n. bindM (enc_b b) (\<lambda>m. retM (n + m))))"

text \<open>The three size types.\<close>

definition try_from_nat :: "nat \<Rightarrow> 'a::len word option" where
  "try_from_nat n = (if n < 2 ^ LENGTH('a) then Some (of_nat n) else None)"

definition size_u8 :: "u8 DataSize" where
  "size_u8 = \<lparr>try_from_usize = try_from_nat, BYTE_SIZE = 1, encode_size = encode_u8 slice_buffer\<rparr>"

definition size_u16 :: "u16 DataSize" where
  "size_u16 = \<lparr>try_from_usize = try_from_nat, BYTE_SIZE = 2, encode_size = encode_u16 slice_buffer\<rparr>"

definition size_u32 :: "u32 DataSize" where
  "size_u32 = \<lparr>try_from_usize = try_from_nat, BYTE_SIZE = 4, encode_size = encode_u32 slice_buffer\<rparr>"

section \<open>What an encoder writes\<close>

text \<open>The bytes of each type on the wire; the specification the encoders are proved against.\<close>

definition wire_Option :: "('a \<Rightarrow> bytes) \<Rightarrow> 'a option \<Rightarrow> bytes" where
  "wire_Option wire x = (case x of None \<Rightarrow> [] | Some v \<Rightarrow> wire v)"

definition wire_Vec :: "('a \<Rightarrow> bytes) \<Rightarrow> 'a list \<Rightarrow> bytes" where
  "wire_Vec wire xs = concat (map wire xs)"

context write_buffer
begin

text \<open>\<open>writes r m bs\<close>: where \<open>bs\<close> fits, \<open>m\<close> returns \<open>r\<close> having written \<open>bs\<close>; elsewhere it is an error.\<close>

definition writes :: "'r \<Rightarrow> ('w, 'r, 'e) proc \<Rightarrow> bytes \<Rightarrow> bool" where
  "writes r m bs \<longleftrightarrow>
     (\<forall>w. ok w \<longrightarrow>
        (if fits w (length bs) then m w = Some (Ok r, advance bs w)
         else (\<exists>e w'. m w = Some (Err e, w'))))"

lemma writesI:
  assumes "\<And>w. ok w \<Longrightarrow> fits w (length bs) \<Longrightarrow> m w = Some (Ok r, advance bs w)"
    and "\<And>w. ok w \<Longrightarrow> \<not> fits w (length bs) \<Longrightarrow> \<exists>e w'. m w = Some (Err e, w')"
  shows "writes r m bs"
  using assms by (simp add: writes_def)

lemma writes_Ok: "writes r m bs \<Longrightarrow> ok w \<Longrightarrow> fits w (length bs) \<Longrightarrow> m w = Some (Ok r, advance bs w)"
  by (simp add: writes_def)

lemma writes_Err: "writes r m bs \<Longrightarrow> ok w \<Longrightarrow> \<not> fits w (length bs) \<Longrightarrow> \<exists>e w'. m w = Some (Err e, w')"
  by (simp add: writes_def)

lemma writes_ret: "writes r (retM r) []"
  by (simp add: writes_def fits_0 advance_Nil)

lemma writes_fill: "writes () (fill_from W bs) bs"
  using fill_fits fill_full by (fastforce intro: writesI)

lemma writes_bind:
  assumes m: "writes r m as" and k: "writes s (k r) bs"
  shows "writes s (bindM m k) (as @ bs)"
proof (rule writesI)
  fix w assume w: "ok w" "fits w (length (as @ bs))"
  then have a: "fits w (length as)" using fits_mono by simp
  have "m w = Some (Ok r, advance as w)" using m w(1) a by (rule writes_Ok)
  moreover have "k r (advance as w) = Some (Ok s, advance bs (advance as w))"
    using w a by (intro writes_Ok [OF k]) (simp_all add: ok_advance fits_advance)
  ultimately show "bindM m k w = Some (Ok s, advance (as @ bs) w)"
    using w by (simp add: advance_append)
next
  fix w assume w: "ok w" "\<not> fits w (length (as @ bs))"
  show "\<exists>e w'. bindM m k w = Some (Err e, w')"
  proof (cases "fits w (length as)")
    case True
    then have "m w = Some (Ok r, advance as w)" using m w(1) by (intro writes_Ok)
    moreover have "\<exists>e w'. k r (advance as w) = Some (Err e, w')"
      using w True by (intro writes_Err [OF k]) (simp_all add: ok_advance fits_advance)
    ultimately show ?thesis by simp
  next
    case False
    then show ?thesis using writes_Err [OF m w(1)] by fastforce
  qed
qed

lemma writes_bind_ret: "writes r m bs \<Longrightarrow> writes (f r) (bindM m (\<lambda>x. retM (f x))) bs"
  using writes_bind [where k = "\<lambda>x. retM (f x)", OF _ writes_ret] by force

lemma writes_fill_ret: "writes n (bindM (fill_from W bs) (\<lambda>_. retM n)) bs"
  using writes_bind_ret [OF writes_fill, where f = "\<lambda>_. n"] by simp

lemma writes_u8: "writes (Suc 0) (encode_u8 W x) [x]"
  unfolding encode_u8_def One_nat_def by (rule writes_fill_ret)

lemma writes_u16: "writes 2 (encode_u16 W x) (to_be_bytes 2 x)"
  unfolding encode_u16_def by (rule writes_fill_ret)

lemma writes_u32: "writes 4 (encode_u32 W x) (to_be_bytes 4 x)"
  unfolding encode_u32_def by (rule writes_fill_ret)

lemma writes_u64: "writes 8 (encode_u64 W x) (to_be_bytes 8 x)"
  unfolding encode_u64_def by (rule writes_fill_ret)

lemma writes_unit: "writes 0 (encode_unit W x) []"
  unfolding encode_unit_def by (rule writes_ret)

lemma writes_slice_u8: "writes (length bs) (encode_slice_u8 W bs) bs"
  unfolding encode_slice_u8_def by (rule writes_fill_ret)

lemma writes_array: "writes n (encode_array n W bs) bs"
  unfolding encode_array_def by (rule writes_fill_ret)

lemma writes_Option:
  assumes "\<And>v. x = Some v \<Longrightarrow> writes (length (wire v)) (enc v) (wire v)"
  shows "writes (length (wire_Option wire x)) (encode_Option enc x) (wire_Option wire x)"
  using assms by (cases x) (auto simp: encode_Option_def wire_Option_def writes_ret)

lemma writes_pair:
  assumes "writes (length as) (enc_a a) as" and "writes (length bs) (enc_b b) bs"
  shows "writes (length (as @ bs)) (encode_pair enc_a enc_b (a, b)) (as @ bs)"
  unfolding encode_pair_def
  using assms by (auto intro!: writes_bind writes_bind_ret)

lemma writes_Vec_loop:
  assumes "\<And>x. x \<in> set xs \<Longrightarrow> writes (length (wire x)) (enc x) (wire x)"
  shows "writes (tot + length (wire_Vec wire xs)) (encode_Vec_loop enc tot xs) (wire_Vec wire xs)"
  using assms
proof (induction xs arbitrary: tot)
  case Nil
  show ?case using writes_ret [of tot] by (simp add: wire_Vec_def del: retM_eq)
next
  case (Cons x xs)
  have "writes (tot + length (wire x) + length (wire_Vec wire xs))
          (encode_Vec_loop enc (tot + length (wire x)) xs) (wire_Vec wire xs)"
    using Cons by simp
  then have "writes (tot + length (wire x) + length (wire_Vec wire xs))
          (encode_Vec_loop enc tot (x # xs)) (wire x @ wire_Vec wire xs)"
    using Cons.prems by (auto intro!: writes_bind)
  then show ?case by (simp add: wire_Vec_def add.assoc)
qed

lemma writes_Vec:
  assumes "\<And>x. x \<in> set xs \<Longrightarrow> writes (length (wire x)) (enc x) (wire x)"
  shows "writes (length (wire_Vec wire xs)) (encode_Vec enc xs) (wire_Vec wire xs)"
  using writes_Vec_loop [of xs wire enc 0] assms by (simp add: encode_Vec_def)

end

text \<open>A size type: what it writes, always in \<open>BYTE_SIZE\<close> bytes.\<close>

locale data_size =
  fixes Z :: "'z DataSize" and hdr :: "'z \<Rightarrow> bytes"
  assumes length_hdr: "length (hdr z) = BYTE_SIZE Z"
    and size_writes: "slc.writes (BYTE_SIZE Z) (encode_size Z z) (hdr z)"

interpretation du8: data_size size_u8 "\<lambda>z. [z]"
  by unfold_locales (simp_all add: size_u8_def slc.writes_u8)

interpretation du16: data_size size_u16 "to_be_bytes 2"
  by unfold_locales (simp_all add: size_u16_def slc.writes_u16)

interpretation du32: data_size size_u32 "to_be_bytes 4"
  by unfold_locales (simp_all add: size_u32_def slc.writes_u32)

locale size_wrapper =
  write_buffer W ok fits advance cursor + data_size Z hdr
  for W :: "('w, 'e) WriteBuffer" and ok fits advance cursor and Z :: "'z DataSize" and hdr
begin

lemma fill_size_patches:
  assumes w: "ok w" "fits w (length (junk @ bs))" and junk: "length junk = BYTE_SIZE Z"
    and z: "try_from_usize Z tot = Some z"
  shows "fill_size Z W tot (cursor w) (BYTE_SIZE Z) (advance (junk @ bs) w)
           = Some (Ok (), advance (hdr z @ bs) w)"
proof -
  let ?m = "backing W (advance (junk @ bs) w)"
  let ?s = "\<lparr>s_mem = ?m, s_pos = cursor w, s_len = BYTE_SIZE Z\<rparr>"
  have "cursor w + length (junk @ bs) \<le> length ?m" using w by (rule patch_bounds)
  then have "slice_ok ?s" using junk by (simp add: slice_ok_def)
  then have "encode_size Z z ?s = Some (Ok (BYTE_SIZE Z), slice_advance (hdr z) ?s)"
    by (intro slc.writes_Ok [OF size_writes]) (simp_all add: length_hdr)
  moreover have "set_backing W (overwrite (cursor w) (hdr z) ?m) (advance (junk @ bs) w)
                   = advance (hdr z @ bs) w"
    using w junk by (intro patch) (simp_all add: length_hdr)
  ultimately show ?thesis
    by (simp add: fill_size_def z unwrapM_def slice_advance_def)
qed

lemma writes_SizeWrapper:
  assumes enc: "writes (length bs) (enc x) bs" and z: "try_from_usize Z (length bs) = Some z"
  shows "writes (length bs + BYTE_SIZE Z) (encode_SizeWrapper Z W enc (SizeWrapper x)) (hdr z @ bs)"
proof (rule writesI)
  fix w assume w: "ok w" "fits w (length (hdr z @ bs))"
  then have n: "fits w (BYTE_SIZE Z)" and nb: "fits w (BYTE_SIZE Z + length bs)"
    using fits_mono by (simp_all add: length_hdr)
  obtain junk where junk: "length junk = BYTE_SIZE Z" and
    later: "enc x (advance junk w) = Some (Ok (length bs), advance (junk @ bs) w) \<Longrightarrow>
      later_fill W (BYTE_SIZE Z) (enc x) w
        = Some (Ok (length bs, cursor w, BYTE_SIZE Z), advance (junk @ bs) w)"
    using later_fits [OF w(1) n] nb by blast
  have "enc x (advance junk w) = Some (Ok (length bs), advance (junk @ bs) w)"
    using writes_Ok [OF enc ok_advance, of w junk] w(1) n nb junk
    by (simp add: fits_advance advance_append)
  then show "encode_SizeWrapper Z W enc (SizeWrapper x) w
               = Some (Ok (length bs + BYTE_SIZE Z), advance (hdr z @ bs) w)"
    using later fill_size_patches [OF w(1) _ junk z, of bs] nb junk
    by (simp add: encode_SizeWrapper_def)
next
  fix w assume w: "ok w" "\<not> fits w (length (hdr z @ bs))"
  show "\<exists>e w'. encode_SizeWrapper Z W enc (SizeWrapper x) w = Some (Err e, w')"
  proof (cases "fits w (BYTE_SIZE Z)")
    case True
    obtain junk where junk: "length junk = BYTE_SIZE Z" and
      later: "\<And>e w'. enc x (advance junk w) = Some (Err e, w') \<Longrightarrow>
        \<exists>w''. later_fill W (BYTE_SIZE Z) (enc x) w = Some (Err e, w'')"
      using later_fits [OF w(1) True] by blast
    have "\<exists>e w'. enc x (advance junk w) = Some (Err e, w')"
      using w True junk by (intro writes_Err [OF enc]) (simp_all add: ok_advance fits_advance length_hdr)
    then show ?thesis using later by (fastforce simp: encode_SizeWrapper_def)
  next
    case False
    obtain e where "later_fill W (BYTE_SIZE Z) (enc x) w = Some (Err e, w)"
      using later_full [OF w(1) False] by blast
    then show ?thesis by (simp add: encode_SizeWrapper_def)
  qed
qed

text \<open>A value too long for its size type: the \<open>unwrap\<close> of the conversion panics.\<close>

lemma panics_SizeWrapper:
  assumes enc: "writes (length bs) (enc x) bs" and z: "try_from_usize Z (length bs) = None"
    and w: "ok w" "fits w (BYTE_SIZE Z + length bs)"
  shows "\<exists>msg w'. encode_SizeWrapper Z W enc (SizeWrapper x) w = Some (Panic msg, w')"
proof -
  have n: "fits w (BYTE_SIZE Z)" using w(2) fits_mono by simp
  obtain junk where junk: "length junk = BYTE_SIZE Z" and
    later: "enc x (advance junk w) = Some (Ok (length bs), advance (junk @ bs) w) \<Longrightarrow>
      later_fill W (BYTE_SIZE Z) (enc x) w
        = Some (Ok (length bs, cursor w, BYTE_SIZE Z), advance (junk @ bs) w)"
    using later_fits [OF w(1) n] w(2) by blast
  have "enc x (advance junk w) = Some (Ok (length bs), advance (junk @ bs) w)"
    using writes_Ok [OF enc ok_advance, of w junk] w n junk
    by (simp add: fits_advance advance_append)
  then show ?thesis using later by (simp add: encode_SizeWrapper_def fill_size_def z)
qed

lemma writes_Opaque:
  assumes "\<And>z. writes (BYTE_SIZE Z) (enc_size z) (hdr z)"
    and "writes (length bs) (enc_bytes bs) bs" and "try_from_usize Z (length bs) = Some z"
  shows "writes (BYTE_SIZE Z + length bs) (encode_Opaque Z enc_size enc_bytes (Opaque bs)) (hdr z @ bs)"
  using assms by (auto simp: encode_Opaque_def intro!: writes_bind writes_bind_ret)

end

text \<open>Every write buffer takes length-prefixed values with each of the three size types.\<close>

sublocale write_buffer \<subseteq> s8: size_wrapper W ok fits advance cursor size_u8 "\<lambda>z. [z]" ..

sublocale write_buffer \<subseteq> s16: size_wrapper W ok fits advance cursor size_u16 "to_be_bytes 2" ..

sublocale write_buffer \<subseteq> s32: size_wrapper W ok fits advance cursor size_u32 "to_be_bytes 4" ..

lemma vec_writes_iff: "vec.writes r m bs \<longleftrightarrow> (\<forall>v. m v = Some (Ok r, v @ bs))"
  by (simp add: vec.writes_def)

end
