(* ===== verification/Codec_Decode.thy ===== *)
theory Codec_Decode
  imports Codec_Encode
begin

text \<open>
  The read side of the codec crate (codec/src/decode.rs): the read buffer, the implementations of
  the trait \<open>Decode\<close>, and the contracts that tie a decoder to what the matching encoder writes.

  \<open>&[u8]\<close> is the one implementation of \<open>ReadBuffer\<close> in the sources, so a decoder is a procedure on
  the bytes left to read. Its methods keep their names.

  \<^item> \<open>exact_codec\<close>: the decoder inverts the encoding on a buffer that holds nothing else.
  \<^item> \<open>prefix_codec\<close>: it does so in front of any further bytes, which it leaves unread.
  Every codec answers on every input with a value or a \<open>DecodeError\<close>: it neither panics nor loops.
\<close>

section \<open>The read buffer\<close>

datatype DecodeError = DecodeError

type_synonym 'a decoder = "(bytes, 'a, DecodeError) proc"

definition is_empty :: "bytes \<Rightarrow> bool" where
  "is_empty buf \<longleftrightarrow> buf = []"

definition fill_buf :: "nat \<Rightarrow> bytes decoder" where
  "fill_buf n buf =
     (if length buf < n then Some (Err DecodeError, buf)
      else Some (Ok (take n buf), drop n buf))"

definition fill_all :: "bytes decoder" where
  "fill_all buf = Some (Ok buf, [])"

section \<open>Decoders\<close>

definition decode_u8 :: "u8 decoder" where
  "decode_u8 = bindM (fill_buf 1) (\<lambda>buf. retM (buf ! 0))"

definition decode_u16 :: "u16 decoder" where
  "decode_u16 = bindM (fill_buf 2) (\<lambda>buf. retM (push_bit 8 (ucast (buf ! 0)) + ucast (buf ! 1)))"

definition decode_u32 :: "u32 decoder" where
  "decode_u32 = bindM (fill_buf 4) (\<lambda>buf.
     retM (push_bit 24 (ucast (buf ! 0)) + push_bit 16 (ucast (buf ! 1))
           + push_bit 8 (ucast (buf ! 2)) + ucast (buf ! 3)))"

definition decode_unit :: "unit decoder" where
  "decode_unit = retM ()"

definition decode_Option :: "'a decoder \<Rightarrow> 'a option decoder" where
  "decode_Option dec buf = (if is_empty buf then Some (Ok None, buf) else bindM dec (\<lambda>x. retM (Some x)) buf)"

definition decode_Opaque :: "'z decoder \<Rightarrow> ('z \<Rightarrow> nat) \<Rightarrow> 'z Opaque decoder" where
  "decode_Opaque dec_size into_usize =
     bindM dec_size (\<lambda>z. bindM (fill_buf (into_usize z)) (\<lambda>bs. retM (opaque_from bs)))"

text \<open>The loop of \<open>Vec<T>\<close> runs while bytes are left; it ends only if the element decoder consumes.\<close>

partial_function (option) decode_Vec_loop :: "'a decoder \<Rightarrow> 'a list \<Rightarrow> 'a list decoder" where
  "decode_Vec_loop dec vector buf =
     (if is_empty buf then Some (Ok vector, buf)
      else case dec buf of
             None \<Rightarrow> None
           | Some (r, buf') \<Rightarrow>
               (case r of
                  Ok x \<Rightarrow> decode_Vec_loop dec (vector @ [x]) buf'
                | Err e \<Rightarrow> Some (Err e, buf')
                | Panic msg \<Rightarrow> Some (Panic msg, buf')))"

definition decode_Vec :: "'a decoder \<Rightarrow> 'a list decoder" where
  "decode_Vec dec = decode_Vec_loop dec []"

text \<open>
  \<open>SizeWrapper\<close>: the value is decoded from the bytes its size announces, in a buffer of its own, and
  must use them up. \<open>decode_left\<close> is that inner part.
\<close>

definition decode_left :: "'t decoder \<Rightarrow> bytes \<Rightarrow> ('z, 't) SizeWrapper decoder" where
  "decode_left dec left buf =
     (case dec left of
        None \<Rightarrow> None
      | Some (Ok value, left') \<Rightarrow>
          if is_empty left' then Some (Ok (SizeWrapper value), buf) else Some (Err DecodeError, buf)
      | Some (Err e, left') \<Rightarrow> Some (Err e, buf)
      | Some (Panic msg, left') \<Rightarrow> Some (Panic msg, buf))"

definition decode_SizeWrapper ::
  "'z decoder \<Rightarrow> ('z \<Rightarrow> nat option) \<Rightarrow> 't decoder \<Rightarrow> ('z, 't) SizeWrapper decoder" where
  "decode_SizeWrapper dec_size try_into dec =
     bindM dec_size (\<lambda>z.
       case try_into z of
         None \<Rightarrow> failM DecodeError
       | Some n \<Rightarrow> bindM (fill_buf n) (\<lambda>left. decode_left dec left))"

definition decode_array :: "nat \<Rightarrow> bytes decoder" where
  "decode_array SIZE = bindM (fill_buf SIZE) retM"

definition decode_Ignore :: "Ignore decoder" where
  "decode_Ignore = bindM fill_all (\<lambda>_. retM Ignore)"

definition decode_Infallible :: "'v decoder" where
  "decode_Infallible = failM DecodeError"

text \<open>\<open>u8\<close>, \<open>u16\<close> and \<open>u32\<close> convert to the 64-bit \<open>usize\<close> without loss.\<close>

definition try_into_usize :: "'a::len word \<Rightarrow> nat option" where
  "try_into_usize z = Some (unat z)"

section \<open>Contracts\<close>

text \<open>A decoder that always answers, with a value or an error.\<close>

definition answers :: "'a decoder \<Rightarrow> bool" where
  "answers dec \<longleftrightarrow> (\<forall>bs. \<exists>r rest. dec bs = Some (r, rest) \<and> (\<forall>msg. r \<noteq> Panic msg))"

lemma answersE:
  assumes "answers dec"
  obtains x rest where "dec bs = Some (Ok x, rest)" | rest where "dec bs = Some (Err DecodeError, rest)"
proof -
  obtain r rest where r: "dec bs = Some (r, rest)" "\<And>msg. r \<noteq> Panic msg"
    using assms unfolding answers_def by meson
  show thesis
  proof (cases r)
    case (Ok x)
    then show ?thesis using r(1) that(1) by blast
  next
    case (Err e)
    then show ?thesis using r(1) that(2) by (cases e) simp
  next
    case (Panic msg)
    then show ?thesis using r(2) by blast
  qed
qed

lemma answers_ret [intro]: "answers (retM x)"
  by (simp add: answers_def)

lemma answers_fail [intro]: "answers (failM e)"
  by (simp add: answers_def)

lemma answers_bind [intro]:
  assumes m: "answers m" and f: "\<And>x. answers (f x)"
  shows "answers (bindM m f)"
  unfolding answers_def
proof
  fix bs
  show "\<exists>r rest. bindM m f bs = Some (r, rest) \<and> (\<forall>msg. r \<noteq> Panic msg)"
  proof (cases rule: answersE [OF m, of bs])
    case (1 x rest)
    then show ?thesis using f [of x] by (simp add: answers_def)
  qed simp
qed

lemma answers_fill_buf [intro]: "answers (fill_buf n)"
  by (simp add: answers_def fill_buf_def)

locale exact_codec =
  fixes wire :: "'a \<Rightarrow> bytes" and valid :: "'a \<Rightarrow> bool" and dec :: "'a decoder"
  assumes exact_decodes: "valid x \<Longrightarrow> dec (wire x) = Some (Ok x, [])"
    and exact_sound: "dec bs = Some (Ok x, []) \<Longrightarrow> valid x \<and> bs = wire x"
    and exact_answers: "answers dec"
begin

lemma wire_inj: "valid x \<Longrightarrow> valid y \<Longrightarrow> wire x = wire y \<Longrightarrow> x = y"
  by (metis exact_decodes option.inject outcome.inject(1) prod.inject)

end

locale prefix_codec =
  fixes wire :: "'a \<Rightarrow> bytes" and valid :: "'a \<Rightarrow> bool" and dec :: "'a decoder"
  assumes prefix_decodes: "valid x \<Longrightarrow> dec (wire x @ rest) = Some (Ok x, rest)"
    and prefix_sound: "dec bs = Some (Ok x, rest) \<Longrightarrow> valid x \<and> bs = wire x @ rest"
    and prefix_answers: "answers dec"
begin

lemma prefix_free:
  assumes "valid x" and "valid y" and "wire x @ a = wire y @ b"
  shows "x = y \<and> a = b"
proof -
  have "Some (Ok x, a) = dec (wire x @ a)" using assms(1) by (simp add: prefix_decodes)
  also have "\<dots> = dec (wire y @ b)" by (simp only: assms(3))
  also have "\<dots> = Some (Ok y, b)" using assms(2) by (rule prefix_decodes)
  finally show ?thesis by simp
qed

lemma truncated:
  assumes x: "valid x" and n: "n < length (wire x)"
  shows "\<exists>rest. dec (take n (wire x)) = Some (Err DecodeError, rest)"
proof (cases rule: answersE [OF prefix_answers, of "take n (wire x)"])
  case (1 y rest)
  then have y: "valid y" "take n (wire x) = wire y @ rest" using prefix_sound by blast+
  then have "wire x @ [] = wire y @ (rest @ drop n (wire x))"
    using append_take_drop_id [of n "wire x"] by simp
  then have "rest @ drop n (wire x) = []" using prefix_free [OF x y(1)] by blast
  then show ?thesis using n by simp
next
  case (2 rest)
  then show ?thesis by blast
qed

end

sublocale prefix_codec \<subseteq> exact_codec
proof
  show "dec (wire x) = Some (Ok x, [])" if "valid x" for x
    using prefix_decodes [OF that, of "[]"] by simp
  show "valid x \<and> bs = wire x" if "dec bs = Some (Ok x, [])" for bs x
    using prefix_sound [OF that] by simp
qed (rule prefix_answers)

end
