(* ===== verification/Codec_Laws.thy ===== *)
theory Codec_Laws
  imports Codec_Decode
begin

text \<open>
  The codec contracts for the types of the codec crate: the fixed-width leaves, the loop of
  \<open>Vec<T>\<close>, optional values, length-prefixed values, and structs, whose derived code runs the codecs
  of the fields one after the other. Each combinator is a locale over the codecs it is built from,
  with a \<open>sublocale\<close> for the contract it gives.
\<close>

section \<open>Leaves\<close>

lemma fill_buf_append [simp]: "length xs = n \<Longrightarrow> fill_buf n (xs @ rest) = Some (Ok xs, rest)"
  by (simp add: fill_buf_def)

lemma fill_buf_Ok_iff:
  "fill_buf n bs = Some (Ok xs, rest) \<longleftrightarrow> length xs = n \<and> bs = xs @ rest"
  by (auto simp: fill_buf_def)

text \<open>A value that is a function of a fixed number of bytes.\<close>

lemma prefix_codec_fill:
  assumes "\<And>x. valid x \<Longrightarrow> length (wire x) = n \<and> f (wire x) = x"
    and "\<And>bs. length bs = n \<Longrightarrow> valid (f bs) \<and> wire (f bs) = bs"
  shows "prefix_codec wire valid (bindM (fill_buf n) (\<lambda>bs. retM (f bs)))"
proof
  show "bindM (fill_buf n) (\<lambda>bs. retM (f bs)) (wire x @ rest) = Some (Ok x, rest)" if "valid x" for x rest
    using assms(1) [OF that] by simp
  show "valid x \<and> bs = wire x @ rest" if "bindM (fill_buf n) (\<lambda>bs. retM (f bs)) bs = Some (Ok x, rest)"
    for bs x rest
    using that assms(2) by (auto simp: bindM_Ok_iff fill_buf_Ok_iff)
qed auto

interpretation c_u8: prefix_codec "\<lambda>x. [x]" "\<lambda>x. True" decode_u8
  unfolding decode_u8_def by (rule prefix_codec_fill) (auto simp: length_Suc_0_conv)

interpretation c_u16: prefix_codec "to_be_bytes 2" "\<lambda>x. True" decode_u16
  unfolding decode_u16_def
  by (rule prefix_codec_fill) (auto simp: length_2_conv be16_bytes to_be_bytes_2 [symmetric] be16_value,
      simp_all add: to_be_bytes_2 be16_value)

interpretation c_u32: prefix_codec "to_be_bytes 4" "\<lambda>x. True" decode_u32
  unfolding decode_u32_def
  by (rule prefix_codec_fill) (auto simp: length_4_conv be32_bytes,
      simp_all add: to_be_bytes_4 be32_value)

interpretation c_unit: prefix_codec "\<lambda>x. []" "\<lambda>x. True" decode_unit
  by unfold_locales (auto simp: decode_unit_def)

lemma prefix_codec_array: "prefix_codec (\<lambda>x. x) (\<lambda>x. length x = n) (decode_array n)"
  using prefix_codec_fill [of "\<lambda>x. length x = n" "\<lambda>x. x" n "\<lambda>x. x"]
  by (simp add: decode_array_def)

section \<open>Repetition\<close>

text \<open>
  \<open>Vec<T>\<close> of a type whose encodings are never empty: the loop ends on every buffer, and it inverts
  the concatenation of the elements' encodings.
\<close>

locale vec_codec = prefix_codec +
  assumes nonempty: "valid x \<Longrightarrow> wire x \<noteq> []"
begin

lemma loop_decodes:
  assumes "\<forall>x \<in> set xs. valid x"
  shows "decode_Vec_loop dec acc (wire_Vec wire xs) = Some (Ok (acc @ xs), [])"
  using assms
proof (induction xs arbitrary: acc)
  case Nil
  then show ?case by (simp add: decode_Vec_loop.simps [of dec acc "[]"] wire_Vec_def is_empty_def)
next
  case (Cons x xs)
  then have "wire x @ wire_Vec wire xs \<noteq> []" using nonempty by simp
  moreover have "dec (wire x @ wire_Vec wire xs) = Some (Ok x, wire_Vec wire xs)"
    using Cons.prems by (simp add: prefix_decodes)
  moreover have "wire_Vec wire (x # xs) = wire x @ wire_Vec wire xs" by (simp add: wire_Vec_def)
  ultimately show ?case
    using Cons by (simp add: decode_Vec_loop.simps [of dec acc "wire x @ wire_Vec wire xs"] is_empty_def)
qed

lemma shrinks: "dec bs = Some (Ok x, rest) \<Longrightarrow> length rest < length bs"
  using prefix_sound nonempty by fastforce

lemma loop_answers:
  "\<exists>r rest. decode_Vec_loop dec acc bs = Some (r, rest) \<and> (\<forall>msg. r \<noteq> Panic msg) \<and>
     (\<forall>ys. r = Ok ys \<longrightarrow> rest = [] \<and>
        (\<exists>xs. ys = acc @ xs \<and> (\<forall>x \<in> set xs. valid x) \<and> bs = wire_Vec wire xs))"
proof (induction bs arbitrary: acc rule: length_induct)
  case (1 bs)
  show ?case
  proof (cases "bs = []")
    case True
    then show ?thesis
      by (simp add: decode_Vec_loop.simps [of dec acc "[]"] is_empty_def wire_Vec_def)
  next
    case False
    show ?thesis
    proof (cases rule: answersE [OF prefix_answers, of bs])
      case (1 x rest)
      then have x: "valid x" "bs = wire x @ rest" using prefix_sound by blast+
      have IH: "\<exists>r rest'. decode_Vec_loop dec (acc @ [x]) rest = Some (r, rest') \<and>
          (\<forall>msg. r \<noteq> Panic msg) \<and> (\<forall>ys. r = Ok ys \<longrightarrow> rest' = [] \<and>
          (\<exists>xs. ys = (acc @ [x]) @ xs \<and> (\<forall>x \<in> set xs. valid x) \<and> rest = wire_Vec wire xs))"
        using "1.IH" shrinks [OF 1] by blast
      have "decode_Vec_loop dec acc bs = decode_Vec_loop dec (acc @ [x]) rest"
        using False 1 by (simp add: decode_Vec_loop.simps [of dec acc bs] is_empty_def)
      moreover have "\<exists>zs. (acc @ [x]) @ xs = acc @ zs \<and> (\<forall>x \<in> set zs. valid x) \<and> bs = wire_Vec wire zs"
        if "\<forall>x \<in> set xs. valid x" "rest = wire_Vec wire xs" for xs
        using that x by (intro exI [of _ "x # xs"]) (simp add: wire_Vec_def)
      ultimately show ?thesis using IH by metis
    next
      case (2 rest)
      then show ?thesis using False by (simp add: decode_Vec_loop.simps [of dec acc bs] is_empty_def)
    qed
  qed
qed

lemma greedy: "decode_Vec dec bs = Some (Ok xs, rest) \<Longrightarrow> rest = []"
  using loop_answers [of "[]" bs] by (auto simp: decode_Vec_def)

end

sublocale vec_codec \<subseteq> vec: exact_codec "wire_Vec wire" "\<lambda>xs. \<forall>x \<in> set xs. valid x" "decode_Vec dec"
proof
  show "decode_Vec dec (wire_Vec wire xs) = Some (Ok xs, [])" if "\<forall>x \<in> set xs. valid x" for xs
    using loop_decodes [OF that, of "[]"] by (simp add: decode_Vec_def)
  show "(\<forall>x \<in> set xs. valid x) \<and> bs = wire_Vec wire xs" if "decode_Vec dec bs = Some (Ok xs, [])" for bs xs
    using loop_answers [of "[]" bs] that by (auto simp: decode_Vec_def)
  show "answers (decode_Vec dec)"
    using loop_answers [of "[]"] unfolding answers_def decode_Vec_def by blast
qed

interpretation v_u8: vec_codec "\<lambda>x. [x]" "\<lambda>x. True" decode_u8
  by unfold_locales simp

lemma wire_Vec_u8 [simp]: "wire_Vec (\<lambda>x. [x]) bs = bs"
  by (induction bs) (simp_all add: wire_Vec_def)

lemma decode_Vec_u8: "decode_Vec decode_u8 bs = Some (Ok bs, [])"
  using v_u8.vec.exact_decodes [of bs] by simp

text \<open>A decoder that succeeds without consuming makes the loop run for ever.\<close>

lemma decode_Vec_loop_stuck:
  assumes ret: "decode_Vec_loop dec acc bs = Some y"
  shows "(\<exists>x. dec bs = Some (Ok x, bs)) \<longrightarrow> bs = []"
proof (rule decode_Vec_loop.raw_induct
    [where P = "\<lambda>dec acc bs y. (\<exists>x. dec bs = Some (Ok x, bs)) \<longrightarrow> bs = []", OF _ ret])
  fix f dec acc y and bs :: bytes
  assume IH: "\<And>dec acc bs y. f dec acc bs = Some y \<Longrightarrow> (\<exists>x. dec bs = Some (Ok x, bs)) \<longrightarrow> bs = []"
    and eq: "(if is_empty bs then Some (Ok acc, bs)
      else case dec bs of None \<Rightarrow> None
        | Some (Ok x, buf') \<Rightarrow> f dec (acc @ [x]) buf'
        | Some (Err e, buf') \<Rightarrow> Some (Err e, buf')
        | Some (Panic msg, buf') \<Rightarrow> Some (Panic msg, buf')) = Some y"
  show "(\<exists>x. dec bs = Some (Ok x, bs)) \<longrightarrow> bs = []"
  proof (intro impI, rule ccontr)
    assume "\<exists>x. dec bs = Some (Ok x, bs)" and ne: "bs \<noteq> []"
    then obtain x where x: "dec bs = Some (Ok x, bs)" by blast
    then have "f dec (acc @ [x]) bs = Some y" using eq ne by (simp add: is_empty_def)
    then show False using IH x ne by blast
  qed
qed

lemma decode_Vec_diverges:
  assumes "dec bs = Some (Ok x, bs)" and "bs \<noteq> []"
  shows "decode_Vec dec bs = None"
  using decode_Vec_loop_stuck [of dec "[]" bs] assms unfolding decode_Vec_def
  by (cases "decode_Vec_loop dec [] bs") auto

section \<open>Optional values\<close>

locale option_codec = exact_codec +
  assumes nonempty: "valid x \<Longrightarrow> wire x \<noteq> []"

sublocale option_codec \<subseteq> opt: exact_codec "wire_Option wire" "pred_option valid" "decode_Option dec"
proof
  show "decode_Option dec (wire_Option wire x) = Some (Ok x, [])" if "pred_option valid x" for x
    using that nonempty
    by (cases x) (auto simp: decode_Option_def wire_Option_def is_empty_def exact_decodes)
  show "pred_option valid x \<and> bs = wire_Option wire x" if "decode_Option dec bs = Some (Ok x, [])" for bs x
    using that
    by (auto simp: decode_Option_def wire_Option_def is_empty_def bindM_Ok_iff dest: exact_sound
             split: if_splits)
  have "answers (bindM dec (\<lambda>x. retM (Some x)))" using exact_answers by blast
  then show "answers (decode_Option dec)"
    unfolding answers_def decode_Option_def is_empty_def by (metis outcome.distinct(3))
qed

interpretation o_u32: option_codec "to_be_bytes 4" "\<lambda>x. True" decode_u32
  by unfold_locales (simp add: to_be_bytes_4)

section \<open>Length-prefixed values\<close>

definition wire_SizeWrapper :: "('z::len word \<Rightarrow> bytes) \<Rightarrow> ('t \<Rightarrow> bytes) \<Rightarrow> ('z word, 't) SizeWrapper \<Rightarrow> bytes" where
  "wire_SizeWrapper hdr wire x =
     hdr (of_nat (length (wire (into_inner x)))) @ wire (into_inner x)"

definition valid_SizeWrapper :: "('t \<Rightarrow> bytes) \<Rightarrow> ('t \<Rightarrow> bool) \<Rightarrow> ('z::len word, 't) SizeWrapper \<Rightarrow> bool" where
  "valid_SizeWrapper wire valid x \<longleftrightarrow>
     valid (into_inner x) \<and> length (wire (into_inner x)) < 2 ^ LENGTH('z)"

lemma unat_of_nat_lt: "n < 2 ^ LENGTH('a) \<Longrightarrow> unat (of_nat n :: 'a::len word) = n"
  by (simp add: unat_of_nat take_bit_nat_eq_self)

lemma decode_left_Ok_iff:
  "decode_left dec left buf = Some (Ok x, rest)
     \<longleftrightarrow> dec left = Some (Ok (into_inner x), []) \<and> buf = rest"
  by (cases x) (auto simp: decode_left_def is_empty_def
    split: option.splits prod.splits outcome.splits if_splits)

lemma answers_decode_left: "answers dec \<Longrightarrow> answers (decode_left dec left)"
  by (erule answersE [of dec left]) (auto simp: answers_def decode_left_def)

locale sized_codec =
  z: prefix_codec hdr "\<lambda>z. True" dec_size + t: exact_codec wire valid dec
  for hdr :: "'z::len word \<Rightarrow> bytes" and dec_size and wire :: "'t \<Rightarrow> bytes" and valid dec

sublocale sized_codec \<subseteq>
  sized: prefix_codec "wire_SizeWrapper hdr wire" "valid_SizeWrapper wire valid"
    "decode_SizeWrapper dec_size try_into_usize dec"
proof
  fix x :: "('z word, 't) SizeWrapper" and rest
  assume "valid_SizeWrapper wire valid x"
  then have x: "valid (into_inner x)" "length (wire (into_inner x)) < 2 ^ LENGTH('z)"
    by (simp_all add: valid_SizeWrapper_def)
  then show "decode_SizeWrapper dec_size try_into_usize dec (wire_SizeWrapper hdr wire x @ rest)
      = Some (Ok x, rest)"
    by (simp add: decode_SizeWrapper_def wire_SizeWrapper_def try_into_usize_def z.prefix_decodes
        unat_of_nat_lt t.exact_decodes decode_left_Ok_iff)
next
  fix bs and x :: "('z word, 't) SizeWrapper" and rest
  assume "decode_SizeWrapper dec_size try_into_usize dec bs = Some (Ok x, rest)"
  then obtain z left bs' where z: "dec_size bs = Some (Ok z, bs')"
    and left: "length left = unat z" "bs' = left @ rest" "dec left = Some (Ok (into_inner x), [])"
    unfolding decode_SizeWrapper_def try_into_usize_def
    by (auto simp: bindM_Ok_iff fill_buf_Ok_iff decode_left_Ok_iff)
  have "valid (into_inner x)" "left = wire (into_inner x)" using t.exact_sound [OF left(3)] by auto
  moreover have "bs = hdr z @ bs'" using z.prefix_sound [OF z] by simp
  moreover have "z = of_nat (length left)" using left(1) by simp
  moreover have "length left < 2 ^ LENGTH('z)" using left(1) unsigned_less [of z] by simp
  ultimately show "valid_SizeWrapper wire valid x \<and> bs = wire_SizeWrapper hdr wire x @ rest"
    using left(2) by (simp add: wire_SizeWrapper_def valid_SizeWrapper_def)
next
  show "answers (decode_SizeWrapper dec_size try_into_usize dec)"
    using z.prefix_answers answers_decode_left [OF t.exact_answers]
    by (auto simp: decode_SizeWrapper_def try_into_usize_def)
qed

section \<open>Structs\<close>

text \<open>The derived decoder of a struct runs the decoders of its fields in order.\<close>

lemma prefix_codec_last:
  assumes "prefix_codec wc vc dc" and "\<And>c. fc (mk c) = c" and "\<And>c. P (mk c)"
    and "\<And>s. P s \<Longrightarrow> mk (fc s) = s"
  shows "prefix_codec (\<lambda>s. wc (fc s)) (\<lambda>s. P s \<and> vc (fc s)) (bindM dc (\<lambda>c. retM (mk c)))"
proof -
  note c = prefix_codec.prefix_decodes [OF assms(1)] prefix_codec.prefix_sound [OF assms(1)]
    prefix_codec.prefix_answers [OF assms(1)]
  show ?thesis using assms(2-4) c by unfold_locales (auto simp: bindM_Ok_iff)
qed

lemma exact_codec_last:
  assumes "exact_codec wc vc dc" and "\<And>c. fc (mk c) = c" and "\<And>c. P (mk c)"
    and "\<And>s. P s \<Longrightarrow> mk (fc s) = s"
  shows "exact_codec (\<lambda>s. wc (fc s)) (\<lambda>s. P s \<and> vc (fc s)) (bindM dc (\<lambda>c. retM (mk c)))"
proof -
  note c = exact_codec.exact_decodes [OF assms(1)] exact_codec.exact_sound [OF assms(1)]
    exact_codec.exact_answers [OF assms(1)]
  show ?thesis using assms(2-4) c by unfold_locales (auto simp: bindM_Ok_iff)
qed

lemmas prefix_codec_struct1 = prefix_codec_last [where P = "\<lambda>s. True", simplified]
lemmas exact_codec_struct1 = exact_codec_last [where P = "\<lambda>s. True", simplified]

text \<open>One more field in front: \<open>k a\<close> decodes the rest of the struct whose first field is \<open>a\<close>.\<close>

lemma exact_codec_field:
  assumes "prefix_codec wa va da" and k: "\<And>a. exact_codec wb (\<lambda>s. fa s = a \<and> vb s) (k a)"
  shows "exact_codec (\<lambda>s. wa (fa s) @ wb s) (\<lambda>s. va (fa s) \<and> vb s) (bindM da k)"
proof -
  note a = prefix_codec.prefix_decodes [OF assms(1)] prefix_codec.prefix_sound [OF assms(1)]
    prefix_codec.prefix_answers [OF assms(1)]
  note b = exact_codec.exact_decodes [OF k] exact_codec.exact_sound [OF k] exact_codec.exact_answers [OF k]
  show ?thesis
  proof
    show "bindM da k (wa (fa s) @ wb s) = Some (Ok s, [])" if "va (fa s) \<and> vb s" for s
      using that by (simp add: a(1) b(1))
    show "(va (fa s) \<and> vb s) \<and> bs = wa (fa s) @ wb s" if "bindM da k bs = Some (Ok s, [])" for bs s
      using that a(2) b(2) by (fastforce simp: bindM_Ok_iff)
  qed (use a(3) b(3) in blast)
qed

lemma prefix_codec_field:
  assumes "prefix_codec wa va da" and k: "\<And>a. prefix_codec wb (\<lambda>s. fa s = a \<and> vb s) (k a)"
  shows "prefix_codec (\<lambda>s. wa (fa s) @ wb s) (\<lambda>s. va (fa s) \<and> vb s) (bindM da k)"
proof -
  note a = prefix_codec.prefix_decodes [OF assms(1)] prefix_codec.prefix_sound [OF assms(1)]
    prefix_codec.prefix_answers [OF assms(1)]
  note b = prefix_codec.prefix_decodes [OF k] prefix_codec.prefix_sound [OF k]
    prefix_codec.prefix_answers [OF k]
  show ?thesis
  proof
    show "bindM da k ((wa (fa s) @ wb s) @ rest) = Some (Ok s, rest)" if "va (fa s) \<and> vb s" for s rest
      using that by (simp add: a(1) b(1))
    show "(va (fa s) \<and> vb s) \<and> bs = (wa (fa s) @ wb s) @ rest"
      if "bindM da k bs = Some (Ok s, rest)" for bs s rest
      using that a(2) b(2) by (fastforce simp: bindM_Ok_iff)
  qed (use a(3) b(3) in blast)
qed

section \<open>Opaque byte strings\<close>

definition wire_Opaque :: "('z::len word \<Rightarrow> bytes) \<Rightarrow> 'z word Opaque \<Rightarrow> bytes" where
  "wire_Opaque hdr x = hdr (of_nat (length (opaque_inner x))) @ opaque_inner x"

definition valid_Opaque :: "'z::len word Opaque \<Rightarrow> bool" where
  "valid_Opaque x \<longleftrightarrow> length (opaque_inner x) < 2 ^ LENGTH('z)"

locale opaque_codec = z: prefix_codec hdr "\<lambda>z. True" dec_size
  for hdr :: "'z::len word \<Rightarrow> bytes" and dec_size

sublocale opaque_codec \<subseteq> opq: prefix_codec "wire_Opaque hdr" valid_Opaque "decode_Opaque dec_size unat"
proof
  show "decode_Opaque dec_size unat (wire_Opaque hdr x @ rest) = Some (Ok x, rest)"
    if "valid_Opaque x" for x rest
    using that
    by (cases x) (simp add: decode_Opaque_def wire_Opaque_def valid_Opaque_def opaque_from_def fill_buf_def
        z.prefix_decodes unat_of_nat_lt)
  show "valid_Opaque x \<and> bs = wire_Opaque hdr x @ rest"
    if dec: "decode_Opaque dec_size unat bs = Some (Ok x, rest)" for bs x rest
  proof -
    obtain z bs' where z: "dec_size bs = Some (Ok z, bs')" "unat z \<le> length bs'"
        "x = Opaque (take (unat z) bs')" "rest = drop (unat z) bs'"
      using dec by (auto simp: decode_Opaque_def bindM_Ok_iff fill_buf_def opaque_from_def split: if_splits)
    then show ?thesis
      using z.prefix_sound [OF z(1)] unsigned_less [of z]
      by (simp add: wire_Opaque_def valid_Opaque_def min_absorb2)
  qed
  show "answers (decode_Opaque dec_size unat)"
    unfolding decode_Opaque_def using z.prefix_answers by blast
qed

interpretation q_u8: opaque_codec "\<lambda>z. [z]" decode_u8 ..

interpretation q_u16: opaque_codec "to_be_bytes 2" decode_u16 ..

interpretation q_u32: opaque_codec "to_be_bytes 4" decode_u32 ..

lemma encode_Opaque_u16:
  assumes "valid_Opaque x"
  shows "(encode_Opaque size_u16 (encode_u16 vec_buffer) (encode_slice_u8 vec_buffer) x :: (bytes, nat, 'e) proc) v
    = Some (Ok (2 + length (opaque_inner x)), v @ wire_Opaque (to_be_bytes 2) x)"
proof -
  obtain bs where x: "x = Opaque bs" by (cases x)
  have "vec.writes (BYTE_SIZE size_u16 + length bs)
      (encode_Opaque size_u16 (encode_u16 vec_buffer) (encode_slice_u8 vec_buffer) (Opaque bs) :: (bytes, nat, 'e) proc)
      (to_be_bytes 2 (of_nat (length bs) :: u16) @ bs)"
    using assms x
    by (intro vec.s16.writes_Opaque vec.writes_slice_u8)
       (simp_all add: size_u16_def vec.writes_u16 try_from_nat_def valid_Opaque_def)
  then show ?thesis by (simp add: x wire_Opaque_def vec_writes_iff size_u16_def)
qed

section \<open>Properties\<close>




text \<open>
  C37. Decoding a vector of a type whose values take no bytes never ends as soon as there is one byte to
  decode: the loop of \<open>Vec<T>\<close> waits for a decoder that consumes something.
\<close>

theorem decode_Vec_unit_diverges:
  assumes "bs \<noteq> []"
  shows "decode_Vec decode_unit bs = None"
  using assms by (intro decode_Vec_diverges) (simp_all add: decode_unit_def)

theorem decode_Vec_unit_diverges_witness: "decode_Vec decode_unit [0] = None"
  by (rule decode_Vec_unit_diverges) simp

end
