(* ===== verification/Crypto.thy ===== *)
theory Crypto
  imports Codec_Laws
begin

text \<open>
  Keys (dersp/src/crypto.rs): the three 32-byte key types, clamping and generation of secret keys,
  and the derived codec of public keys. A fixed-size array is a byte list; \<open>valid_key\<close> is its length.

  Code outside the repository is a parameter: \<open>fill_bytes\<close> of the random number generator and
  \<open>public_key\<close> of crypto_box (the scalar multiplication with the base point).
\<close>

section \<open>Key types\<close>

definition KEY_SIZE :: nat where
  "KEY_SIZE = 32"

datatype SecretKey = SecretKey (sk_bytes: bytes)

datatype PublicKey = PublicKey (pk_bytes: bytes)

datatype PresharedKey = PresharedKey (psk_bytes: bytes)

definition valid_SecretKey :: "SecretKey \<Rightarrow> bool" where
  "valid_SecretKey k \<longleftrightarrow> length (sk_bytes k) = KEY_SIZE"

definition valid_PublicKey :: "PublicKey \<Rightarrow> bool" where
  "valid_PublicKey k \<longleftrightarrow> length (pk_bytes k) = KEY_SIZE"

section \<open>Secret keys\<close>

definition secret_key_new :: "bytes \<Rightarrow> SecretKey" where
  "secret_key_new bs =
     (let bs = bs[0 := bs ! 0 AND 248];
          bs = bs[31 := bs ! 31 AND 127];
          bs = bs[31 := bs ! 31 OR 64]
      in SecretKey bs)"

text \<open>\<open>first_mut\<close> and \<open>last_mut\<close> of a slice: nothing happens on an empty one.\<close>

definition update_first :: "(u8 \<Rightarrow> u8) \<Rightarrow> bytes \<Rightarrow> bytes" where
  "update_first f bs = (case bs of [] \<Rightarrow> [] | b # rest \<Rightarrow> f b # rest)"

definition update_last :: "(u8 \<Rightarrow> u8) \<Rightarrow> bytes \<Rightarrow> bytes" where
  "update_last f bs = (if bs = [] then [] else butlast bs @ [f (last bs)])"

definition secret_key_gen_with :: "(nat \<Rightarrow> 'rng \<Rightarrow> bytes \<times> 'rng) \<Rightarrow> 'rng \<Rightarrow> SecretKey \<times> 'rng" where
  "secret_key_gen_with fill_bytes rng =
     (let (key, rng) = fill_bytes KEY_SIZE rng;
          key = update_first (\<lambda>b. b AND 248) key;
          key = update_last (\<lambda>b. b AND 127 OR 64) key
      in (SecretKey key, rng))"

definition secret_key_gen :: "(nat \<Rightarrow> 'rng \<Rightarrow> bytes \<times> 'rng) \<Rightarrow> 'rng \<Rightarrow> SecretKey" where
  "secret_key_gen fill_bytes from_entropy = fst (secret_key_gen_with fill_bytes from_entropy)"

definition secret_key_public :: "(bytes \<Rightarrow> bytes) \<Rightarrow> SecretKey \<Rightarrow> PublicKey" where
  "secret_key_public public_key k = PublicKey (public_key (sk_bytes k))"

definition as_bytes :: "SecretKey \<Rightarrow> bytes" where
  "as_bytes k = sk_bytes k"

definition into_bytes :: "SecretKey \<Rightarrow> bytes" where
  "into_bytes k = sk_bytes k"

definition public_key_new :: "bytes \<Rightarrow> PublicKey" where
  "public_key_new bs = PublicKey bs"

definition preshared_key_new :: "bytes \<Rightarrow> PresharedKey" where
  "preshared_key_new bs = PresharedKey bs"

text \<open>What clamping is for: a multiple of 8 between \<open>2 ^ 254\<close> and \<open>2 ^ 255\<close>, little-endian.\<close>

definition clamped :: "SecretKey \<Rightarrow> bool" where
  "clamped k \<longleftrightarrow>
     length (sk_bytes k) = KEY_SIZE \<and> sk_bytes k ! 0 AND 7 = 0 \<and> sk_bytes k ! 31 AND 192 = 64"

section \<open>The codec of public keys\<close>

definition decode_PublicKey :: "PublicKey decoder" where
  "decode_PublicKey = bindM (decode_array KEY_SIZE) (\<lambda>a. retM (PublicKey a))"

definition encode_PublicKey :: "('w, 'e) WriteBuffer \<Rightarrow> ('w, PublicKey, 'e) encoder" where
  "encode_PublicKey W k = bindM (encode_array KEY_SIZE W (pk_bytes k)) (\<lambda>n. retM (0 + n))"

interpretation c_pk: prefix_codec pk_bytes valid_PublicKey decode_PublicKey
  unfolding decode_PublicKey_def valid_PublicKey_def
  by (rule prefix_codec_struct1 [OF prefix_codec_array]) simp_all

context write_buffer
begin

lemma writes_PublicKey: "writes KEY_SIZE (encode_PublicKey W k) (pk_bytes k)"
  using writes_bind_ret [OF writes_array, where f = "\<lambda>n. 0 + n"]
  by (simp add: encode_PublicKey_def)

end

section \<open>Clamping\<close>

lemma u8_and_248_7: "(b AND 248) AND 7 = (0 :: u8)"
  by (simp add: and.assoc)

lemma u8_clamp_last: "(b AND 127 OR 64) AND 192 = (64 :: u8)"
  by (simp add: bit.conj_disj_distrib2 and.assoc word_ao_absorbs)

lemma sk_bytes_new:
  "length bs = KEY_SIZE \<Longrightarrow>
   sk_bytes (secret_key_new bs) = bs[0 := bs ! 0 AND 248, 31 := bs ! 31 AND 127 OR 64]"
  by (simp add: secret_key_new_def Let_def KEY_SIZE_def)

lemma update_first_last:
  assumes "length bs = KEY_SIZE"
  shows "update_last g (update_first f bs) = bs[0 := f (bs ! 0), 31 := g (bs ! 31)]"
proof -
  obtain b tail where 1: "bs = b # tail" and 2: "length tail = 31"
    using assms by (cases bs) (auto simp: KEY_SIZE_def)
  obtain rest c where 3: "tail = rest @ [c]" and 4: "length rest = 30"
    using 2 by (cases tail rule: rev_cases) auto
  show ?thesis
    by (simp add: 1 3 4 update_first_def update_last_def list_update_append nth_append)
qed

lemma clamped_update:
  assumes "length bs = KEY_SIZE"
  shows "clamped (SecretKey (bs[0 := b AND 248, 31 := c AND 127 OR 64]))"
  using assms by (simp add: clamped_def KEY_SIZE_def u8_and_248_7 u8_clamp_last)

text \<open>Both constructors agree: generating is \<open>new\<close> on the random bytes.\<close>

lemma gen_with_eq_new:
  assumes "fill_bytes KEY_SIZE rng = (bs, rng')" and "length bs = KEY_SIZE"
  shows "secret_key_gen_with fill_bytes rng = (secret_key_new bs, rng')"
  using assms
  by (simp add: secret_key_gen_with_def update_first_last)
     (simp add: secret_key_new_def Let_def KEY_SIZE_def)

section \<open>Properties\<close>

text \<open>
  C27. Both ways to make a secret key clamp it: whatever the 32 bytes, \<open>SecretKey::new\<close> and
  \<open>SecretKey::gen\<close> give a key that is a multiple of 8 with bit 255 clear and bit 254 set; they agree
  on the same bytes; and clamping again changes nothing.
\<close>

theorem secret_keys_are_clamped:
  assumes "length bs = KEY_SIZE" and "fill_bytes KEY_SIZE rng = (bs, rng')"
  shows "clamped (secret_key_new bs) \<and> secret_key_gen_with fill_bytes rng = (secret_key_new bs, rng') \<and>
    secret_key_new (sk_bytes (secret_key_new bs)) = secret_key_new bs"
proof -
  have new: "secret_key_new bs = SecretKey (bs[0 := bs ! 0 AND 248, 31 := bs ! 31 AND 127 OR 64])"
    using sk_bytes_new [OF assms(1)] by (cases "secret_key_new bs") simp
  have "(b AND 127 OR 64) AND 127 OR 64 = b AND 127 OR (64 :: u8)" for b
    by (simp add: bit.conj_disj_distrib2 and.assoc or.assoc)
  then have "sk_bytes (secret_key_new (sk_bytes (secret_key_new bs))) = sk_bytes (secret_key_new bs)"
    using assms(1) by (simp add: sk_bytes_new new KEY_SIZE_def and.assoc list_update_swap [of 31 0])
  then show ?thesis
    using new clamped_update [OF assms(1)] gen_with_eq_new [of fill_bytes rng bs rng'] assms
    by (simp add: SecretKey.expand)
qed

theorem secret_keys_are_clamped_witness:
  "clamped (secret_key_new (replicate 32 255)) \<and>
   secret_key_gen_with (\<lambda>n rng. (replicate n 255, rng)) (0 :: nat) = (secret_key_new (replicate 32 255), 0)"
  using secret_keys_are_clamped [of "replicate 32 255" "\<lambda>n rng. (replicate n 255, rng)" "0 :: nat" 0]
  by (simp add: KEY_SIZE_def)

end
