(* ===== verification/Proto_Data.thy ===== *)
theory Proto_Data
  imports Crypto
begin

text \<open>
  The DERP frames (dersp/src/proto/data.rs): the frame types with their tags, the payload structs
  with the codecs the derive macros generate for them, \<open>Frame<T>\<close>, and the two cryptographic
  operations on \<open>ClientInfo\<close>.

  crypto_box, the random number generator and serde_json are parameters. An \<open>anyhow\<close> error is a
  constructor of \<open>error\<close>, one per place that raises it.
\<close>

section \<open>Frame types\<close>

datatype FrameType =
    ServerKey
  | ClientInfo
  | ServerInfo
  | SendPacket
  | RecvPacket
  | KeepAlive
  | NotePreferred
  | PeerGone
  | PeerPresent
  | ForwardPacket
  | WatchConns
  | ClosePeer
  | Ping
  | Pong
  | ControlMessage
  | Unkonow u8

definition decode_FrameType :: "FrameType decoder" where
  "decode_FrameType = bindM decode_u8 (\<lambda>tag. retM (
     if tag = 0x01 then ServerKey
     else if tag = 0x02 then ClientInfo
     else if tag = 0x03 then ServerInfo
     else if tag = 0x04 then SendPacket
     else if tag = 0x05 then RecvPacket
     else if tag = 0x06 then KeepAlive
     else if tag = 0x07 then NotePreferred
     else if tag = 0x08 then PeerGone
     else if tag = 0x09 then PeerPresent
     else if tag = 0x0A then ForwardPacket
     else if tag = 0x10 then WatchConns
     else if tag = 0x11 then ClosePeer
     else if tag = 0x12 then Ping
     else if tag = 0x13 then Pong
     else if tag = 0x14 then ControlMessage
     else Unkonow tag))"

fun frame_tag :: "FrameType \<Rightarrow> u8" where
  "frame_tag ServerKey = 0x01"
| "frame_tag ClientInfo = 0x02"
| "frame_tag ServerInfo = 0x03"
| "frame_tag SendPacket = 0x04"
| "frame_tag RecvPacket = 0x05"
| "frame_tag KeepAlive = 0x06"
| "frame_tag NotePreferred = 0x07"
| "frame_tag PeerGone = 0x08"
| "frame_tag PeerPresent = 0x09"
| "frame_tag ForwardPacket = 0x0A"
| "frame_tag WatchConns = 0x10"
| "frame_tag ClosePeer = 0x11"
| "frame_tag Ping = 0x12"
| "frame_tag Pong = 0x13"
| "frame_tag ControlMessage = 0x14"
| "frame_tag (Unkonow b) = b"

text \<open>The tag, then no fields: \<open>encode(&tag)? + match self { .. => 0 }\<close>.\<close>

definition encode_FrameType :: "('w, 'e) WriteBuffer \<Rightarrow> ('w, FrameType, 'e) encoder" where
  "encode_FrameType W ft = bindM (encode_u8 W (frame_tag ft)) (\<lambda>n. retM (n + 0))"

definition get_frame_type :: "bytes \<Rightarrow> FrameType" where
  "get_frame_type buf =
     (case buf of
        first_byte # _ \<Rightarrow>
          (case decode_FrameType [first_byte] of
             Some (Ok ft, _) \<Rightarrow> ft
           | _ \<Rightarrow> Unkonow 0)
      | [] \<Rightarrow> Unkonow 0)"

definition known_tags :: "u8 list" where
  "known_tags = [0x01, 0x02, 0x03, 0x04, 0x05, 0x06, 0x07, 0x08, 0x09, 0x0A, 0x10, 0x11, 0x12, 0x13, 0x14]"

definition valid_FrameType :: "FrameType \<Rightarrow> bool" where
  "valid_FrameType ft \<longleftrightarrow> (\<forall>b. ft = Unkonow b \<longrightarrow> b \<notin> set known_tags)"

definition wire_FrameType :: "FrameType \<Rightarrow> bytes" where
  "wire_FrameType ft = [frame_tag ft]"

lemma decode_u8_Cons [simp]: "decode_u8 (b # rest) = Some (Ok b, rest)"
  by (simp add: decode_u8_def fill_buf_def)

lemma decode_u8_Nil [simp]: "decode_u8 [] = Some (Err DecodeError, [])"
  by (simp add: decode_u8_def fill_buf_def)

lemma decode_FrameType_Nil [simp]: "decode_FrameType [] = Some (Err DecodeError, [])"
  by (simp add: decode_FrameType_def)

lemma decode_FrameType_valid:
  "valid_FrameType ft \<Longrightarrow> decode_FrameType (frame_tag ft # rest) = Some (Ok ft, rest)"
  by (cases ft) (auto simp: decode_FrameType_def valid_FrameType_def known_tags_def)

lemma decode_FrameType_Cons:
  "\<exists>ft. decode_FrameType (b # rest) = Some (Ok ft, rest) \<and> valid_FrameType ft \<and> frame_tag ft = b"
  by (simp add: decode_FrameType_def valid_FrameType_def known_tags_def)

interpretation c_ft: prefix_codec wire_FrameType valid_FrameType decode_FrameType
proof
  show "decode_FrameType (wire_FrameType ft @ rest) = Some (Ok ft, rest)" if "valid_FrameType ft" for ft rest
    using that by (simp add: wire_FrameType_def decode_FrameType_valid)
  show "valid_FrameType ft \<and> bs = wire_FrameType ft @ rest"
    if "decode_FrameType bs = Some (Ok ft, rest)" for bs ft rest
    using that decode_FrameType_Cons [of "hd bs" "tl bs"] by (cases bs) (auto simp: wire_FrameType_def)
  show "answers decode_FrameType"
    unfolding decode_FrameType_def using c_u8.prefix_answers by blast
qed

lemma get_frame_type_Cons: "decode_FrameType (b # rest) = Some (Ok ft, rest) \<Longrightarrow> get_frame_type (b # rest') = ft"
  by (simp add: get_frame_type_def decode_FrameType_def)

section \<open>Payloads\<close>

definition MAGIC :: bytes where
  "MAGIC = [0x44, 0x45, 0x52, 0x50, 0xF0, 0x9F, 0x94, 0x91]"

record 't Frame =
  frame_type :: FrameType
  inner :: "(u32, 't) SizeWrapper"

record ServerKey =
  skey_magic :: bytes
  skey_public_key :: PublicKey

record ClientInfo =
  ci_public_key :: PublicKey
  ci_nonce :: bytes
  ci_cipher_text :: bytes

record ServerInfo =
  info_data :: bytes

record SendPacket =
  send_target :: PublicKey
  send_payload :: bytes

record RecvPacket =
  recv_target :: PublicKey
  recv_payload :: bytes

record ForwardPacket =
  fwd_source :: PublicKey
  fwd_target :: PublicKey
  fwd_payload :: bytes

record PeerPresent =
  present_public_key :: PublicKey

record WatchConns =
  watch_data :: bytes

record Header =
  hdr_frame_type :: FrameType
  hdr_size :: u32

text \<open>
  The derived decoders: the fields in order, then the struct.
\<close>

definition decode_Frame :: "'t decoder \<Rightarrow> 't Frame decoder" where
  "decode_Frame dec =
     bindM decode_FrameType (\<lambda>ft.
     bindM (decode_SizeWrapper decode_u32 try_into_usize dec) (\<lambda>i.
     retM \<lparr>frame_type = ft, inner = i\<rparr>))"

definition decode_ServerKey :: "ServerKey decoder" where
  "decode_ServerKey =
     bindM (decode_array 8) (\<lambda>m.
     bindM decode_PublicKey (\<lambda>k.
     retM \<lparr>skey_magic = m, skey_public_key = k\<rparr>))"

definition decode_ClientInfo :: "ClientInfo decoder" where
  "decode_ClientInfo =
     bindM decode_PublicKey (\<lambda>k.
     bindM (decode_array 24) (\<lambda>n.
     bindM (decode_Vec decode_u8) (\<lambda>c.
     retM \<lparr>ci_public_key = k, ci_nonce = n, ci_cipher_text = c\<rparr>)))"

definition decode_ServerInfo :: "ServerInfo decoder" where
  "decode_ServerInfo = bindM (decode_Vec decode_u8) (\<lambda>d. retM \<lparr>info_data = d\<rparr>)"

definition decode_SendPacket :: "SendPacket decoder" where
  "decode_SendPacket =
     bindM decode_PublicKey (\<lambda>k.
     bindM (decode_Vec decode_u8) (\<lambda>p.
     retM \<lparr>send_target = k, send_payload = p\<rparr>))"

definition decode_RecvPacket :: "RecvPacket decoder" where
  "decode_RecvPacket =
     bindM decode_PublicKey (\<lambda>k.
     bindM (decode_Vec decode_u8) (\<lambda>p.
     retM \<lparr>recv_target = k, recv_payload = p\<rparr>))"

definition decode_ForwardPacket :: "ForwardPacket decoder" where
  "decode_ForwardPacket =
     bindM decode_PublicKey (\<lambda>s.
     bindM decode_PublicKey (\<lambda>t.
     bindM (decode_Vec decode_u8) (\<lambda>p.
     retM \<lparr>fwd_source = s, fwd_target = t, fwd_payload = p\<rparr>)))"

definition decode_PeerPresent :: "PeerPresent decoder" where
  "decode_PeerPresent = bindM decode_PublicKey (\<lambda>k. retM \<lparr>present_public_key = k\<rparr>)"

definition decode_WatchConns :: "WatchConns decoder" where
  "decode_WatchConns = bindM (decode_Vec decode_u8) (\<lambda>d. retM \<lparr>watch_data = d\<rparr>)"

definition decode_Header :: "Header decoder" where
  "decode_Header =
     bindM decode_FrameType (\<lambda>ft.
     bindM decode_u32 (\<lambda>n.
     retM \<lparr>hdr_frame_type = ft, hdr_size = n\<rparr>))"

text \<open>The derived encoders: \<open>Ok(0 + field? + field? ..)\<close>.\<close>

definition encode_Frame :: "('w, 'e) WriteBuffer \<Rightarrow> ('w, 't, 'e) encoder \<Rightarrow> ('w, 't Frame, 'e) encoder" where
  "encode_Frame W enc f =
     bindM (encode_FrameType W (frame_type f)) (\<lambda>a.
     bindM (encode_SizeWrapper size_u32 W enc (inner f)) (\<lambda>b.
     retM (0 + a + b)))"

definition encode_ServerKey :: "('w, 'e) WriteBuffer \<Rightarrow> ('w, ServerKey, 'e) encoder" where
  "encode_ServerKey W x =
     bindM (encode_array 8 W (skey_magic x)) (\<lambda>a.
     bindM (encode_PublicKey W (skey_public_key x)) (\<lambda>b.
     retM (0 + a + b)))"

definition encode_ClientInfo :: "('w, 'e) WriteBuffer \<Rightarrow> ('w, ClientInfo, 'e) encoder" where
  "encode_ClientInfo W x =
     bindM (encode_PublicKey W (ci_public_key x)) (\<lambda>a.
     bindM (encode_array 24 W (ci_nonce x)) (\<lambda>b.
     bindM (encode_Vec (encode_u8 W) (ci_cipher_text x)) (\<lambda>c.
     retM (0 + a + b + c))))"

definition encode_ServerInfo :: "('w, 'e) WriteBuffer \<Rightarrow> ('w, ServerInfo, 'e) encoder" where
  "encode_ServerInfo W x = bindM (encode_Vec (encode_u8 W) (info_data x)) (\<lambda>a. retM (0 + a))"

definition encode_SendPacket :: "('w, 'e) WriteBuffer \<Rightarrow> ('w, SendPacket, 'e) encoder" where
  "encode_SendPacket W x =
     bindM (encode_PublicKey W (send_target x)) (\<lambda>a.
     bindM (encode_Vec (encode_u8 W) (send_payload x)) (\<lambda>b.
     retM (0 + a + b)))"

definition encode_RecvPacket :: "('w, 'e) WriteBuffer \<Rightarrow> ('w, RecvPacket, 'e) encoder" where
  "encode_RecvPacket W x =
     bindM (encode_PublicKey W (recv_target x)) (\<lambda>a.
     bindM (encode_Vec (encode_u8 W) (recv_payload x)) (\<lambda>b.
     retM (0 + a + b)))"

definition encode_ForwardPacket :: "('w, 'e) WriteBuffer \<Rightarrow> ('w, ForwardPacket, 'e) encoder" where
  "encode_ForwardPacket W x =
     bindM (encode_PublicKey W (fwd_source x)) (\<lambda>a.
     bindM (encode_PublicKey W (fwd_target x)) (\<lambda>b.
     bindM (encode_Vec (encode_u8 W) (fwd_payload x)) (\<lambda>c.
     retM (0 + a + b + c))))"

definition encode_PeerPresent :: "('w, 'e) WriteBuffer \<Rightarrow> ('w, PeerPresent, 'e) encoder" where
  "encode_PeerPresent W x = bindM (encode_PublicKey W (present_public_key x)) (\<lambda>a. retM (0 + a))"

definition encode_WatchConns :: "('w, 'e) WriteBuffer \<Rightarrow> ('w, WatchConns, 'e) encoder" where
  "encode_WatchConns W x = bindM (encode_Vec (encode_u8 W) (watch_data x)) (\<lambda>a. retM (0 + a))"

section \<open>Constructing and checking payloads\<close>

text \<open>The errors of the crate, one constructor for each place that makes one.\<close>

datatype error =
    DecodeFailed
  | InvalidMagic bytes
  | UnexpectedMessage FrameType
  | InvalidFrameType FrameType
  | EncryptFailed
  | DecryptFailed
  | NonceLength nat
  | PayloadNotJson
  | IoError
  | EmptyInitialMessage
  | InitialMessageTooBig
  | HttpParseError
  | HttpIncomplete
  | HeaderNotUtf8
  | UnexpectedUpgrade bytes
  | UnexpectedConnection bytes
  | ResponseOutOfBounds
  | SendFailed
  | MeshWithoutKey PublicKey
  | MeshWrongKey PublicKey
  | ResolveFailed
  | PeerKeyLost

type_synonym 'a result = "('a, error) outcome"

text \<open>crypto_box and serde_json, as far as the crate uses them.\<close>

record ClientInfoPayload =
  payload_version :: u32
  payload_meshkey :: bytes

record library =
  box_public_key :: "bytes \<Rightarrow> bytes"
  box_encrypt :: "bytes \<Rightarrow> bytes \<Rightarrow> bytes \<Rightarrow> bytes \<Rightarrow> bytes option"
  box_decrypt :: "bytes \<Rightarrow> bytes \<Rightarrow> bytes \<Rightarrow> bytes \<Rightarrow> bytes option"
  json_from_slice :: "bytes \<Rightarrow> ClientInfoPayload option"

record CompleteClientInfo =
  complete_public_key :: PublicKey
  complete_nonce :: bytes
  complete_payload :: ClientInfoPayload

definition server_key_new :: "PublicKey \<Rightarrow> ServerKey" where
  "server_key_new k = \<lparr>skey_magic = MAGIC, skey_public_key = k\<rparr>"

definition server_key_frame :: "ServerKey \<Rightarrow> ServerKey Frame" where
  "server_key_frame x = \<lparr>frame_type = ServerKey, inner = SizeWrapper x\<rparr>"

definition validate_magic :: "ServerKey \<Rightarrow> unit result" where
  "validate_magic x = (if skey_magic x = MAGIC then Ok () else Err (InvalidMagic (skey_magic x)))"

definition ascii :: "string \<Rightarrow> bytes" where
  "ascii s = map of_char s"

text \<open>The JSON text of \<open>ClientInfo::new\<close>; the mesh key is pasted in as it is.\<close>

definition client_info_json :: "bytes option \<Rightarrow> bytes" where
  \<open>client_info_json meshkey =
     (case meshkey of
        Some meshkey \<Rightarrow> ascii ''{"version": 2, "meshKey": "'' @ meshkey @ ascii ''"}''
      | None \<Rightarrow> ascii ''{"version": 2, "meshKey": ""}'')\<close>

definition client_info_new ::
  "library \<Rightarrow> bytes \<Rightarrow> SecretKey \<Rightarrow> PublicKey \<Rightarrow> bytes option \<Rightarrow> ClientInfo result" where
  "client_info_new lib nonce secret_key server_key meshkey =
     (let pub = box_public_key lib (sk_bytes secret_key);
          plain_text = client_info_json meshkey
      in case box_encrypt lib (pk_bytes server_key) (sk_bytes secret_key) nonce plain_text of
           None \<Rightarrow> Err EncryptFailed
         | Some cipher_text \<Rightarrow>
             if length nonce = 24
             then Ok \<lparr>ci_public_key = PublicKey pub, ci_nonce = nonce, ci_cipher_text = cipher_text\<rparr>
             else Err (NonceLength (length nonce)))"

definition client_info_complete :: "library \<Rightarrow> SecretKey \<Rightarrow> ClientInfo \<Rightarrow> CompleteClientInfo result" where
  "client_info_complete lib sk x =
     (case box_decrypt lib (pk_bytes (ci_public_key x)) (sk_bytes sk) (ci_nonce x) (ci_cipher_text x) of
        None \<Rightarrow> Err DecryptFailed
      | Some plain_text \<Rightarrow>
          (case json_from_slice lib plain_text of
             None \<Rightarrow> Err PayloadNotJson
           | Some payload \<Rightarrow>
               Ok \<lparr>complete_public_key = ci_public_key x, complete_nonce = ci_nonce x,
                   complete_payload = payload\<rparr>))"

definition client_info_frame :: "ClientInfo \<Rightarrow> ClientInfo Frame" where
  "client_info_frame x = \<lparr>frame_type = ClientInfo, inner = SizeWrapper x\<rparr>"

definition server_info_default :: ServerInfo where
  "server_info_default = \<lparr>info_data = []\<rparr>"

definition server_info_frame :: "ServerInfo \<Rightarrow> ServerInfo Frame" where
  "server_info_frame x = \<lparr>frame_type = ServerInfo, inner = SizeWrapper x\<rparr>"

definition forward_packet_new :: "PublicKey \<Rightarrow> PublicKey \<Rightarrow> bytes \<Rightarrow> ForwardPacket" where
  "forward_packet_new source target payload =
     \<lparr>fwd_source = source, fwd_target = target, fwd_payload = payload\<rparr>"

definition forward_packet_frame :: "ForwardPacket \<Rightarrow> ForwardPacket Frame" where
  "forward_packet_frame x = \<lparr>frame_type = ForwardPacket, inner = SizeWrapper x\<rparr>"

definition watch_conns_default :: WatchConns where
  "watch_conns_default = \<lparr>watch_data = []\<rparr>"

section \<open>The bytes of each payload\<close>

definition wire_ServerKey :: "ServerKey \<Rightarrow> bytes" where
  "wire_ServerKey x = skey_magic x @ pk_bytes (skey_public_key x)"

definition wire_ClientInfo :: "ClientInfo \<Rightarrow> bytes" where
  "wire_ClientInfo x = pk_bytes (ci_public_key x) @ ci_nonce x @ ci_cipher_text x"

definition wire_SendPacket :: "SendPacket \<Rightarrow> bytes" where
  "wire_SendPacket x = pk_bytes (send_target x) @ send_payload x"

definition wire_RecvPacket :: "RecvPacket \<Rightarrow> bytes" where
  "wire_RecvPacket x = pk_bytes (recv_target x) @ recv_payload x"

definition wire_ForwardPacket :: "ForwardPacket \<Rightarrow> bytes" where
  "wire_ForwardPacket x = pk_bytes (fwd_source x) @ pk_bytes (fwd_target x) @ fwd_payload x"

definition wire_PeerPresent :: "PeerPresent \<Rightarrow> bytes" where
  "wire_PeerPresent x = pk_bytes (present_public_key x)"

definition wire_Frame :: "('t \<Rightarrow> bytes) \<Rightarrow> 't Frame \<Rightarrow> bytes" where
  "wire_Frame wire f = wire_FrameType (frame_type f) @ wire_SizeWrapper (to_be_bytes 4) wire (inner f)"

definition valid_Frame :: "('t \<Rightarrow> bytes) \<Rightarrow> ('t \<Rightarrow> bool) \<Rightarrow> 't Frame \<Rightarrow> bool" where
  "valid_Frame wire valid f \<longleftrightarrow> valid_FrameType (frame_type f) \<and> valid_SizeWrapper wire valid (inner f)"

definition valid_ServerKey :: "ServerKey \<Rightarrow> bool" where
  "valid_ServerKey x \<longleftrightarrow> length (skey_magic x) = 8 \<and> valid_PublicKey (skey_public_key x)"

definition valid_ClientInfo :: "ClientInfo \<Rightarrow> bool" where
  "valid_ClientInfo x \<longleftrightarrow> valid_PublicKey (ci_public_key x) \<and> length (ci_nonce x) = 24"

definition valid_SendPacket :: "SendPacket \<Rightarrow> bool" where
  "valid_SendPacket x \<longleftrightarrow> valid_PublicKey (send_target x)"

definition valid_RecvPacket :: "RecvPacket \<Rightarrow> bool" where
  "valid_RecvPacket x \<longleftrightarrow> valid_PublicKey (recv_target x)"

definition valid_ForwardPacket :: "ForwardPacket \<Rightarrow> bool" where
  "valid_ForwardPacket x \<longleftrightarrow> valid_PublicKey (fwd_source x) \<and> valid_PublicKey (fwd_target x)"

definition valid_PeerPresent :: "PeerPresent \<Rightarrow> bool" where
  "valid_PeerPresent x \<longleftrightarrow> valid_PublicKey (present_public_key x)"

section \<open>Codecs of the payloads\<close>

lemma exact_codec_bytes: "exact_codec (\<lambda>bs. bs) (\<lambda>bs. True) (decode_Vec decode_u8)"
  by unfold_locales (auto simp: decode_Vec_u8 answers_def)

interpretation c_ServerKey: prefix_codec wire_ServerKey valid_ServerKey decode_ServerKey
  unfolding wire_ServerKey_def valid_ServerKey_def decode_ServerKey_def
  by (intro prefix_codec_field prefix_codec_last prefix_codec_array c_pk.prefix_codec_axioms) auto

text \<open>A struct that ends with a \<open>Vec<u8>\<close>: its last field takes all the bytes that are left.\<close>

lemma exact_codec_last_bytes:
  assumes "\<And>c. fc (mk c) = c" and "\<And>c. P (mk c)" and "\<And>s. P s \<Longrightarrow> mk (fc s) = s"
  shows "exact_codec fc P (bindM (decode_Vec decode_u8) (\<lambda>c. retM (mk c)))"
  using exact_codec_last [OF exact_codec_bytes, of fc mk P] assms by simp

lemma exact_codec_field_only:
  assumes "prefix_codec wa va da" and "\<And>a. exact_codec wb (\<lambda>s. fa s = a) (k a)"
  shows "exact_codec (\<lambda>s. wa (fa s) @ wb s) (\<lambda>s. va (fa s)) (bindM da k)"
  using exact_codec_field [OF assms(1), of wb fa "\<lambda>s. True" k] assms(2) by simp

lemma exact_codec_field_with:
  assumes "prefix_codec wa va da" and "\<And>a. exact_codec wb (\<lambda>s. fa s = a \<and> P s) (k a)"
  shows "exact_codec (\<lambda>s. wa (fa s) @ wb s) (\<lambda>s. P s \<and> va (fa s)) (bindM da k)"
  using exact_codec_field [OF assms(1), of wb fa P k] assms(2) by (simp add: conj_commute)

interpretation c_SendPacket: exact_codec wire_SendPacket valid_SendPacket decode_SendPacket
  unfolding wire_SendPacket_def valid_SendPacket_def decode_SendPacket_def
  by (intro exact_codec_field_only exact_codec_last_bytes c_pk.prefix_codec_axioms) auto

interpretation c_RecvPacket: exact_codec wire_RecvPacket valid_RecvPacket decode_RecvPacket
  unfolding wire_RecvPacket_def valid_RecvPacket_def decode_RecvPacket_def
  by (intro exact_codec_field_only exact_codec_last_bytes c_pk.prefix_codec_axioms) auto

interpretation c_ClientInfo: exact_codec wire_ClientInfo valid_ClientInfo decode_ClientInfo
  unfolding wire_ClientInfo_def valid_ClientInfo_def decode_ClientInfo_def
  by (intro exact_codec_field exact_codec_field_with exact_codec_last_bytes c_pk.prefix_codec_axioms
      prefix_codec_array) auto

interpretation c_ForwardPacket: exact_codec wire_ForwardPacket valid_ForwardPacket decode_ForwardPacket
  unfolding wire_ForwardPacket_def valid_ForwardPacket_def decode_ForwardPacket_def
  by (intro exact_codec_field exact_codec_field_with exact_codec_last_bytes c_pk.prefix_codec_axioms) auto

interpretation c_ServerInfo: exact_codec info_data "\<lambda>x. True" decode_ServerInfo
  unfolding decode_ServerInfo_def by (rule exact_codec_last_bytes) auto

interpretation c_WatchConns: exact_codec watch_data "\<lambda>x. True" decode_WatchConns
  unfolding decode_WatchConns_def by (rule exact_codec_last_bytes) auto

interpretation c_PeerPresent: prefix_codec wire_PeerPresent valid_PeerPresent decode_PeerPresent
  unfolding wire_PeerPresent_def valid_PeerPresent_def decode_PeerPresent_def
  by (rule prefix_codec_struct1 [OF c_pk.prefix_codec_axioms]) auto

definition wire_Header :: "Header \<Rightarrow> bytes" where
  "wire_Header h = wire_FrameType (hdr_frame_type h) @ to_be_bytes 4 (hdr_size h)"

definition valid_Header :: "Header \<Rightarrow> bool" where
  "valid_Header h \<longleftrightarrow> valid_FrameType (hdr_frame_type h) \<and> True"

interpretation c_Header: prefix_codec wire_Header valid_Header decode_Header
  unfolding wire_Header_def valid_Header_def decode_Header_def
  by (intro prefix_codec_field prefix_codec_last [where vc = "\<lambda>x. True"] c_ft.prefix_codec_axioms
      c_u32.prefix_codec_axioms) auto

text \<open>\<open>Frame<T>\<close> delimits any payload.\<close>

locale frame_codec = exact_codec wire valid dec
  for wire :: "'t \<Rightarrow> bytes" and valid dec

sublocale frame_codec \<subseteq> sized_codec "to_be_bytes 4" decode_u32 wire valid dec ..

sublocale frame_codec \<subseteq> frame: prefix_codec "wire_Frame wire" "valid_Frame wire valid" "decode_Frame dec"
  unfolding wire_Frame_def valid_Frame_def decode_Frame_def
  by (intro prefix_codec_field prefix_codec_last c_ft.prefix_codec_axioms sized.prefix_codec_axioms) auto

interpretation f_ServerKey: frame_codec wire_ServerKey valid_ServerKey decode_ServerKey ..
interpretation f_ClientInfo: frame_codec wire_ClientInfo valid_ClientInfo decode_ClientInfo ..
interpretation f_ServerInfo: frame_codec info_data "\<lambda>x. True" decode_ServerInfo ..
interpretation f_SendPacket: frame_codec wire_SendPacket valid_SendPacket decode_SendPacket ..
interpretation f_RecvPacket: frame_codec wire_RecvPacket valid_RecvPacket decode_RecvPacket ..
interpretation f_ForwardPacket: frame_codec wire_ForwardPacket valid_ForwardPacket decode_ForwardPacket ..
interpretation f_PeerPresent: frame_codec wire_PeerPresent valid_PeerPresent decode_PeerPresent ..
interpretation f_WatchConns: frame_codec watch_data "\<lambda>x. True" decode_WatchConns ..

section \<open>The encoders write those bytes\<close>

context write_buffer
begin

lemma writes_Vec_u8: "writes (length bs) (encode_Vec (encode_u8 W) bs) bs"
  using writes_Vec [of bs "\<lambda>x. [x]" "encode_u8 W"] writes_u8 by simp

lemmas writes_field = writes_bind writes_ret writes_array writes_PublicKey writes_Vec_u8

lemma writes_FrameType: "writes 1 (encode_FrameType W ft) (wire_FrameType ft)"
  using writes_bind_ret [OF writes_u8, where f = "\<lambda>n. n + 0"]
  by (simp add: encode_FrameType_def wire_FrameType_def)

lemma writes_ServerKey:
  assumes "valid_ServerKey x"
  shows "writes (length (wire_ServerKey x)) (encode_ServerKey W x) (wire_ServerKey x)"
proof -
  have "writes (0 + 8 + KEY_SIZE) (encode_ServerKey W x) (skey_magic x @ pk_bytes (skey_public_key x) @ [])"
    unfolding encode_ServerKey_def by (rule writes_field)+
  then show ?thesis
    using assms by (simp add: wire_ServerKey_def valid_ServerKey_def valid_PublicKey_def)
qed

lemma writes_ClientInfo:
  assumes "valid_ClientInfo x"
  shows "writes (length (wire_ClientInfo x)) (encode_ClientInfo W x) (wire_ClientInfo x)"
proof -
  have "writes (0 + KEY_SIZE + 24 + length (ci_cipher_text x)) (encode_ClientInfo W x)
          (pk_bytes (ci_public_key x) @ ci_nonce x @ ci_cipher_text x @ [])"
    unfolding encode_ClientInfo_def by (rule writes_field)+
  then show ?thesis
    using assms by (simp add: wire_ClientInfo_def valid_ClientInfo_def valid_PublicKey_def ac_simps)
qed

lemma writes_ServerInfo: "writes (length (info_data x)) (encode_ServerInfo W x) (info_data x)"
proof -
  have "writes (0 + length (info_data x)) (encode_ServerInfo W x) (info_data x @ [])"
    unfolding encode_ServerInfo_def by (rule writes_field)+
  then show ?thesis by simp
qed

lemma writes_WatchConns: "writes (length (watch_data x)) (encode_WatchConns W x) (watch_data x)"
proof -
  have "writes (0 + length (watch_data x)) (encode_WatchConns W x) (watch_data x @ [])"
    unfolding encode_WatchConns_def by (rule writes_field)+
  then show ?thesis by simp
qed

lemma writes_SendPacket:
  assumes "valid_SendPacket x"
  shows "writes (length (wire_SendPacket x)) (encode_SendPacket W x) (wire_SendPacket x)"
proof -
  have "writes (0 + KEY_SIZE + length (send_payload x)) (encode_SendPacket W x)
          (pk_bytes (send_target x) @ send_payload x @ [])"
    unfolding encode_SendPacket_def by (rule writes_field)+
  then show ?thesis
    using assms by (simp add: wire_SendPacket_def valid_SendPacket_def valid_PublicKey_def)
qed

lemma writes_RecvPacket:
  assumes "valid_RecvPacket x"
  shows "writes (length (wire_RecvPacket x)) (encode_RecvPacket W x) (wire_RecvPacket x)"
proof -
  have "writes (0 + KEY_SIZE + length (recv_payload x)) (encode_RecvPacket W x)
          (pk_bytes (recv_target x) @ recv_payload x @ [])"
    unfolding encode_RecvPacket_def by (rule writes_field)+
  then show ?thesis
    using assms by (simp add: wire_RecvPacket_def valid_RecvPacket_def valid_PublicKey_def)
qed

lemma writes_ForwardPacket:
  assumes "valid_ForwardPacket x"
  shows "writes (length (wire_ForwardPacket x)) (encode_ForwardPacket W x) (wire_ForwardPacket x)"
proof -
  have "writes (0 + KEY_SIZE + KEY_SIZE + length (fwd_payload x)) (encode_ForwardPacket W x)
          (pk_bytes (fwd_source x) @ pk_bytes (fwd_target x) @ fwd_payload x @ [])"
    unfolding encode_ForwardPacket_def by (rule writes_field)+
  then show ?thesis
    using assms by (simp add: wire_ForwardPacket_def valid_ForwardPacket_def valid_PublicKey_def add.assoc)
qed

lemma writes_PeerPresent:
  assumes "valid_PeerPresent x"
  shows "writes (length (wire_PeerPresent x)) (encode_PeerPresent W x) (wire_PeerPresent x)"
proof -
  have "writes (0 + KEY_SIZE) (encode_PeerPresent W x) (pk_bytes (present_public_key x) @ [])"
    unfolding encode_PeerPresent_def by (rule writes_field)+
  then show ?thesis
    using assms by (simp add: wire_PeerPresent_def valid_PeerPresent_def valid_PublicKey_def)
qed

text \<open>A frame of a payload that is shorter than \<open>2 ^ 32\<close> bytes.\<close>

lemma writes_Frame:
  assumes enc: "writes (length (wire x)) (enc x) (wire x)" and len: "length (wire x) < 2 ^ 32"
  shows "writes (length (wire_Frame wire \<lparr>frame_type = ft, inner = SizeWrapper x\<rparr>))
           (encode_Frame W enc \<lparr>frame_type = ft, inner = SizeWrapper x\<rparr>)
           (wire_Frame wire \<lparr>frame_type = ft, inner = SizeWrapper x\<rparr>)"
proof -
  let ?z = "of_nat (length (wire x)) :: u32"
  have z: "try_from_usize size_u32 (length (wire x)) = Some ?z"
    using len by (simp add: size_u32_def try_from_nat_def)
  have size: "BYTE_SIZE size_u32 = 4" by (simp add: size_u32_def)
  have sized: "writes (length (wire x) + 4) (encode_SizeWrapper size_u32 W enc (SizeWrapper x))
      (to_be_bytes 4 ?z @ wire x)"
    using s32.writes_SizeWrapper [where x = x and enc = enc, OF enc z] by (simp only: size)
  have "writes (0 + 1 + (length (wire x) + 4))
          (encode_Frame W enc \<lparr>frame_type = ft, inner = SizeWrapper x\<rparr>)
          (wire_FrameType ft @ (to_be_bytes 4 ?z @ wire x) @ [])"
    unfolding encode_Frame_def Frame.simps
    by (rule writes_bind, rule writes_FrameType, rule writes_bind, rule sized, rule writes_ret)
  then show ?thesis
    by (simp add: wire_Frame_def wire_SizeWrapper_def wire_FrameType_def add.commute)
qed

text \<open>A longer payload does not fit its size field: encoding it panics.\<close>

lemma panics_Frame:
  assumes enc: "writes (length (wire x)) (enc x) (wire x)" and len: "2 ^ 32 \<le> length (wire x)"
    and w: "ok w" "fits w (5 + length (wire x))"
  shows "\<exists>msg w'. encode_Frame W enc \<lparr>frame_type = ft, inner = SizeWrapper x\<rparr> w = Some (Panic msg, w')"
proof -
  have z: "try_from_usize size_u32 (length (wire x)) = None"
    using len by (simp add: size_u32_def try_from_nat_def)
  have 1: "fits w (length (wire_FrameType ft))" using w(2) by (rule fits_mono) (simp add: wire_FrameType_def)
  have "encode_FrameType W ft w = Some (Ok 1, advance (wire_FrameType ft) w)"
    using writes_FrameType w(1) 1 by (rule writes_Ok)
  moreover have "\<exists>msg w'. encode_SizeWrapper size_u32 W enc (SizeWrapper x) (advance (wire_FrameType ft) w)
      = Some (Panic msg, w')"
    using w 1
    by (intro s32.panics_SizeWrapper [where x = x and enc = enc, OF enc z])
       (simp_all add: ok_advance fits_advance size_u32_def wire_FrameType_def)
  ultimately show ?thesis by (auto simp: encode_Frame_def)
qed

end

section \<open>Frames as an interface: one encoder, one decoder, the same bytes\<close>

text \<open>
  What the users of a frame type rely on: its payload has a codec, and its encoder writes the bytes
  of that codec into vectors and into slices.
\<close>

locale frame_endpoint = frame_codec wire valid dec
  for wire :: "'t \<Rightarrow> bytes" and valid dec +
  fixes enc_vec :: "(bytes, 't, 'e) encoder" and enc_slice :: "(slice, 't, BufferOverflow) encoder"
  assumes enc_vec_writes: "valid x \<Longrightarrow> vec.writes (length (wire x)) (enc_vec x) (wire x)"
    and enc_slice_writes: "valid x \<Longrightarrow> slc.writes (length (wire x)) (enc_slice x) (wire x)"
begin

lemma frame_vec:
  assumes "valid_Frame wire valid f"
  shows "encode_Frame vec_buffer enc_vec f v
           = Some (Ok (length (wire_Frame wire f)), v @ wire_Frame wire f)"
proof -
  obtain ft x where f: "f = \<lparr>frame_type = ft, inner = SizeWrapper x\<rparr>"
    by (cases f, cases "inner f") auto
  with assms have "valid x" "length (wire x) < 2 ^ 32"
    by (simp_all add: valid_Frame_def valid_SizeWrapper_def)
  then show ?thesis
    unfolding f using vec.writes_Frame [where wire = wire and enc = enc_vec and x = x, OF enc_vec_writes]
    by (auto simp: vec_writes_iff)
qed

lemma frame_slice:
  assumes "valid_Frame wire valid f" and "slice_ok s"
  shows "if length (wire_Frame wire f) \<le> s_len s
         then encode_Frame slice_buffer enc_slice f s
                = Some (Ok (length (wire_Frame wire f)), slice_advance (wire_Frame wire f) s)
         else \<exists>s'. encode_Frame slice_buffer enc_slice f s = Some (Err BufferOverflow, s')"
proof -
  obtain ft x where f: "f = \<lparr>frame_type = ft, inner = SizeWrapper x\<rparr>"
    by (cases f, cases "inner f") auto
  with assms have "valid x" "length (wire x) < 2 ^ 32"
    by (simp_all add: valid_Frame_def valid_SizeWrapper_def)
  then have w: "slc.writes (length (wire_Frame wire f)) (encode_Frame slice_buffer enc_slice f)
      (wire_Frame wire f)"
    unfolding f using slc.writes_Frame [where wire = wire and enc = enc_slice and x = x, OF enc_slice_writes]
    by blast
  show ?thesis
  proof (cases "length (wire_Frame wire f) \<le> s_len s")
    case True
    then show ?thesis using slc.writes_Ok [OF w assms(2)] by simp
  next
    case False
    obtain e s' where "encode_Frame slice_buffer enc_slice f s = Some (Err e, s')"
      using slc.writes_Err [OF w assms(2)] False by blast
    then show ?thesis using False by (cases e) simp
  qed
qed

lemma frame_roundtrip:
  assumes "valid_Frame wire valid f"
  shows "\<exists>bs. encode_Frame vec_buffer enc_vec f [] = Some (Ok (length bs), bs) \<and>
           decode_Frame dec (bs @ rest) = Some (Ok f, rest)"
  using frame_vec [OF assms, of "[]"] frame.prefix_decodes [OF assms] by auto

end

interpretation e_ServerKey: frame_endpoint wire_ServerKey valid_ServerKey decode_ServerKey
    "encode_ServerKey vec_buffer" "encode_ServerKey slice_buffer"
  by unfold_locales (simp_all add: vec.writes_ServerKey slc.writes_ServerKey)

interpretation e_ClientInfo: frame_endpoint wire_ClientInfo valid_ClientInfo decode_ClientInfo
    "encode_ClientInfo vec_buffer" "encode_ClientInfo slice_buffer"
  by unfold_locales (simp_all add: vec.writes_ClientInfo slc.writes_ClientInfo)

interpretation e_ServerInfo: frame_endpoint info_data "\<lambda>x. True" decode_ServerInfo
    "encode_ServerInfo vec_buffer" "encode_ServerInfo slice_buffer"
  by unfold_locales (simp_all add: vec.writes_ServerInfo slc.writes_ServerInfo)

interpretation e_SendPacket: frame_endpoint wire_SendPacket valid_SendPacket decode_SendPacket
    "encode_SendPacket vec_buffer" "encode_SendPacket slice_buffer"
  by unfold_locales (simp_all add: vec.writes_SendPacket slc.writes_SendPacket)

interpretation e_RecvPacket: frame_endpoint wire_RecvPacket valid_RecvPacket decode_RecvPacket
    "encode_RecvPacket vec_buffer" "encode_RecvPacket slice_buffer"
  by unfold_locales (simp_all add: vec.writes_RecvPacket slc.writes_RecvPacket)

interpretation e_ForwardPacket: frame_endpoint wire_ForwardPacket valid_ForwardPacket decode_ForwardPacket
    "encode_ForwardPacket vec_buffer" "encode_ForwardPacket slice_buffer"
  by unfold_locales (simp_all add: vec.writes_ForwardPacket slc.writes_ForwardPacket)

interpretation e_PeerPresent: frame_endpoint wire_PeerPresent valid_PeerPresent decode_PeerPresent
    "encode_PeerPresent vec_buffer" "encode_PeerPresent slice_buffer"
  by unfold_locales (simp_all add: vec.writes_PeerPresent slc.writes_PeerPresent)

interpretation e_WatchConns: frame_endpoint watch_data "\<lambda>x. True" decode_WatchConns
    "encode_WatchConns vec_buffer" "encode_WatchConns slice_buffer"
  by unfold_locales (simp_all add: vec.writes_WatchConns slc.writes_WatchConns)

section \<open>Properties\<close>

text \<open>
  C20. The frames the server relays come back unchanged: whatever a \<open>SendPacket\<close>, \<open>RecvPacket\<close> or
  \<open>ForwardPacket\<close> frame of valid keys and fewer than \<open>2 ^ 32\<close> payload bytes is encoded to, decoding these
  bytes gives the frame again and leaves what follows.
\<close>

theorem relay_frames_roundtrip:
  assumes "valid_Frame wire_SendPacket valid_SendPacket f"
    and "valid_Frame wire_RecvPacket valid_RecvPacket g"
    and "valid_Frame wire_ForwardPacket valid_ForwardPacket h"
  shows "(\<exists>bs. encode_Frame vec_buffer (encode_SendPacket vec_buffer) f [] = Some (Ok (length bs), bs) \<and>
      decode_Frame decode_SendPacket (bs @ rest) = Some (Ok f, rest)) \<and>
    (\<exists>bs. encode_Frame vec_buffer (encode_RecvPacket vec_buffer) g [] = Some (Ok (length bs), bs) \<and>
      decode_Frame decode_RecvPacket (bs @ rest) = Some (Ok g, rest)) \<and>
    (\<exists>bs. encode_Frame vec_buffer (encode_ForwardPacket vec_buffer) h [] = Some (Ok (length bs), bs) \<and>
      decode_Frame decode_ForwardPacket (bs @ rest) = Some (Ok h, rest))"
  by (intro conjI e_SendPacket.frame_roundtrip e_RecvPacket.frame_roundtrip e_ForwardPacket.frame_roundtrip assms)

theorem relay_frames_roundtrip_witness:
  "\<exists>bs. encode_Frame vec_buffer (encode_SendPacket vec_buffer)
      \<lparr>frame_type = SendPacket, inner = SizeWrapper \<lparr>send_target = PublicKey (replicate 32 1), send_payload = [7]\<rparr>\<rparr> []
      = Some (Ok (length bs), bs) \<and>
    decode_Frame decode_SendPacket (bs @ [9])
      = Some (Ok \<lparr>frame_type = SendPacket,
          inner = SizeWrapper \<lparr>send_target = PublicKey (replicate 32 1), send_payload = [7]\<rparr>\<rparr>, [9])"
  by (rule conjunct1, rule relay_frames_roundtrip [where
        g = "\<lparr>frame_type = RecvPacket, inner = SizeWrapper \<lparr>recv_target = PublicKey (replicate 32 1), recv_payload = []\<rparr>\<rparr>" and
        h = "\<lparr>frame_type = ForwardPacket, inner = SizeWrapper \<lparr>fwd_source = PublicKey (replicate 32 1),
          fwd_target = PublicKey (replicate 32 2), fwd_payload = []\<rparr>\<rparr>"])
     (simp_all add: valid_Frame_def valid_SizeWrapper_def valid_FrameType_def valid_SendPacket_def
        valid_RecvPacket_def valid_ForwardPacket_def valid_PublicKey_def wire_SendPacket_def
        wire_RecvPacket_def wire_ForwardPacket_def KEY_SIZE_def)

text \<open>
  C22. Decoding never fails to answer: on every byte string each of the eight frame decoders returns a
  frame or a decoding error; it neither panics nor loops.
\<close>

theorem frame_decoders_answer:
  "answers (decode_Frame decode_ServerKey) \<and> answers (decode_Frame decode_ClientInfo) \<and>
   answers (decode_Frame decode_ServerInfo) \<and> answers (decode_Frame decode_SendPacket) \<and>
   answers (decode_Frame decode_RecvPacket) \<and> answers (decode_Frame decode_ForwardPacket) \<and>
   answers (decode_Frame decode_PeerPresent) \<and> answers (decode_Frame decode_WatchConns)"
  by (intro conjI f_ServerKey.frame.prefix_answers f_ClientInfo.frame.prefix_answers
      f_ServerInfo.frame.prefix_answers f_SendPacket.frame.prefix_answers f_RecvPacket.frame.prefix_answers
      f_ForwardPacket.frame.prefix_answers f_PeerPresent.frame.prefix_answers f_WatchConns.frame.prefix_answers)

text \<open>
  C21. The encoding is canonical: bytes that decode to a packet to forward are exactly the bytes the
  encoder writes for it, followed by what the decoder has left; no other byte string stands for it.
\<close>

theorem forward_frame_canonical:
  assumes "decode_Frame decode_ForwardPacket bs = Some (Ok f, rest)"
  shows "\<exists>enc. encode_Frame vec_buffer (encode_ForwardPacket vec_buffer) f [] = Some (Ok (length enc), enc) \<and>
    bs = enc @ rest"
  using f_ForwardPacket.frame.prefix_sound [OF assms] e_ForwardPacket.frame_vec [of f "[]"] by auto

theorem forward_frame_canonical_witness:
  "\<exists>enc. encode_Frame vec_buffer (encode_ForwardPacket vec_buffer)
      \<lparr>frame_type = ForwardPacket, inner = SizeWrapper \<lparr>fwd_source = PublicKey (replicate 32 1),
        fwd_target = PublicKey (replicate 32 2), fwd_payload = []\<rparr>\<rparr> [] = Some (Ok (length enc), enc) \<and>
    [10, 0, 0, 0, 64] @ replicate 32 1 @ replicate 32 2 @ [5] = enc @ [5]"
proof (rule forward_frame_canonical)
  have "wire_Frame wire_ForwardPacket \<lparr>frame_type = ForwardPacket,
      inner = SizeWrapper \<lparr>fwd_source = PublicKey (replicate 32 1),
        fwd_target = PublicKey (replicate 32 2), fwd_payload = []\<rparr>\<rparr> @ [5]
      = [10, 0, 0, 0, 64] @ replicate 32 1 @ replicate 32 2 @ [5]"
    by (simp add: wire_Frame_def wire_FrameType_def wire_SizeWrapper_def wire_ForwardPacket_def to_be_bytes_4)
  then show "decode_Frame decode_ForwardPacket ([10, 0, 0, 0, 64] @ replicate 32 1 @ replicate 32 2 @ [5])
      = Some (Ok \<lparr>frame_type = ForwardPacket, inner = SizeWrapper \<lparr>fwd_source = PublicKey (replicate 32 1),
        fwd_target = PublicKey (replicate 32 2), fwd_payload = []\<rparr>\<rparr>, [5])"
    using f_ForwardPacket.frame.prefix_decodes [of "\<lparr>frame_type = ForwardPacket,
      inner = SizeWrapper \<lparr>fwd_source = PublicKey (replicate 32 1),
        fwd_target = PublicKey (replicate 32 2), fwd_payload = []\<rparr>\<rparr>" "[5]"]
    by (simp add: valid_Frame_def valid_SizeWrapper_def valid_FrameType_def valid_ForwardPacket_def
        valid_PublicKey_def wire_ForwardPacket_def KEY_SIZE_def)
qed

text \<open>
  C23. A cut-off frame is refused: no proper prefix of an encoded \<open>ClientInfo\<close> frame decodes.
\<close>

theorem client_info_frame_truncated:
  assumes "valid_ClientInfo x" and "length (wire_ClientInfo x) < 2 ^ 32"
    and "encode_Frame vec_buffer (encode_ClientInfo vec_buffer) (client_info_frame x) [] = Some (Ok m, bs)"
    and "n < length bs"
  shows "\<exists>rest. decode_Frame decode_ClientInfo (take n bs) = Some (Err DecodeError, rest)"
proof -
  have f: "valid_Frame wire_ClientInfo valid_ClientInfo (client_info_frame x)"
    using assms(1,2)
    by (simp add: valid_Frame_def valid_SizeWrapper_def valid_FrameType_def client_info_frame_def)
  have "bs = wire_Frame wire_ClientInfo (client_info_frame x)"
    using assms(3) by (simp add: e_ClientInfo.frame_vec [OF f])
  then show ?thesis using f_ClientInfo.frame.truncated [OF f] assms(4) by simp
qed

theorem client_info_frame_truncated_witness:
  "\<exists>x m bs rest. (encode_Frame vec_buffer (encode_ClientInfo vec_buffer) (client_info_frame x)
        :: (bytes, nat, BufferOverflow) proc) [] = Some (Ok m, bs) \<and>
     3 < length bs \<and> decode_Frame decode_ClientInfo (take 3 bs) = Some (Err DecodeError, rest)"
proof -
  let ?x = "\<lparr>ci_public_key = PublicKey (replicate 32 1), ci_nonce = replicate 24 2, ci_cipher_text = [3]\<rparr>"
  let ?bs = "wire_Frame wire_ClientInfo (client_info_frame ?x)"
  have x: "valid_ClientInfo ?x" "length (wire_ClientInfo ?x) < 2 ^ 32"
    by (simp_all add: valid_ClientInfo_def valid_PublicKey_def wire_ClientInfo_def KEY_SIZE_def)
  then have f: "valid_Frame wire_ClientInfo valid_ClientInfo (client_info_frame ?x)"
    by (simp add: valid_Frame_def valid_SizeWrapper_def valid_FrameType_def client_info_frame_def)
  have enc: "(encode_Frame vec_buffer (encode_ClientInfo vec_buffer) (client_info_frame ?x)
      :: (bytes, nat, BufferOverflow) proc) [] = Some (Ok (length ?bs), ?bs)"
    using e_ClientInfo.frame_vec [OF f, of "[]"] by simp
  have "3 < length ?bs"
    by (simp add: wire_Frame_def wire_FrameType_def wire_SizeWrapper_def client_info_frame_def to_be_bytes_4)
  with client_info_frame_truncated [OF x enc this] enc show ?thesis by blast
qed

text \<open>
  C24. Encoding into a fixed buffer is exact: a \<open>ForwardPacket\<close> frame is written, size field included, when
  the slice has room for it, and the slice then stands behind it; otherwise the result is the error
  \<open>BufferOverflow\<close>.
\<close>

theorem forward_frame_into_slice:
  assumes "valid_Frame wire_ForwardPacket valid_ForwardPacket f" and "slice_ok s"
  shows "if length (wire_Frame wire_ForwardPacket f) \<le> s_len s
    then encode_Frame slice_buffer (encode_ForwardPacket slice_buffer) f s
      = Some (Ok (length (wire_Frame wire_ForwardPacket f)), slice_advance (wire_Frame wire_ForwardPacket f) s)
    else \<exists>s'. encode_Frame slice_buffer (encode_ForwardPacket slice_buffer) f s = Some (Err BufferOverflow, s')"
  using assms by (rule e_ForwardPacket.frame_slice)

theorem forward_frame_into_slice_witness:
  "\<exists>s'. encode_Frame slice_buffer (encode_ForwardPacket slice_buffer)
      \<lparr>frame_type = ForwardPacket, inner = SizeWrapper \<lparr>fwd_source = PublicKey (replicate 32 1),
        fwd_target = PublicKey (replicate 32 2), fwd_payload = []\<rparr>\<rparr>
      \<lparr>s_mem = replicate 68 0, s_pos = 0, s_len = 68\<rparr> = Some (Err BufferOverflow, s')"
  using forward_frame_into_slice [of "\<lparr>frame_type = ForwardPacket,
      inner = SizeWrapper \<lparr>fwd_source = PublicKey (replicate 32 1),
        fwd_target = PublicKey (replicate 32 2), fwd_payload = []\<rparr>\<rparr>" "\<lparr>s_mem = replicate 68 0, s_pos = 0, s_len = 68\<rparr>"]
  by (simp add: valid_Frame_def valid_SizeWrapper_def valid_FrameType_def valid_ForwardPacket_def slice_ok_def
      valid_PublicKey_def wire_ForwardPacket_def KEY_SIZE_def wire_Frame_def wire_FrameType_def
      wire_SizeWrapper_def to_be_bytes_4)



text \<open>
  C26. The type byte of a frame is preserved: every byte decodes to a frame type, which is encoded as that
  byte again, known or not; \<open>get_frame_type\<close> agrees with the decoder.
\<close>

theorem frame_type_byte:
  "\<exists>ft. decode_FrameType (b # rest) = Some (Ok ft, rest) \<and> get_frame_type (b # rest) = ft \<and>
     encode_FrameType vec_buffer ft v = Some (Ok 1, v @ [b])"
proof -
  obtain ft where ft: "\<And>rest. decode_FrameType (b # rest) = Some (Ok ft, rest)"
    by (simp add: decode_FrameType_def)
  have "wire_FrameType ft = [b]" using c_ft.prefix_sound [OF ft [of rest]] by (cases "wire_FrameType ft") (auto simp: wire_FrameType_def)
  moreover have "encode_FrameType vec_buffer ft v = Some (Ok 1, v @ wire_FrameType ft)"
    by (rule vec.writes_FrameType [unfolded vec_writes_iff, rule_format])
  ultimately show ?thesis using ft get_frame_type_Cons [OF ft] by auto
qed

end
