(* ===== verification/Inout.thy ===== *)
theory Inout
  imports Proto_Data
begin

text \<open>
  Framing of the incoming byte stream (dersp/src/inout.rs): \<open>InputBuffer\<close>, \<open>next_message\<close> and the
  loop of \<open>DerpReader::get_next_message\<close>.

  The peer is the environment: a \<open>read_event list\<close> holds what the successive calls of tokio's \<open>read\<close>
  find, a chunk of bytes or an I/O error. A chunk longer than the caller's buffer is handed out in
  pieces; when the list is used up the peer has closed its side and \<open>read\<close> returns no bytes, as
  tokio documents, however often it is called. The array \<open>read_buffer\<close> is not part of the state:
  the sources only look at the part that the same call has just filled.
\<close>

section \<open>The peer\<close>

datatype read_event = Chunk bytes | ReadError

type_synonym reads = "read_event list"

fun read_some :: "nat \<Rightarrow> (reads, bytes, error) proc" where
  "read_some n [] = Some (Ok [], [])"
| "read_some n (Chunk bs # rest) =
     (if length bs \<le> n then Some (Ok bs, rest) else Some (Ok (take n bs), Chunk (drop n bs) # rest))"
| "read_some n (ReadError # rest) = Some (Err IoError, rest)"

section \<open>Messages\<close>

definition HEADER_SIZE :: nat where
  "HEADER_SIZE = 5"

definition MAX_TCP_PACKET_SIZE :: nat where
  "MAX_TCP_PACKET_SIZE = 65535"

record Message =
  msg_ty :: FrameType
  msg_buffer :: bytes

datatype PartMessage = InsufficientData | Complete Message

record InputBuffer =
  ib_data :: bytes

definition input_data :: "bytes \<Rightarrow> InputBuffer \<Rightarrow> InputBuffer" where
  "input_data bs b = b\<lparr>ib_data := ib_data b @ bs\<rparr>"

definition next_message :: "(InputBuffer, PartMessage, error) proc" where
  "next_message b =
     (if length (ib_data b) < HEADER_SIZE then Some (Ok InsufficientData, b)
      else case decode_Header (take HEADER_SIZE (ib_data b)) of
             None \<Rightarrow> None
           | Some (Err e, _) \<Rightarrow> Some (Err DecodeFailed, b)
           | Some (Panic p, _) \<Rightarrow> Some (Panic p, b)
           | Some (Ok header, _) \<Rightarrow>
               (let message_size = HEADER_SIZE + unat (hdr_size header)
                in if message_size \<le> length (ib_data b)
                   then Some (Ok (Complete \<lparr>msg_ty = hdr_frame_type header,
                                            msg_buffer = take message_size (ib_data b)\<rparr>),
                              b\<lparr>ib_data := drop message_size (ib_data b)\<rparr>)
                   else Some (Ok InsufficientData, b)))"

record DerpReader =
  dr_reader :: reads
  dr_input :: InputBuffer

definition derp_reader_new :: "reads \<Rightarrow> DerpReader" where
  "derp_reader_new reader = \<lparr>dr_reader = reader, dr_input = \<lparr>ib_data = []\<rparr>\<rparr>"

partial_function (option) get_next_message :: "(DerpReader, Message, error) proc" where
  "get_next_message r =
     (case next_message (dr_input r) of
        None \<Rightarrow> None
      | Some (Err e, b) \<Rightarrow> Some (Err e, r\<lparr>dr_input := b\<rparr>)
      | Some (Panic p, b) \<Rightarrow> Some (Panic p, r\<lparr>dr_input := b\<rparr>)
      | Some (Ok (Complete m), b) \<Rightarrow> Some (Ok m, r\<lparr>dr_input := b\<rparr>)
      | Some (Ok InsufficientData, b) \<Rightarrow>
          (case read_some MAX_TCP_PACKET_SIZE (dr_reader r) of
             None \<Rightarrow> None
           | Some (Err e, reads) \<Rightarrow> Some (Err e, \<lparr>dr_reader = reads, dr_input = b\<rparr>)
           | Some (Panic p, reads) \<Rightarrow> Some (Panic p, \<lparr>dr_reader = reads, dr_input = b\<rparr>)
           | Some (Ok bs, reads) \<Rightarrow>
               get_next_message \<lparr>dr_reader = reads, dr_input = input_data bs b\<rparr>))"

section \<open>Specification: cutting a byte stream into messages\<close>

text \<open>
  \<open>frame_length\<close> is the length of the frame a stream starts with, as soon as its header is there;
  \<open>next_frame\<close> cuts that frame off; \<open>split_messages\<close> cuts off all of them.
\<close>

definition frame_length :: "bytes \<Rightarrow> nat option" where
  "frame_length data =
     (if length data < HEADER_SIZE then None
      else Some (HEADER_SIZE + unat (push_bit 24 (ucast (data ! 1)) + push_bit 16 (ucast (data ! 2))
                   + push_bit 8 (ucast (data ! 3)) + ucast (data ! 4) :: u32)))"

definition next_frame :: "bytes \<Rightarrow> (Message \<times> bytes) option" where
  "next_frame data =
     (case frame_length data of
        None \<Rightarrow> None
      | Some n \<Rightarrow>
          if n \<le> length data
          then Some (\<lparr>msg_ty = get_frame_type data, msg_buffer = take n data\<rparr>, drop n data)
          else None)"

lemma frame_length_pos: "frame_length data = Some n \<Longrightarrow> 0 < n"
  by (auto simp: frame_length_def HEADER_SIZE_def split: if_splits)

lemma next_frame_shorter: "next_frame data = Some (m, rest) \<Longrightarrow> length rest < length data"
  using frame_length_pos by (fastforce simp: next_frame_def split: option.splits if_splits)

function split_messages :: "bytes \<Rightarrow> Message list \<times> bytes" where
  "split_messages data =
     (case next_frame data of
        None \<Rightarrow> ([], data)
      | Some (m, rest) \<Rightarrow> (let (ms, left) = split_messages rest in (m # ms, left)))"
  by pat_completeness auto
termination
  by (relation "measure length") (auto dest: next_frame_shorter)

declare split_messages.simps [simp del]

section \<open>The buffer implements the specification\<close>

lemma decode_Header_take:
  assumes "HEADER_SIZE \<le> length data"
  shows "\<exists>rest. decode_Header (take HEADER_SIZE data) = Some (Ok \<lparr>hdr_frame_type = get_frame_type data,
     hdr_size = push_bit 24 (ucast (data ! 1)) + push_bit 16 (ucast (data ! 2))
                   + push_bit 8 (ucast (data ! 3)) + ucast (data ! 4)\<rparr>, rest)"
proof -
  obtain t a b c d rest where data: "data = t # a # b # c # d # rest"
    using assms unfolding HEADER_SIZE_def by (rule length_ge_5E)
  obtain ft where ft: "\<And>rest. decode_FrameType (t # rest) = Some (Ok ft, rest)"
    by (simp add: decode_FrameType_def)
  have "get_frame_type data = ft" using get_frame_type_Cons [OF ft] data by simp
  then show ?thesis
    using ft by (simp add: data HEADER_SIZE_def decode_Header_def decode_u32_def fill_buf_def)
qed

lemma next_message_eq:
  "next_message b =
     (case next_frame (ib_data b) of
        None \<Rightarrow> Some (Ok InsufficientData, b)
      | Some (m, rest) \<Rightarrow> Some (Ok (Complete m), b\<lparr>ib_data := rest\<rparr>))"
proof (cases "length (ib_data b) < HEADER_SIZE")
  case True
  then show ?thesis by (simp add: next_message_def next_frame_def frame_length_def)
next
  case False
  then show ?thesis
    using decode_Header_take [of "ib_data b"]
    by (auto simp: next_message_def next_frame_def frame_length_def Let_def)
qed

text \<open>A frame that is complete stays the first one whatever arrives behind it.\<close>

lemma next_frame_append:
  assumes "next_frame data = Some (m, rest)"
  shows "next_frame (data @ extra) = Some (m, rest @ extra)"
proof -
  obtain n where n: "frame_length data = Some n" "n \<le> length data"
    and m: "m = \<lparr>msg_ty = get_frame_type data, msg_buffer = take n data\<rparr>" "rest = drop n data"
    using assms by (auto simp: next_frame_def split: option.splits if_splits)
  have len: "HEADER_SIZE \<le> length data"
    using n(1) by (simp add: frame_length_def split: if_splits)
  then have "frame_length (data @ extra) = Some n"
    using n(1) by (simp add: frame_length_def nth_append HEADER_SIZE_def split: if_splits)
  moreover have "get_frame_type (data @ extra) = get_frame_type data"
    using len by (cases data) (simp_all add: get_frame_type_def HEADER_SIZE_def)
  ultimately show ?thesis using n(2) m by (simp add: next_frame_def)
qed

lemma split_messages_Some:
  "next_frame data = Some (m, rest) \<Longrightarrow>
   split_messages data = (let (ms, left) = split_messages rest in (m # ms, left))"
  by (simp add: split_messages.simps [of data])

lemma split_messages_None: "next_frame data = None \<Longrightarrow> split_messages data = ([], data)"
  by (simp add: split_messages.simps [of data])

text \<open>Cutting can be interrupted anywhere and resumed with the bytes left over.\<close>

lemma split_messages_append:
  "split_messages (data @ extra) =
     (let (ms, left) = split_messages data; (ms', left') = split_messages (left @ extra)
      in (ms @ ms', left'))"
proof (induction data rule: split_messages.induct)
  case (1 data)
  show ?case
  proof (cases "next_frame data")
    case None
    then show ?thesis by (simp add: split_messages_None)
  next
    case (Some p)
    then obtain m rest where p: "next_frame data = Some (m, rest)" by (cases p) simp
    then show ?thesis
      using 1 [OF p refl] next_frame_append [OF p, of extra]
      by (simp add: split_messages_Some split: prod.splits)
  qed
qed

section \<open>The reader implements the specification\<close>

text \<open>The bytes the peer sends before it closes or fails, and whether it fails.\<close>

fun delivered :: "reads \<Rightarrow> bytes" where
  "delivered [] = []"
| "delivered (Chunk bs # rest) = bs @ delivered rest"
| "delivered (ReadError # rest) = []"

definition fails :: "reads \<Rightarrow> bool" where
  "fails reads \<longleftrightarrow> ReadError \<in> set reads"

definition pending :: "DerpReader \<Rightarrow> bytes" where
  "pending r = ib_data (dr_input r) @ delivered (dr_reader r)"

fun reads_size :: "reads \<Rightarrow> nat" where
  "reads_size [] = 0"
| "reads_size (Chunk bs # rest) = Suc (length bs) + reads_size rest"
| "reads_size (ReadError # rest) = Suc (reads_size rest)"

lemma read_some_Chunk:
  assumes "0 < n"
  shows "\<exists>got reads'. read_some n (Chunk bs # rest) = Some (Ok got, reads') \<and>
    got @ delivered reads' = bs @ delivered rest \<and> fails reads' = fails rest \<and>
    reads_size reads' < reads_size (Chunk bs # rest)"
  using assms by (auto simp: fails_def)

lemma get_next_message_ready:
  "next_frame (ib_data (dr_input r)) = Some (m, rest) \<Longrightarrow>
   get_next_message r = Some (Ok m, r\<lparr>dr_input := (dr_input r)\<lparr>ib_data := rest\<rparr>\<rparr>)"
  by (simp add: get_next_message.simps [of r] next_message_eq)

lemma get_next_message_read:
  assumes "next_frame (ib_data (dr_input r)) = None"
  shows "get_next_message r =
    (case read_some MAX_TCP_PACKET_SIZE (dr_reader r) of
       None \<Rightarrow> None
     | Some (Err e, reads) \<Rightarrow> Some (Err e, \<lparr>dr_reader = reads, dr_input = dr_input r\<rparr>)
     | Some (Panic p, reads) \<Rightarrow> Some (Panic p, \<lparr>dr_reader = reads, dr_input = dr_input r\<rparr>)
     | Some (Ok bs, reads) \<Rightarrow>
         get_next_message \<lparr>dr_reader = reads, dr_input = input_data bs (dr_input r)\<rparr>)"
  using assms by (simp add: get_next_message.simps [of r] next_message_eq)

text \<open>Reading on changes where the pending bytes are kept, not what they are.\<close>

lemma get_next_message_step:
  assumes "next_frame (ib_data (dr_input r)) = None" and "dr_reader r = Chunk bs # rest"
  obtains r' where "get_next_message r = get_next_message r'" and "pending r' = pending r"
    and "fails (dr_reader r') = fails (dr_reader r)"
    and "reads_size (dr_reader r') < reads_size (dr_reader r)"
proof -
  obtain got reads' where got: "read_some MAX_TCP_PACKET_SIZE (dr_reader r) = Some (Ok got, reads')"
    "got @ delivered reads' = bs @ delivered rest" "fails reads' = fails rest"
    "reads_size reads' < reads_size (dr_reader r)"
    using read_some_Chunk [of MAX_TCP_PACKET_SIZE bs rest] assms(2)
    by (auto simp: MAX_TCP_PACKET_SIZE_def)
  let ?r = "\<lparr>dr_reader = reads', dr_input = input_data got (dr_input r)\<rparr>"
  show thesis
    using got assms(2)
    by (intro that [of ?r])
       (simp_all add: get_next_message_read [OF assms(1)] pending_def input_data_def fails_def)
qed

lemma get_next_message_delivers:
  assumes "next_frame (pending r) = Some (m, rest)"
  shows "\<exists>r'. get_next_message r = Some (Ok m, r') \<and> pending r' = rest \<and>
           fails (dr_reader r') = fails (dr_reader r)"
  using assms
proof (induction "reads_size (dr_reader r)" arbitrary: r rule: less_induct)
  case less
  show ?case
  proof (cases "next_frame (ib_data (dr_input r))")
    case (Some p)
    then obtain m' rest' where p: "next_frame (ib_data (dr_input r)) = Some (m', rest')"
      by (cases p) simp
    then have "m' = m" "rest = rest' @ delivered (dr_reader r)"
      using less.prems next_frame_append [OF p, of "delivered (dr_reader r)"]
      by (simp_all add: pending_def)
    then show ?thesis using get_next_message_ready [OF p] by (simp add: pending_def)
  next
    case None
    then obtain bs reads where "dr_reader r = Chunk bs # reads"
      using less.prems by (cases "dr_reader r" rule: delivered.cases) (auto simp: pending_def)
    then obtain r' where r': "get_next_message r = get_next_message r'" "pending r' = pending r"
      "fails (dr_reader r') = fails (dr_reader r)" "reads_size (dr_reader r') < reads_size (dr_reader r)"
      using get_next_message_step [OF None] by blast
    then show ?thesis using less.hyps [of r'] less.prems by simp
  qed
qed

lemma get_next_message_fails:
  assumes "next_frame (pending r) = None" and "fails (dr_reader r)"
  shows "\<exists>r'. get_next_message r = Some (Err IoError, r')"
  using assms
proof (induction "reads_size (dr_reader r)" arbitrary: r rule: less_induct)
  case less
  have None: "next_frame (ib_data (dr_input r)) = None"
    using less.prems(1) next_frame_append unfolding pending_def by (metis not_Some_eq surj_pair)
  show ?case
  proof (cases "dr_reader r" rule: delivered.cases)
    case 1
    then show ?thesis using less.prems(2) by (simp add: fails_def)
  next
    case (2 bs rest)
    then obtain r' where "get_next_message r = get_next_message r'" "pending r' = pending r"
      "fails (dr_reader r') = fails (dr_reader r)" "reads_size (dr_reader r') < reads_size (dr_reader r)"
      using get_next_message_step [OF None] by blast
    then show ?thesis using less.hyps [of r'] less.prems by simp
  next
    case (3 rest)
    then show ?thesis by (simp add: get_next_message_read [OF None])
  qed
qed

text \<open>At the end of the stream the loop reads nothing and tries again, for ever.\<close>

lemma get_next_message_stuck:
  assumes ret: "get_next_message r = Some y"
  shows "dr_reader r = [] \<longrightarrow> next_frame (ib_data (dr_input r)) \<noteq> None"
proof (rule get_next_message.raw_induct
    [where P = "\<lambda>r y. dr_reader r = [] \<longrightarrow> next_frame (ib_data (dr_input r)) \<noteq> None", OF _ ret])
  fix f r y
  assume IH: "\<And>r y. f r = Some y \<Longrightarrow> dr_reader r = [] \<longrightarrow> next_frame (ib_data (dr_input r)) \<noteq> None"
    and eq: "(case next_message (dr_input r) of
        None \<Rightarrow> None
      | Some (Ok InsufficientData, b) \<Rightarrow>
          (case read_some MAX_TCP_PACKET_SIZE (dr_reader r) of
             None \<Rightarrow> None
           | Some (Ok bs, reads) \<Rightarrow> f \<lparr>dr_reader = reads, dr_input = input_data bs b\<rparr>
           | Some (Err e, reads) \<Rightarrow> Some (Err e, \<lparr>dr_reader = reads, dr_input = b\<rparr>)
           | Some (Panic p, reads) \<Rightarrow> Some (Panic p, \<lparr>dr_reader = reads, dr_input = b\<rparr>))
      | Some (Ok (Complete m), b) \<Rightarrow> Some (Ok m, r\<lparr>dr_input := b\<rparr>)
      | Some (Err e, b) \<Rightarrow> Some (Err e, r\<lparr>dr_input := b\<rparr>)
      | Some (Panic p, b) \<Rightarrow> Some (Panic p, r\<lparr>dr_input := b\<rparr>)) = Some y"
  show "dr_reader r = [] \<longrightarrow> next_frame (ib_data (dr_input r)) \<noteq> None"
  proof (intro impI notI)
    assume r: "dr_reader r = []" "next_frame (ib_data (dr_input r)) = None"
    then have "f \<lparr>dr_reader = [], dr_input = dr_input r\<rparr> = Some y"
      using eq by (simp add: next_message_eq input_data_def)
    then show False using IH r by fastforce
  qed
qed

lemma get_next_message_spins:
  assumes "next_frame (pending r) = None" and "\<not> fails (dr_reader r)"
  shows "get_next_message r = None"
  using assms
proof (induction "reads_size (dr_reader r)" arbitrary: r rule: less_induct)
  case less
  have None: "next_frame (ib_data (dr_input r)) = None"
    using less.prems(1) next_frame_append unfolding pending_def by (metis not_Some_eq surj_pair)
  show ?case
  proof (cases "dr_reader r" rule: delivered.cases)
    case 1
    then show ?thesis using get_next_message_stuck [of r] None by (cases "get_next_message r") auto
  next
    case (2 bs rest)
    then obtain r' where "get_next_message r = get_next_message r'" "pending r' = pending r"
      "fails (dr_reader r') = fails (dr_reader r)" "reads_size (dr_reader r') < reads_size (dr_reader r)"
      using get_next_message_step [OF None] by blast
    then show ?thesis using less.hyps [of r'] less.prems by simp
  next
    case (3 rest)
    then show ?thesis using less.prems(2) by (simp add: fails_def)
  qed
qed

section \<open>Frames on the stream\<close>

text \<open>What an encoded frame looks like at the head of a stream.\<close>

lemma next_frame_wire:
  assumes ft: "valid_FrameType ft" and len: "length (wire x) < 2 ^ 32"
  shows "next_frame (wire_Frame wire \<lparr>frame_type = ft, inner = SizeWrapper x\<rparr> @ rest)
    = Some (\<lparr>msg_ty = ft, msg_buffer = wire_Frame wire \<lparr>frame_type = ft, inner = SizeWrapper x\<rparr>\<rparr>, rest)"
proof -
  let ?z = "of_nat (length (wire x)) :: u32"
  let ?f = "\<lparr>frame_type = ft, inner = SizeWrapper x\<rparr>"
  have z: "unat ?z = length (wire x)" using len by (intro unat_of_nat_lt) simp
  have wire: "wire_Frame wire ?f
      = [frame_tag ft, ucast (drop_bit 24 ?z), ucast (drop_bit 16 ?z), ucast (drop_bit 8 ?z), ucast ?z] @ wire x"
    by (simp add: wire_Frame_def wire_FrameType_def wire_SizeWrapper_def to_be_bytes_4)
  have "frame_length (wire_Frame wire ?f @ rest) = Some (5 + length (wire x))"
    unfolding frame_length_def wire using z by (simp add: HEADER_SIZE_def be32_value)
  moreover have "get_frame_type (wire_Frame wire ?f @ rest) = ft"
    unfolding wire using get_frame_type_Cons [OF decode_FrameType_valid [OF ft]] by simp
  moreover have "length (wire_Frame wire ?f) = 5 + length (wire x)" by (simp add: wire)
  ultimately show ?thesis by (simp add: next_frame_def)
qed

section \<open>The interface of the read loops\<close>

text \<open>
  A source of messages: a queue of the messages that will still arrive, and whether the connection
  breaks after them. The read loops of the clients rely on nothing else.
\<close>

locale message_source =
  fixes recv :: "('r, Message, error) proc"
    and queue :: "'r \<Rightarrow> Message list"
    and breaks :: "'r \<Rightarrow> bool"
  assumes recv_Cons:
      "queue r = m # ms \<Longrightarrow> \<exists>r'. recv r = Some (Ok m, r') \<and> queue r' = ms \<and> breaks r' = breaks r"
    and recv_broken: "queue r = [] \<Longrightarrow> breaks r \<Longrightarrow> \<exists>r'. recv r = Some (Err IoError, r')"
    and recv_closed: "queue r = [] \<Longrightarrow> \<not> breaks r \<Longrightarrow> recv r = None"
begin

lemma recv_many:
  "queue r = ms @ ms' \<Longrightarrow>
   \<exists>r'. repeatM (length ms) recv r = Some (Ok ms, r') \<and> queue r' = ms' \<and> breaks r' = breaks r"
proof (induction ms arbitrary: r)
  case (Cons m ms)
  obtain r1 where r1: "recv r = Some (Ok m, r1)" "queue r1 = ms @ ms'" "breaks r1 = breaks r"
    using recv_Cons [of r m "ms @ ms'"] Cons.prems by auto
  obtain r2 where "repeatM (length ms) recv r1 = Some (Ok ms, r2)" "queue r2 = ms'" "breaks r2 = breaks r1"
    using Cons.IH [OF r1(2)] by blast
  then show ?case using r1 by simp
qed simp

end

definition messages :: "DerpReader \<Rightarrow> Message list" where
  "messages r = fst (split_messages (pending r))"

lemma messages_Cons: "messages r = m # ms \<longleftrightarrow>
   (\<exists>rest. next_frame (pending r) = Some (m, rest) \<and> fst (split_messages rest) = ms)"
  by (auto simp: messages_def split_messages.simps [of "pending r"] split: option.splits prod.splits)

lemma messages_Nil: "messages r = [] \<longleftrightarrow> next_frame (pending r) = None"
  by (auto simp: messages_def split_messages.simps [of "pending r"] split: option.splits prod.splits)

interpretation rd: message_source get_next_message messages "\<lambda>r. fails (dr_reader r)"
proof
  show "\<exists>r'. get_next_message r = Some (Ok m, r') \<and> messages r' = ms \<and>
      fails (dr_reader r') = fails (dr_reader r)" if queue: "messages r = m # ms" for r m ms
  proof -
    obtain rest where "next_frame (pending r) = Some (m, rest)" "fst (split_messages rest) = ms"
      using queue by (auto simp: messages_Cons)
    with get_next_message_delivers show ?thesis unfolding messages_def by blast
  qed
  show "\<exists>r'. get_next_message r = Some (Err IoError, r')"
    if "messages r = []" "fails (dr_reader r)" for r
    using that get_next_message_fails by (simp add: messages_Nil)
  show "get_next_message r = None" if "messages r = []" "\<not> fails (dr_reader r)" for r
    using that get_next_message_spins by (simp add: messages_Nil)
qed

text \<open>A message that is one frame, and a stream that is a sequence of frames.\<close>

definition is_frame :: "Message \<Rightarrow> bool" where
  "is_frame m \<longleftrightarrow> next_frame (msg_buffer m) = Some (m, [])"

lemma is_frame_wire:
  assumes "valid_FrameType ft" and "length (wire x) < 2 ^ 32"
  shows "is_frame \<lparr>msg_ty = ft, msg_buffer = wire_Frame wire \<lparr>frame_type = ft, inner = SizeWrapper x\<rparr>\<rparr>"
  using next_frame_wire [of ft wire x "[]"] assms by (simp add: is_frame_def)

lemma split_messages_frames:
  assumes "\<forall>m \<in> set ms. is_frame m"
  shows "split_messages (concat (map msg_buffer ms) @ extra)
    = (ms @ fst (split_messages extra), snd (split_messages extra))"
  using assms
proof (induction ms)
  case (Cons m ms)
  have "next_frame (msg_buffer m @ concat (map msg_buffer ms) @ extra)
      = Some (m, concat (map msg_buffer ms) @ extra)"
    using next_frame_append [of "msg_buffer m" m "[]"] Cons.prems by (simp add: is_frame_def)
  then show ?case using Cons by (simp add: split_messages_Some)
qed simp

lemma messages_frames:
  assumes "pending r = concat (map msg_buffer ms) @ extra" and "\<forall>m \<in> set ms. is_frame m"
  shows "messages r = ms @ fst (split_messages extra)"
  using split_messages_frames [OF assms(2)] by (simp add: messages_def assms(1))

section \<open>Properties\<close>

text \<open>
  C12. \<open>get_next_message\<close> is decided by the bytes that are still to come and not by how they are cut
  into reads. If they start with a complete frame it returns that frame and leaves exactly the bytes
  behind it; if they do not and the connection breaks, it returns the I/O error; and if the peer has
  simply closed its side it never returns (the loop reads no bytes for ever).
\<close>

theorem get_next_message_total:
  "case next_frame (pending r) of
     Some (m, rest) \<Rightarrow> \<exists>r'. get_next_message r = Some (Ok m, r') \<and> pending r' = rest
   | None \<Rightarrow>
       if fails (dr_reader r) then \<exists>r'. get_next_message r = Some (Err IoError, r')
       else get_next_message r = None"
  using get_next_message_delivers [of r] get_next_message_fails [of r] get_next_message_spins [of r]
  by (auto split: option.splits)

text \<open>
  C13. A sequence of frames, delivered in chunks of any sizes and followed by anything, is read back
  frame by frame, in order and unchanged.
\<close>

theorem frames_survive_chunking:
  assumes "\<forall>m \<in> set ms. is_frame m" and "delivered reads = concat (map msg_buffer ms) @ extra"
  shows "\<exists>r'. repeatM (length ms) get_next_message (derp_reader_new reads) = Some (Ok ms, r') \<and>
    messages r' = fst (split_messages extra)"
proof -
  have "pending (derp_reader_new reads) = concat (map msg_buffer ms) @ extra"
    using assms(2) by (simp add: pending_def derp_reader_new_def)
  then show ?thesis using rd.recv_many [OF messages_frames [OF _ assms(1)]] by blast
qed

theorem frames_survive_chunking_witness:
  "\<exists>ms r'. ms = [\<lparr>msg_ty = Ping, msg_buffer = [18, 0, 0, 0, 2, 7, 8]\<rparr>,
       \<lparr>msg_ty = KeepAlive, msg_buffer = [6, 0, 0, 0, 0]\<rparr>] \<and>
     repeatM 2 get_next_message (derp_reader_new [Chunk [18, 0], Chunk [0, 0, 2, 7], Chunk [8, 6, 0, 0, 0, 0, 1]])
       = Some (Ok ms, r') \<and> messages r' = fst (split_messages [1])"
proof -
  let ?ms = "[\<lparr>msg_ty = Ping, msg_buffer = [18, 0, 0, 0, 2, 7, 8]\<rparr>,
    \<lparr>msg_ty = KeepAlive, msg_buffer = [6, 0, 0, 0, 0]\<rparr>]"
  have "\<forall>m \<in> set ?ms. is_frame m"
    by (simp add: is_frame_def next_frame_def frame_length_def HEADER_SIZE_def get_frame_type_def
        decode_FrameType_def decode_u8_def fill_buf_def)
  then show ?thesis
    using frames_survive_chunking [of ?ms "[Chunk [18, 0], Chunk [0, 0, 2, 7], Chunk [8, 6, 0, 0, 0, 0, 1]]" "[1]"]
    by (simp add: numeral_2_eq_2)
qed

end
