(* ===== verification/Proto.thy ===== *)
theory Proto
  imports Inout
begin

text \<open>
  The handshake (dersp/src/proto/mod.rs), both sides: \<open>handle_handshake\<close> of the server and
  \<open>exchange_keys\<close> and \<open>read_server_info\<close> of a mesh client, with every message they read or write.

  A connection is the script of the peer (\<open>reads\<close> of Inout) and a writer. Writing is scripted the
  same way: a \<open>write_event\<close> says how many bytes one call of \<open>write\<close> takes, or that it fails; with no
  event left every write takes all it is given. \<open>write_all\<close> repeats \<open>write\<close> until nothing is left, as
  tokio documents. HTTP parsing (httparse) is the parameter \<open>parse_request\<close>: no value is a parse
  error, and otherwise it returns the status, \<open>Some n\<close> for a complete request whose body starts at
  \<open>n\<close>, and the header array. Strings are the bytes of their UTF-8 encoding.
\<close>

section \<open>The connection\<close>

datatype write_event = Accept nat | WriteError

record writer =
  w_out :: bytes
  w_events :: "write_event list"

definition write_some :: "bytes \<Rightarrow> (writer, nat, error) proc" where
  "write_some bs w =
     (case w_events w of
        [] \<Rightarrow> Some (Ok (length bs), w\<lparr>w_out := w_out w @ bs\<rparr>)
      | Accept n # events \<Rightarrow>
          Some (Ok (min n (length bs)), \<lparr>w_out = w_out w @ take n bs, w_events = events\<rparr>)
      | WriteError # events \<Rightarrow> Some (Err IoError, w\<lparr>w_events := events\<rparr>))"

fun write_all_events :: "write_event list \<Rightarrow> bytes \<Rightarrow> bytes \<Rightarrow> unit result \<times> writer" where
  "write_all_events [] bs out = (Ok (), \<lparr>w_out = out @ bs, w_events = []\<rparr>)"
| "write_all_events (Accept n # events) bs out =
     (if bs = [] then (Ok (), \<lparr>w_out = out, w_events = Accept n # events\<rparr>)
      else if n = 0 then (Err IoError, \<lparr>w_out = out, w_events = events\<rparr>)
      else write_all_events events (drop n bs) (out @ take n bs))"
| "write_all_events (WriteError # events) bs out =
     (if bs = [] then (Ok (), \<lparr>w_out = out, w_events = WriteError # events\<rparr>)
      else (Err IoError, \<lparr>w_out = out, w_events = events\<rparr>))"

definition write_all :: "bytes \<Rightarrow> (writer, unit, error) proc" where
  "write_all bs w = Some (write_all_events (w_events w) bs (w_out w))"

text \<open>The server reads and writes one socket; the mesh client has a \<open>DerpReader\<close> and a writer.\<close>

record conn =
  c_in :: reads
  c_w :: writer

record link =
  l_reader :: DerpReader
  l_writer :: writer

definition conn_read :: "(reads, 'a, error) proc \<Rightarrow> (conn, 'a, error) proc" where
  "conn_read m c = map_option (\<lambda>(r, i). (r, c\<lparr>c_in := i\<rparr>)) (m (c_in c))"

definition conn_write :: "(writer, 'a, error) proc \<Rightarrow> (conn, 'a, error) proc" where
  "conn_write m c = map_option (\<lambda>(r, w). (r, c\<lparr>c_w := w\<rparr>)) (m (c_w c))"

definition link_read :: "(DerpReader, 'a, error) proc \<Rightarrow> (link, 'a, error) proc" where
  "link_read m l = map_option (\<lambda>(r, d). (r, l\<lparr>l_reader := d\<rparr>)) (m (l_reader l))"

definition link_write :: "(writer, 'a, error) proc \<Rightarrow> (link, 'a, error) proc" where
  "link_write m l = map_option (\<lambda>(r, w). (r, l\<lparr>l_writer := w\<rparr>)) (m (l_writer l))"

text \<open>
  Encoding into a fresh vector, and decoding from a buffer whose rest is dropped; any decoding error
  becomes the one error of the crate.
\<close>

definition run_encoder :: "(bytes, 'a, error) encoder \<Rightarrow> 'a \<Rightarrow> ('s, bytes, error) proc" where
  "run_encoder enc x s =
     (case enc x [] of
        None \<Rightarrow> None
      | Some (Ok n, buf) \<Rightarrow> Some (Ok buf, s)
      | Some (Err e, buf) \<Rightarrow> Some (Err e, s)
      | Some (Panic msg, buf) \<Rightarrow> Some (Panic msg, s))"

definition run_decoder :: "'a decoder \<Rightarrow> bytes \<Rightarrow> ('s, 'a, error) proc" where
  "run_decoder dec buf s =
     (case dec buf of
        None \<Rightarrow> None
      | Some (Ok x, rest) \<Rightarrow> Some (Ok x, s)
      | Some (Err e, rest) \<Rightarrow> Some (Err DecodeFailed, s)
      | Some (Panic msg, rest) \<Rightarrow> Some (Panic msg, s))"

section \<open>The HTTP phase\<close>

definition UPGRADE_MSG_SIZE :: nat where
  "UPGRADE_MSG_SIZE = 4096"

record http_header =
  h_name :: bytes
  h_value :: bytes

type_synonym parse_request = "bytes \<Rightarrow> (nat option \<times> http_header list) option"

fun validate_headers :: "http_header list \<Rightarrow> unit result" where
  "validate_headers [] = Ok ()"
| "validate_headers (h # hs) =
     (if h_name h = ascii ''Upgrade'' then
        if \<not> utf8_valid (h_value h) then Err HeaderNotUtf8
        else let v = to_ascii_lowercase (h_value h)
             in if v = ascii ''websocket'' \<or> v = ascii ''derp'' then validate_headers hs
                else Err (UnexpectedUpgrade v)
      else if h_name h = ascii ''Connection'' then
        if \<not> utf8_valid (h_value h) then Err HeaderNotUtf8
        else let v = to_ascii_lowercase (h_value h)
             in if v = ascii ''upgrade'' then validate_headers hs
                else Err (UnexpectedConnection v)
      else validate_headers hs)"

definition http_response :: bytes where
  "http_response = ascii ''HTTP/1.1 200 OK'' @ [13, 10, 13, 10]"

definition finalize_http_phase :: "parse_request \<Rightarrow> (conn, unit, error) proc" where
  "finalize_http_phase parse_request =
     bindM (conn_read (read_some UPGRADE_MSG_SIZE)) (\<lambda>bs.
       let n = length bs;
           buf = bs @ replicate (UPGRADE_MSG_SIZE - n) 0
       in if \<not> 0 < n then failM EmptyInitialMessage
          else if \<not> n < UPGRADE_MSG_SIZE then failM InitialMessageTooBig
          else case parse_request buf of
                 None \<Rightarrow> failM HttpParseError
               | Some (None, headers) \<Rightarrow> failM HttpIncomplete
               | Some (Some body_start, headers) \<Rightarrow>
                   bindM (liftM (validate_headers headers)) (\<lambda>_.
                     if UPGRADE_MSG_SIZE < body_start then panicM ''range start index out of range''
                     else bindM (conn_write (write_some http_response)) (\<lambda>_. retM ())))"

section \<open>The messages of the handshake\<close>

definition write_server_key :: "library \<Rightarrow> SecretKey \<Rightarrow> (writer, unit, error) proc" where
  "write_server_key lib secret_key =
     (let server_key = server_key_new (secret_key_public (box_public_key lib) secret_key)
      in bindM (run_encoder (encode_Frame vec_buffer (encode_ServerKey vec_buffer))
                  (server_key_frame server_key))
           write_all)"

definition read_server_key :: "(DerpReader, PublicKey, error) proc" where
  "read_server_key =
     bindM get_next_message (\<lambda>message.
       bindM (if msg_ty message = ServerKey
              then run_decoder (decode_Frame decode_ServerKey) (msg_buffer message)
              else failM (UnexpectedMessage (msg_ty message))) (\<lambda>frame.
         let server_key = into_inner (inner frame)
         in bindM (liftM (validate_magic server_key)) (\<lambda>_. retM (skey_public_key server_key))))"

definition CLIENT_INFO_SIZE :: nat where
  "CLIENT_INFO_SIZE = 1024"

definition read_client_info ::
  "library \<Rightarrow> SecretKey \<Rightarrow> (reads, PublicKey \<times> bytes option, error) proc" where
  "read_client_info lib sk =
     bindM (read_some CLIENT_INFO_SIZE) (\<lambda>bs.
       let buf = bs @ replicate (CLIENT_INFO_SIZE - length bs) 0
       in bindM (if get_frame_type buf = ClientInfo
                 then run_decoder (decode_Frame decode_ClientInfo) buf
                 else failM (UnexpectedMessage (get_frame_type buf))) (\<lambda>frame.
            bindM (liftM (client_info_complete lib sk (into_inner (inner frame)))) (\<lambda>complete_info.
              let meshkey = payload_meshkey (complete_payload complete_info)
              in retM (complete_public_key complete_info,
                       if meshkey = [] then None else Some meshkey))))"

definition write_client_info :: "ClientInfo \<Rightarrow> (writer, unit, error) proc" where
  "write_client_info client_info =
     bindM (run_encoder (encode_Frame vec_buffer (encode_ClientInfo vec_buffer))
              (client_info_frame client_info))
       write_all"

definition write_server_info :: "(writer, unit, error) proc" where
  "write_server_info =
     bindM (run_encoder (encode_Frame vec_buffer (encode_ServerInfo vec_buffer))
              (server_info_frame server_info_default))
       write_all"

definition read_server_info :: "(DerpReader, unit, error) proc" where
  "read_server_info =
     bindM get_next_message (\<lambda>message.
       if msg_ty message \<noteq> ServerInfo then failM (InvalidFrameType (msg_ty message)) else retM ())"

definition write_peer_present :: "PublicKey \<Rightarrow> (writer, unit, error) proc" where
  "write_peer_present public_key =
     bindM (run_encoder (encode_Frame vec_buffer (encode_PeerPresent vec_buffer))
              \<lparr>frame_type = PeerPresent, inner = SizeWrapper \<lparr>present_public_key = public_key\<rparr>\<rparr>)
       write_all"

definition write_forward_packet :: "ForwardPacket \<Rightarrow> (writer, unit, error) proc" where
  "write_forward_packet forward_packet =
     bindM (run_encoder (encode_Frame vec_buffer (encode_ForwardPacket vec_buffer))
              (forward_packet_frame forward_packet))
       write_all"

definition write_watch_conns :: "(writer, unit, error) proc" where
  "write_watch_conns =
     bindM (run_encoder (encode_Frame vec_buffer (encode_WatchConns vec_buffer))
              \<lparr>frame_type = WatchConns, inner = SizeWrapper watch_conns_default\<rparr>)
       write_all"

section \<open>The handshake, server and client\<close>

definition handle_handshake ::
  "parse_request \<Rightarrow> library \<Rightarrow> SecretKey \<Rightarrow> (conn, PublicKey \<times> bytes option, error) proc" where
  "handle_handshake parse_request lib sk =
     bindM (finalize_http_phase parse_request) (\<lambda>_.
     bindM (conn_write (write_server_key lib sk)) (\<lambda>_.
     bindM (conn_read (read_client_info lib sk)) (\<lambda>(pk, meshkey).
     bindM (conn_write write_server_info) (\<lambda>_.
     retM (pk, meshkey)))))"

definition exchange_keys ::
  "library \<Rightarrow> bytes \<Rightarrow> SecretKey \<Rightarrow> bytes option \<Rightarrow> (link, PublicKey, error) proc" where
  "exchange_keys lib nonce secret_key meshkey =
     bindM (link_read read_server_key) (\<lambda>server_key.
     bindM (liftM (client_info_new lib nonce secret_key server_key meshkey)) (\<lambda>client_info.
     bindM (link_write (write_client_info client_info)) (\<lambda>_.
     retM server_key)))"

section \<open>Writing\<close>

lemma write_all_events_prefix:
  "\<exists>n. w_out (snd (write_all_events events bs out)) = out @ take n bs \<and>
     (fst (write_all_events events bs out) = Ok () \<longrightarrow> take n bs = bs) \<and>
     (\<forall>msg. fst (write_all_events events bs out) \<noteq> Panic msg)"
proof (induction events bs out rule: write_all_events.induct)
  case (1 bs out)
  show ?case by (rule exI [of _ "length bs"]) simp
next
  case (2 n events bs out)
  show ?case
  proof (cases "bs = [] \<or> n = 0")
    case True
    then show ?thesis by (auto intro: exI [of _ 0])
  next
    case False
    then obtain k where k: "w_out (snd (write_all_events events (drop n bs) (out @ take n bs)))
          = (out @ take n bs) @ take k (drop n bs)"
        "fst (write_all_events events (drop n bs) (out @ take n bs)) = Ok () \<longrightarrow>
          take k (drop n bs) = drop n bs"
        "\<forall>msg. fst (write_all_events events (drop n bs) (out @ take n bs)) \<noteq> Panic msg"
      using 2 by blast
    have "take (n + k) bs = take n bs @ take k (drop n bs)" by (rule take_add)
    then show ?thesis using False k by (intro exI [of _ "n + k"]) auto
  qed
next
  case (3 events bs out)
  show ?case by (auto intro: exI [of _ 0])
qed

lemma write_all_quiet: "w_events w = [] \<Longrightarrow> write_all bs w = Some (Ok (), w\<lparr>w_out := w_out w @ bs\<rparr>)"
  by (cases w) (simp add: write_all_def)

lemma write_some_quiet:
  "w_events w = [] \<Longrightarrow> write_some bs w = Some (Ok (length bs), w\<lparr>w_out := w_out w @ bs\<rparr>)"
  by (simp add: write_some_def)

lemma run_encoder_Ok: "enc x [] = Some (Ok n, buf) \<Longrightarrow> run_encoder enc x s = Some (Ok buf, s)"
  by (simp add: run_encoder_def)

lemma run_decoder_Ok: "dec buf = Some (Ok x, rest) \<Longrightarrow> run_decoder dec buf s = Some (Ok x, s)"
  by (simp add: run_decoder_def)

lemma encode_and_write:
  "enc x [] = Some (Ok n, [] @ buf) \<Longrightarrow> bindM (run_encoder enc x) write_all = write_all buf"
  by (simp add: fun_eq_iff run_encoder_Ok)

text \<open>The bytes of the frames that are written.\<close>

definition server_key_bytes :: "PublicKey \<Rightarrow> bytes" where
  "server_key_bytes k = wire_Frame wire_ServerKey (server_key_frame (server_key_new k))"

definition client_info_bytes :: "ClientInfo \<Rightarrow> bytes" where
  "client_info_bytes x = wire_Frame wire_ClientInfo (client_info_frame x)"

definition server_info_bytes :: bytes where
  "server_info_bytes = wire_Frame info_data (server_info_frame server_info_default)"

definition peer_present_bytes :: "PublicKey \<Rightarrow> bytes" where
  "peer_present_bytes k =
     wire_Frame wire_PeerPresent \<lparr>frame_type = PeerPresent, inner = SizeWrapper \<lparr>present_public_key = k\<rparr>\<rparr>"

definition forward_packet_bytes :: "ForwardPacket \<Rightarrow> bytes" where
  "forward_packet_bytes x = wire_Frame wire_ForwardPacket (forward_packet_frame x)"

definition watch_conns_bytes :: bytes where
  "watch_conns_bytes =
     wire_Frame watch_data \<lparr>frame_type = WatchConns, inner = SizeWrapper watch_conns_default\<rparr>"

lemma valid_frames:
  "valid_PublicKey k \<Longrightarrow> valid_Frame wire_ServerKey valid_ServerKey (server_key_frame (server_key_new k))"
  "valid_ClientInfo x \<Longrightarrow> length (wire_ClientInfo x) < 2 ^ 32 \<Longrightarrow>
     valid_Frame wire_ClientInfo valid_ClientInfo (client_info_frame x)"
  "valid_Frame info_data (\<lambda>x. True) (server_info_frame server_info_default)"
  "valid_PublicKey k \<Longrightarrow> valid_Frame wire_PeerPresent valid_PeerPresent
     \<lparr>frame_type = PeerPresent, inner = SizeWrapper \<lparr>present_public_key = k\<rparr>\<rparr>"
  "valid_ForwardPacket y \<Longrightarrow> length (wire_ForwardPacket y) < 2 ^ 32 \<Longrightarrow>
     valid_Frame wire_ForwardPacket valid_ForwardPacket (forward_packet_frame y)"
  "valid_Frame watch_data (\<lambda>x. True) \<lparr>frame_type = WatchConns, inner = SizeWrapper watch_conns_default\<rparr>"
  by (simp_all add: valid_Frame_def valid_SizeWrapper_def valid_FrameType_def server_key_frame_def
      server_key_new_def client_info_frame_def server_info_frame_def server_info_default_def
      forward_packet_frame_def watch_conns_default_def valid_ServerKey_def valid_PeerPresent_def
      wire_ServerKey_def wire_PeerPresent_def valid_PublicKey_def KEY_SIZE_def MAGIC_def)

lemma write_server_key_eq:
  assumes "valid_PublicKey (secret_key_public (box_public_key lib) sk)"
  shows "write_server_key lib sk = write_all (server_key_bytes (secret_key_public (box_public_key lib) sk))"
  unfolding write_server_key_def server_key_bytes_def Let_def
  by (rule encode_and_write, rule e_ServerKey.frame_vec [OF valid_frames(1) [OF assms]])

lemma write_client_info_eq:
  assumes "valid_ClientInfo x" and "length (wire_ClientInfo x) < 2 ^ 32"
  shows "write_client_info x = write_all (client_info_bytes x)"
  unfolding write_client_info_def client_info_bytes_def Let_def
  by (rule encode_and_write, rule e_ClientInfo.frame_vec [OF valid_frames(2) [OF assms]])

lemma write_server_info_eq: "write_server_info = write_all server_info_bytes"
  unfolding write_server_info_def server_info_bytes_def Let_def
  by (rule encode_and_write, rule e_ServerInfo.frame_vec [OF valid_frames(3)])

lemma write_peer_present_eq:
  assumes "valid_PublicKey k"
  shows "write_peer_present k = write_all (peer_present_bytes k)"
  unfolding write_peer_present_def peer_present_bytes_def Let_def
  by (rule encode_and_write, rule e_PeerPresent.frame_vec [OF valid_frames(4) [OF assms]])

lemma write_forward_packet_eq:
  assumes "valid_ForwardPacket x" and "length (wire_ForwardPacket x) < 2 ^ 32"
  shows "write_forward_packet x = write_all (forward_packet_bytes x)"
  unfolding write_forward_packet_def forward_packet_bytes_def Let_def
  by (rule encode_and_write, rule e_ForwardPacket.frame_vec [OF valid_frames(5) [OF assms]])

lemma write_watch_conns_eq: "write_watch_conns = write_all watch_conns_bytes"
  unfolding write_watch_conns_def watch_conns_bytes_def Let_def
  by (rule encode_and_write, rule e_WatchConns.frame_vec [OF valid_frames(6)])

section \<open>Reading\<close>

lemma get_next_frame:
  assumes "pending r = wire_Frame wire \<lparr>frame_type = ft, inner = SizeWrapper x\<rparr> @ rest"
    and "valid_FrameType ft" and "length (wire x) < 2 ^ 32"
  obtains r' where
    "get_next_message r = Some (Ok \<lparr>msg_ty = ft,
       msg_buffer = wire_Frame wire \<lparr>frame_type = ft, inner = SizeWrapper x\<rparr>\<rparr>, r')"
    and "pending r' = rest" and "fails (dr_reader r') = fails (dr_reader r)"
  using get_next_message_delivers next_frame_wire [of ft wire x rest] assms by metis

lemma read_server_key_accepts:
  assumes k: "valid_PublicKey k" and r: "pending r = server_key_bytes k @ rest"
  obtains r' where "read_server_key r = Some (Ok k, r')" and "pending r' = rest"
proof -
  let ?f = "server_key_frame (server_key_new k)"
  have len: "length (wire_ServerKey (server_key_new k)) < 2 ^ 32"
    using k by (simp add: wire_ServerKey_def server_key_new_def valid_PublicKey_def KEY_SIZE_def MAGIC_def)
  obtain r' where r': "get_next_message r
      = Some (Ok \<lparr>msg_ty = ServerKey, msg_buffer = wire_Frame wire_ServerKey ?f\<rparr>, r')" "pending r' = rest"
    by (rule get_next_frame [of r wire_ServerKey ServerKey "server_key_new k" rest])
       (use r len in \<open>simp_all add: server_key_bytes_def server_key_frame_def valid_FrameType_def\<close>)
  have "decode_Frame decode_ServerKey (wire_Frame wire_ServerKey ?f) = Some (Ok ?f, [])"
    using f_ServerKey.frame.exact_decodes valid_frames(1) [OF k] by blast
  then have "read_server_key r = Some (Ok k, r')"
    using r'(1) by (simp add: read_server_key_def run_decoder_Ok server_key_frame_def server_key_new_def
        validate_magic_def)
  then show thesis using that r'(2) by blast
qed

lemma read_server_info_accepts:
  assumes "pending r = server_info_bytes @ rest"
  obtains r' where "read_server_info r = Some (Ok (), r')" and "pending r' = rest"
proof -
  obtain r' where "get_next_message r = Some (Ok \<lparr>msg_ty = ServerInfo,
      msg_buffer = server_info_bytes\<rparr>, r')" "pending r' = rest"
    by (rule get_next_frame [of r info_data ServerInfo server_info_default rest])
       (use assms in \<open>simp_all add: server_info_bytes_def server_info_frame_def valid_FrameType_def
          server_info_default_def\<close>)
  then show thesis using that by (simp add: read_server_info_def)
qed

text \<open>A frame of another type, or a server key with another magic, is refused.\<close>

lemma read_server_key_wrong_type:
  assumes "get_next_message r = Some (Ok m, r')" and "msg_ty m \<noteq> ServerKey"
  shows "read_server_key r = Some (Err (UnexpectedMessage (msg_ty m)), r')"
  using assms by (simp add: read_server_key_def)

lemma read_server_key_wrong_magic:
  assumes "get_next_message r = Some (Ok m, r')" and "msg_ty m = ServerKey"
    and "decode_Frame decode_ServerKey (msg_buffer m) = Some (Ok f, rest)"
    and "skey_magic (into_inner (inner f)) \<noteq> MAGIC"
  shows "read_server_key r = Some (Err (InvalidMagic (skey_magic (into_inner (inner f)))), r')"
  using assms by (simp add: read_server_key_def run_decoder_Ok validate_magic_def Let_def)

text \<open>The server's single read of the client's information.\<close>

lemma read_client_info_frame:
  assumes x: "valid_ClientInfo x" and len: "length (client_info_bytes x @ extra) \<le> CLIENT_INFO_SIZE"
  shows "read_client_info lib sk (Chunk (client_info_bytes x @ extra) # rest) =
     Some (case client_info_complete lib sk x of
             Ok info \<Rightarrow> Ok (complete_public_key info,
               if payload_meshkey (complete_payload info) = [] then None
               else Some (payload_meshkey (complete_payload info)))
           | Err e \<Rightarrow> Err e
           | Panic msg \<Rightarrow> Panic msg, rest)"
proof -
  let ?pad = "replicate (CLIENT_INFO_SIZE - length (client_info_bytes x @ extra)) 0"
  let ?buf = "client_info_bytes x @ extra @ ?pad"
  have "length (wire_ClientInfo x) \<le> length (client_info_bytes x)"
    by (simp add: client_info_bytes_def wire_Frame_def client_info_frame_def wire_SizeWrapper_def)
  then have l: "length (wire_ClientInfo x) < 2 ^ 32" using len by (simp add: CLIENT_INFO_SIZE_def)
  have "next_frame ?buf = Some (\<lparr>msg_ty = ClientInfo, msg_buffer = client_info_bytes x\<rparr>, extra @ ?pad)"
    using next_frame_wire [of ClientInfo wire_ClientInfo x "extra @ ?pad"] l
    by (simp add: client_info_bytes_def client_info_frame_def valid_FrameType_def)
  then have ty: "get_frame_type ?buf = ClientInfo"
    by (auto simp: next_frame_def split: option.splits if_splits)
  have dec: "decode_Frame decode_ClientInfo ?buf = Some (Ok (client_info_frame x), extra @ ?pad)"
    unfolding client_info_bytes_def
    by (rule f_ClientInfo.frame.prefix_decodes [OF valid_frames(2) [OF x l]])
  show ?thesis
    using len ty dec
    by (simp add: read_client_info_def run_decoder_Ok client_info_frame_def Let_def bindM_def
        split: outcome.splits)
qed

lemma read_client_info_one_read:
  assumes "length bs \<le> CLIENT_INFO_SIZE" and "read_client_info lib sk (Chunk bs # rest) = Some (r, s)"
  shows "s = rest" and "read_client_info lib sk (Chunk bs # rest') = Some (r, rest')"
  using assms
  by (auto simp: read_client_info_def Let_def bindM_def run_decoder_def
      split: option.splits outcome.splits prod.splits if_splits)

section \<open>HTTP headers\<close>

definition upgrade_ok :: "http_header \<Rightarrow> bool" where
  "upgrade_ok h \<longleftrightarrow> to_ascii_lowercase (h_value h) \<in> {ascii ''websocket'', ascii ''derp''}"

definition connection_ok :: "http_header \<Rightarrow> bool" where
  "connection_ok h \<longleftrightarrow> to_ascii_lowercase (h_value h) = ascii ''upgrade''"

lemma validate_headers_Ok_iff:
  "validate_headers hs = Ok () \<longleftrightarrow>
     (\<forall>h \<in> set hs.
        (h_name h = ascii ''Upgrade'' \<longrightarrow> utf8_valid (h_value h) \<and> upgrade_ok h) \<and>
        (h_name h = ascii ''Connection'' \<longrightarrow> utf8_valid (h_value h) \<and> connection_ok h))"
proof (induction hs)
  case (Cons h hs)
  have "ascii ''Upgrade'' \<noteq> ascii ''Connection''" by (simp add: ascii_def)
  then show ?case using Cons by (auto simp: Let_def upgrade_ok_def connection_ok_def)
qed simp

lemma validate_headers_no_panic: "validate_headers hs \<noteq> Panic msg"
  by (induction hs) (auto simp: Let_def)


section \<open>What the handshake relies on of crypto_box and serde_json\<close>

text \<open>
  \<open>key_law\<close>: a public key has 32 bytes. \<open>box_law\<close>: sealing a message for a public key succeeds, adds
  the 16 bytes of the tag, and the owner of the secret key opens it with the sender's public key.
  \<open>json_law\<close>: the JSON text of a mesh key that needs no escaping parses to that mesh key.
\<close>

definition key_law :: "library \<Rightarrow> bool" where
  "key_law lib \<longleftrightarrow> (\<forall>a. length a = KEY_SIZE \<longrightarrow> length (box_public_key lib a) = KEY_SIZE)"

definition box_law :: "library \<Rightarrow> bool" where
  "box_law lib \<longleftrightarrow>
     (\<forall>a b nonce text. length a = KEY_SIZE \<longrightarrow> length b = KEY_SIZE \<longrightarrow> length nonce = 24 \<longrightarrow>
        (\<exists>c. box_encrypt lib (box_public_key lib b) a nonce text = Some c \<and>
             length c = length text + 16 \<and>
             box_decrypt lib (box_public_key lib a) b nonce c = Some text))"

definition plain_meshkey :: "bytes \<Rightarrow> bool" where
  "plain_meshkey k \<longleftrightarrow> utf8_valid k \<and> (\<forall>b \<in> set k. 0x20 \<le> b \<and> b \<noteq> 0x22 \<and> b \<noteq> 0x5C)"

definition json_law :: "library \<Rightarrow> bool" where
  "json_law lib \<longleftrightarrow>
     (\<forall>k. plain_meshkey k \<longrightarrow>
        json_from_slice lib (client_info_json (Some k)) = Some \<lparr>payload_version = 2, payload_meshkey = k\<rparr>)"

text \<open>An empty mesh key and no mesh key are the same on the wire.\<close>

definition meshkey_sent :: "bytes option \<Rightarrow> bytes" where
  "meshkey_sent k = (case k of None \<Rightarrow> [] | Some k \<Rightarrow> k)"

definition meshkey_received :: "bytes option \<Rightarrow> bytes option" where
  "meshkey_received k = (if meshkey_sent k = [] then None else k)"

lemma client_info_json_sent: "client_info_json k = client_info_json (Some (meshkey_sent k))"
  by (cases k) (simp_all add: client_info_json_def meshkey_sent_def ascii_def)

lemma length_client_info_json: "length (client_info_json k) = 29 + length (meshkey_sent k)"
  by (cases k) (simp_all add: client_info_json_def meshkey_sent_def ascii_def)

lemma public_valid:
  "key_law lib \<Longrightarrow> valid_SecretKey k \<Longrightarrow> valid_PublicKey (secret_key_public (box_public_key lib) k)"
  by (simp add: key_law_def valid_SecretKey_def valid_PublicKey_def secret_key_public_def)

text \<open>What one side seals, the other side opens.\<close>

lemma client_info_new_complete:
  assumes lib: "key_law lib" "box_law lib" "json_law lib"
    and keys: "valid_SecretKey server" "valid_SecretKey client" "length nonce = 24"
    and meshkey: "plain_meshkey (meshkey_sent k)"
  obtains x where
    "client_info_new lib nonce client (secret_key_public (box_public_key lib) server) k = Ok x"
    and "valid_ClientInfo x" and "length (wire_ClientInfo x) = 101 + length (meshkey_sent k)"
    and "client_info_complete lib server x
      = Ok \<lparr>complete_public_key = secret_key_public (box_public_key lib) client, complete_nonce = nonce,
            complete_payload = \<lparr>payload_version = 2, payload_meshkey = meshkey_sent k\<rparr>\<rparr>"
proof -
  obtain c where c: "box_encrypt lib (box_public_key lib (sk_bytes server)) (sk_bytes client) nonce
      (client_info_json k) = Some c" "length c = length (client_info_json k) + 16"
      "box_decrypt lib (box_public_key lib (sk_bytes client)) (sk_bytes server) nonce c
        = Some (client_info_json k)"
    using lib(2) keys unfolding box_law_def valid_SecretKey_def by blast
  let ?x = "\<lparr>ci_public_key = secret_key_public (box_public_key lib) client, ci_nonce = nonce,
     ci_cipher_text = c\<rparr>"
  have json: "json_from_slice lib (client_info_json k)
      = Some \<lparr>payload_version = 2, payload_meshkey = meshkey_sent k\<rparr>"
    using lib(3) meshkey unfolding json_law_def client_info_json_sent [of k] by blast
  have pk: "length (pk_bytes (secret_key_public (box_public_key lib) client)) = KEY_SIZE"
    using public_valid [OF lib(1) keys(2)] by (simp add: valid_PublicKey_def)
  show thesis
  proof (rule that [of ?x])
    show "client_info_new lib nonce client (secret_key_public (box_public_key lib) server) k = Ok ?x"
      using c(1) keys(3) by (simp add: client_info_new_def secret_key_public_def)
    show "valid_ClientInfo ?x"
      using pk keys(3) by (simp add: valid_ClientInfo_def valid_PublicKey_def)
    show "length (wire_ClientInfo ?x) = 101 + length (meshkey_sent k)"
      using pk keys(3) c(2) by (simp add: wire_ClientInfo_def length_client_info_json KEY_SIZE_def)
    show "client_info_complete lib server ?x
      = Ok \<lparr>complete_public_key = secret_key_public (box_public_key lib) client, complete_nonce = nonce,
            complete_payload = \<lparr>payload_version = 2, payload_meshkey = meshkey_sent k\<rparr>\<rparr>"
      using c(3) json by (simp add: client_info_complete_def secret_key_public_def)
  qed
qed

lemma length_client_info_bytes: "length (client_info_bytes x) = 5 + length (wire_ClientInfo x)"
  by (simp add: client_info_bytes_def wire_Frame_def wire_SizeWrapper_def wire_FrameType_def
      client_info_frame_def to_be_bytes_4)

text \<open>The HTTP phase on a request that is accepted.\<close>

lemma finalize_http_phase_accepts:
  assumes "0 < length req" and "length req < UPGRADE_MSG_SIZE"
    and "parse_request (req @ replicate (UPGRADE_MSG_SIZE - length req) 0) = Some (Some n, hs)"
    and "n \<le> UPGRADE_MSG_SIZE" and "validate_headers hs = Ok ()"
  shows "finalize_http_phase parse_request \<lparr>c_in = Chunk req # rest, c_w = \<lparr>w_out = out, w_events = []\<rparr>\<rparr>
    = Some (Ok (), \<lparr>c_in = rest, c_w = \<lparr>w_out = out @ http_response, w_events = []\<rparr>\<rparr>)"
  using assms
  by (simp add: finalize_http_phase_def conn_read_def conn_write_def write_some_quiet Let_def bindM_def)

text \<open>Nothing is sent to a peer whose request is refused.\<close>

lemma finalize_http_phase_refuses:
  assumes "finalize_http_phase parse_request c = Some (r, c')" and "r \<noteq> Ok ()"
  shows "w_out (c_w c') = w_out (c_w c)"
  using assms
  by (auto simp: finalize_http_phase_def conn_read_def conn_write_def write_some_def Let_def bindM_def
      split: option.splits outcome.splits prod.splits if_splits list.splits write_event.splits)


lemma handle_handshake_accepts:
  assumes http: "0 < length req" "length req < UPGRADE_MSG_SIZE"
      "parse_request (req @ replicate (UPGRADE_MSG_SIZE - length req) 0) = Some (Some n, hs)"
      "n \<le> UPGRADE_MSG_SIZE" "validate_headers hs = Ok ()"
    and server: "valid_PublicKey (secret_key_public (box_public_key lib) sk)"
    and info: "valid_ClientInfo x" "length (client_info_bytes x) \<le> CLIENT_INFO_SIZE"
      "client_info_complete lib sk x = Ok info"
  shows "handle_handshake parse_request lib sk
      \<lparr>c_in = Chunk req # Chunk (client_info_bytes x) # rest, c_w = \<lparr>w_out = [], w_events = []\<rparr>\<rparr>
    = Some (Ok (complete_public_key info,
         if payload_meshkey (complete_payload info) = [] then None
         else Some (payload_meshkey (complete_payload info))),
       \<lparr>c_in = rest, c_w = \<lparr>w_out = http_response
          @ server_key_bytes (secret_key_public (box_public_key lib) sk) @ server_info_bytes,
          w_events = []\<rparr>\<rparr>)"
  using finalize_http_phase_accepts [of req parse_request n hs] http info
    read_client_info_frame [of x "[]" lib sk rest]
  by (simp add: handle_handshake_def write_server_key_eq [OF server] write_server_info_eq
      conn_write_def conn_read_def write_all_quiet bindM_def)

lemma exchange_keys_accepts:
  assumes k: "valid_PublicKey k" and r: "pending (l_reader l) = server_key_bytes k @ rest"
    and w: "w_events (l_writer l) = []"
    and new: "client_info_new lib nonce sk k meshkey = Ok x"
    and x: "valid_ClientInfo x" "length (wire_ClientInfo x) < 2 ^ 32"
  obtains r' where "pending r' = rest"
    and "exchange_keys lib nonce sk meshkey l = Some (Ok k, l\<lparr>l_reader := r',
           l_writer := (l_writer l)\<lparr>w_out := w_out (l_writer l) @ client_info_bytes x\<rparr>\<rparr>)"
proof -
  obtain r' where "read_server_key (l_reader l) = Some (Ok k, r')" "pending r' = rest"
    using read_server_key_accepts [OF k r] by blast
  then show thesis
    using w new
    by (intro that [of r'])
       (simp_all add: exchange_keys_def link_read_def link_write_def write_client_info_eq [OF x]
          write_all_quiet bindM_def)
qed

section \<open>Properties\<close>

text \<open>
  C5. The two sides of the handshake fit together. Let the server \<open>server\<close> accept the HTTP request
  \<open>req\<close>, and let a client \<open>client\<close> read a stream, cut into chunks in any way, that starts with the
  server's key frame and the server's information frame. Then \<open>exchange_keys\<close> returns the public key of
  the server and writes some bytes \<open>info\<close>; the server that receives \<open>info\<close> in one read answers with
  exactly those two frames, after the HTTP response, and \<open>handle_handshake\<close> returns the public key
  of the client and its mesh key (none when it is empty); and \<open>read_server_info\<close> of the client succeeds.
\<close>

theorem handshake_completes:
  assumes lib: "key_law lib" "box_law lib" "json_law lib"
    and keys: "valid_SecretKey server" "valid_SecretKey client" "length nonce = 24"
    and meshkey: "plain_meshkey (meshkey_sent k)" "length (meshkey_sent k) \<le> 918"
    and http: "0 < length req" "length req < UPGRADE_MSG_SIZE"
      "parse_request (req @ replicate (UPGRADE_MSG_SIZE - length req) 0) = Some (Some n, hs)"
      "n \<le> UPGRADE_MSG_SIZE" "validate_headers hs = Ok ()"
    and stream: "pending r = server_key_bytes (secret_key_public (box_public_key lib) server)
      @ server_info_bytes @ rest"
  shows "\<exists>info r1 r2.
      exchange_keys lib nonce client k \<lparr>l_reader = r, l_writer = \<lparr>w_out = [], w_events = []\<rparr>\<rparr>
        = Some (Ok (secret_key_public (box_public_key lib) server),
            \<lparr>l_reader = r1, l_writer = \<lparr>w_out = info, w_events = []\<rparr>\<rparr>) \<and>
      handle_handshake parse_request lib server
        \<lparr>c_in = [Chunk req, Chunk info] @ later, c_w = \<lparr>w_out = [], w_events = []\<rparr>\<rparr>
        = Some (Ok (secret_key_public (box_public_key lib) client, meshkey_received k),
            \<lparr>c_in = later, c_w = \<lparr>w_out = http_response
               @ server_key_bytes (secret_key_public (box_public_key lib) server) @ server_info_bytes,
               w_events = []\<rparr>\<rparr>) \<and>
      read_server_info r1 = Some (Ok (), r2) \<and> pending r2 = rest"
proof -
  obtain x where x: "client_info_new lib nonce client (secret_key_public (box_public_key lib) server) k = Ok x"
      "valid_ClientInfo x" "length (wire_ClientInfo x) = 101 + length (meshkey_sent k)"
      "client_info_complete lib server x
        = Ok \<lparr>complete_public_key = secret_key_public (box_public_key lib) client, complete_nonce = nonce,
              complete_payload = \<lparr>payload_version = 2, payload_meshkey = meshkey_sent k\<rparr>\<rparr>"
    using client_info_new_complete [OF lib keys meshkey(1)] by blast
  note server = public_valid [OF lib(1) keys(1)]
  let ?l = "\<lparr>l_reader = r, l_writer = \<lparr>w_out = [], w_events = []\<rparr>\<rparr>"
  obtain r1 where r1: "pending r1 = server_info_bytes @ rest"
      "exchange_keys lib nonce client k ?l = Some (Ok (secret_key_public (box_public_key lib) server),
        ?l\<lparr>l_reader := r1, l_writer := (l_writer ?l)\<lparr>w_out := w_out (l_writer ?l) @ client_info_bytes x\<rparr>\<rparr>)"
    by (rule exchange_keys_accepts [OF server, of ?l "server_info_bytes @ rest" lib nonce client k x])
       (use stream x meshkey(2) in simp_all)
  obtain r2 where r2: "read_server_info r1 = Some (Ok (), r2)" "pending r2 = rest"
    using read_server_info_accepts [OF r1(1)] by blast
  have len: "length (client_info_bytes x) \<le> CLIENT_INFO_SIZE"
    using x(3) meshkey(2) by (simp add: length_client_info_bytes CLIENT_INFO_SIZE_def)
  show ?thesis
    using r1(2) r2 handle_handshake_accepts [where parse_request = parse_request, OF http server x(2) len x(4), of later]
    by (intro exI [of _ "client_info_bytes x"] exI [of _ r1] exI [of _ r2])
       (cases k, simp_all add: meshkey_sent_def meshkey_received_def)
qed


text \<open>
  A library that satisfies the three laws: the public key is the secret key, sealing puts 16 zero
  bytes in front of the text, and parsing cuts the mesh key out of its place in the JSON text.
\<close>

definition plain_library :: library where
  "plain_library =
     \<lparr>box_public_key = (\<lambda>k. k),
      box_encrypt = (\<lambda>pk sk nonce text. Some (replicate 16 0 @ text)),
      box_decrypt = (\<lambda>pk sk nonce c. if length c < 16 then None else Some (drop 16 c)),
      json_from_slice = (\<lambda>text. Some \<lparr>payload_version = 2,
        payload_meshkey = take (length text - 29) (drop 27 text)\<rparr>)\<rparr>"

lemma plain_library_laws: "key_law plain_library" "box_law plain_library" "json_law plain_library"
proof -
  show "key_law plain_library" by (simp add: key_law_def plain_library_def)
  show "box_law plain_library" by (simp add: box_law_def plain_library_def)
  have 27: "length (ascii ''{\"version\": 2, \"meshKey\": \"'') = 27" by (simp add: ascii_def)
  show "json_law plain_library"
    unfolding json_law_def
    using 27 length_client_info_json [of "Some k" for k]
    by (simp add: plain_library_def client_info_json_def meshkey_sent_def)
qed

definition accept_request :: parse_request where
  "accept_request buf =
     Some (Some 18, [\<lparr>h_name = ascii ''Upgrade'', h_value = ascii ''DERP''\<rparr>])"

lemma accept_request_headers:
  "validate_headers [\<lparr>h_name = ascii ''Upgrade'', h_value = ascii ''DERP''\<rparr>] = Ok ()"
  by (simp add: ascii_def to_ascii_lowercase_def Let_def)

theorem handshake_completes_witness:
  "\<exists>info r1 r2.
      exchange_keys plain_library (replicate 24 3) (SecretKey (replicate 32 2)) (Some (ascii ''key''))
        \<lparr>l_reader = derp_reader_new [Chunk (server_key_bytes (PublicKey (replicate 32 1))), Chunk server_info_bytes],
         l_writer = \<lparr>w_out = [], w_events = []\<rparr>\<rparr>
        = Some (Ok (PublicKey (replicate 32 1)),
            \<lparr>l_reader = r1, l_writer = \<lparr>w_out = info, w_events = []\<rparr>\<rparr>) \<and>
      handle_handshake accept_request plain_library (SecretKey (replicate 32 1))
        \<lparr>c_in = [Chunk (ascii ''GET /derp HTTP/1.1''), Chunk info] @ [],
         c_w = \<lparr>w_out = [], w_events = []\<rparr>\<rparr>
        = Some (Ok (PublicKey (replicate 32 2), Some (ascii ''key'')),
            \<lparr>c_in = [], c_w = \<lparr>w_out = http_response
               @ server_key_bytes (PublicKey (replicate 32 1)) @ server_info_bytes,
               w_events = []\<rparr>\<rparr>) \<and>
      read_server_info r1 = Some (Ok (), r2) \<and> pending r2 = []"
proof -
  let ?r = "derp_reader_new [Chunk (server_key_bytes (PublicKey (replicate 32 1))), Chunk server_info_bytes]"
  have pub: "secret_key_public (box_public_key plain_library) (SecretKey bs) = PublicKey bs" for bs
    by (simp add: secret_key_public_def plain_library_def)
  have key: "meshkey_received (Some (ascii ''key'')) = Some (ascii ''key'')"
    by (simp add: meshkey_received_def meshkey_sent_def ascii_def)
  show ?thesis
    using handshake_completes [OF plain_library_laws, of "SecretKey (replicate 32 1)"
        "SecretKey (replicate 32 2)" "replicate 24 3" "Some (ascii ''key'')"
        "ascii ''GET /derp HTTP/1.1''" accept_request 18
        "[\<lparr>h_name = ascii ''Upgrade'', h_value = ascii ''DERP''\<rparr>]" ?r "[]" "[]",
        OF _ _ _ _ _ _ _ _ _ accept_request_headers]
    unfolding pub key
    by (simp add: valid_SecretKey_def KEY_SIZE_def plain_meshkey_def meshkey_sent_def ascii_def
        UPGRADE_MSG_SIZE_def accept_request_def pending_def derp_reader_new_def)
qed


text \<open>
  C30. The server says nothing to a peer whose HTTP request it refuses: whenever the HTTP phase does
  not succeed, \<open>handle_handshake\<close> ends with the same error (or panic) and not one byte is written.
\<close>

theorem handshake_refusal_is_silent:
  assumes "finalize_http_phase parse_request c = Some (r, c')" and "r \<noteq> Ok ()"
  shows "w_out (c_w c') = w_out (c_w c) \<and>
    (case r of Ok u \<Rightarrow> False
     | Err e \<Rightarrow> handle_handshake parse_request lib sk c = Some (Err e, c')
     | Panic msg \<Rightarrow> handle_handshake parse_request lib sk c = Some (Panic msg, c'))"
  using assms finalize_http_phase_refuses [OF assms]
  by (auto simp: handle_handshake_def split: outcome.splits)

theorem handshake_refusal_is_silent_witness:
  "w_out (c_w \<lparr>c_in = [], c_w = \<lparr>w_out = [], w_events = []\<rparr>\<rparr>) = [] \<and>
   handle_handshake accept_request plain_library (SecretKey (replicate 32 1))
     \<lparr>c_in = [], c_w = \<lparr>w_out = [], w_events = []\<rparr>\<rparr>
   = Some (Err EmptyInitialMessage, \<lparr>c_in = [], c_w = \<lparr>w_out = [], w_events = []\<rparr>\<rparr>)"
  using handshake_refusal_is_silent [of accept_request "\<lparr>c_in = [], c_w = \<lparr>w_out = [], w_events = []\<rparr>\<rparr>"
      "Err EmptyInitialMessage" "\<lparr>c_in = [], c_w = \<lparr>w_out = [], w_events = []\<rparr>\<rparr>" plain_library
      "SecretKey (replicate 32 1)"]
  by (simp add: finalize_http_phase_def conn_read_def bindM_def)

text \<open>
  C31. The server reads the client's information with a single call of \<open>read\<close>. What arrives behind the
  frame in that read is lost: the result is the one for the frame alone, and the bytes are gone from
  the connection (a client that sends its first packets at once loses them). And whatever would arrive
  in later reads has no influence on the result, so a frame that is delivered in two pieces is never
  put together.
\<close>

theorem read_client_info_single_read:
  "(valid_ClientInfo x \<and> length (client_info_bytes x @ extra) \<le> CLIENT_INFO_SIZE \<longrightarrow>
     read_client_info lib sk (Chunk (client_info_bytes x @ extra) # rest)
       = read_client_info lib sk (Chunk (client_info_bytes x) # rest)) \<and>
   (length bs \<le> CLIENT_INFO_SIZE \<and> read_client_info lib sk (Chunk bs # rest) = Some (r, s) \<longrightarrow>
     s = rest \<and> read_client_info lib sk (Chunk bs # other) = Some (r, other))"
proof (intro conjI impI)
  assume "valid_ClientInfo x \<and> length (client_info_bytes x @ extra) \<le> CLIENT_INFO_SIZE"
  then show "read_client_info lib sk (Chunk (client_info_bytes x @ extra) # rest)
      = read_client_info lib sk (Chunk (client_info_bytes x) # rest)"
    using read_client_info_frame [of x extra lib sk rest] read_client_info_frame [of x "[]" lib sk rest]
    by simp
qed (use read_client_info_one_read in blast)+

theorem read_client_info_single_read_witness:
  "\<exists>x extra. valid_ClientInfo x \<and> length (client_info_bytes x @ extra) \<le> CLIENT_INFO_SIZE \<and> extra \<noteq> [] \<and>
     read_client_info plain_library (SecretKey (replicate 32 1)) [Chunk (client_info_bytes x @ extra)]
       = read_client_info plain_library (SecretKey (replicate 32 1)) [Chunk (client_info_bytes x)]"
proof -
  let ?x = "\<lparr>ci_public_key = PublicKey (replicate 32 2), ci_nonce = replicate 24 3,
     ci_cipher_text = replicate 16 0 @ client_info_json None\<rparr>"
  have x: "valid_ClientInfo ?x \<and> length (client_info_bytes ?x @ [4, 0]) \<le> CLIENT_INFO_SIZE"
    by (simp add: valid_ClientInfo_def valid_PublicKey_def KEY_SIZE_def length_client_info_bytes
        wire_ClientInfo_def length_client_info_json meshkey_sent_def CLIENT_INFO_SIZE_def)
  have "read_client_info plain_library (SecretKey (replicate 32 1)) [Chunk (client_info_bytes ?x @ [4, 0])]
       = read_client_info plain_library (SecretKey (replicate 32 1)) [Chunk (client_info_bytes ?x)]"
    using read_client_info_single_read x by blast
  with x show ?thesis by blast
qed

end
