(* ===== verification/Client.thy ===== *)
theory Client
  imports Proto
begin

text \<open>
  A connected client (dersp/src/client.rs): the read loop, which turns the client's frames into
  commands for the service, and the write loop, which turns the service's commands into frames for
  the client. The datatypes \<open>ServiceCommand\<close> (dersp/src/service.rs) and \<open>WriteLoopCommands\<close> are here
  because both sides of the channels need them.

  \<^item> A \<open>Sender<WriteLoopCommands>\<close> is the number of the write loop it feeds (\<open>sink\<close>).
  \<^item> The read loop owns its \<open>DerpReader\<close> and a sender for commands. \<open>rs_commands\<close> collects the commands
    it has handed over; \<open>rs_room\<close> tells when the receiver goes away: \<open>Some n\<close> after \<open>n\<close> more commands,
    \<open>None\<close> never. \<open>send\<close> is an error exactly when the receiver is gone.
  \<^item> The write loop owns the receiver: \<open>ws_recv\<close> holds the commands that \<open>recv\<close> will return before every
    sender is dropped and it returns nothing.
\<close>

section \<open>Commands\<close>

type_synonym sink = nat

datatype WriteLoopCommands =
    WSendPacket PublicKey PublicKey bytes
  | WPeerPresent PublicKey
  | WStop

datatype ServiceCommand =
    CStop
  | CSendPacket PublicKey PublicKey bytes
  | CSubscribeForPeerChanges PublicKey sink
  | CPeerPresent PublicKey sink

section \<open>The read loop\<close>

record read_state =
  rs_reader :: DerpReader
  rs_commands :: "ServiceCommand list"
  rs_room :: "nat option"

definition receive :: "(read_state, Message, error) proc" where
  "receive s = map_option (\<lambda>(r, d). (r, s\<lparr>rs_reader := d\<rparr>)) (get_next_message (rs_reader s))"

definition send_command :: "ServiceCommand \<Rightarrow> (read_state, unit, error) proc" where
  "send_command c s =
     (case rs_room s of
        None \<Rightarrow> Some (Ok (), s\<lparr>rs_commands := rs_commands s @ [c]\<rparr>)
      | Some 0 \<Rightarrow> Some (Err SendFailed, s)
      | Some (Suc n) \<Rightarrow> Some (Ok (), s\<lparr>rs_commands := rs_commands s @ [c], rs_room := Some n\<rparr>))"

definition client_message :: "PublicKey \<Rightarrow> bool \<Rightarrow> sink \<Rightarrow> Message \<Rightarrow> (read_state, unit, error) proc" where
  "client_message pk can_mesh our_sink message =
     (case msg_ty message of
        SendPacket \<Rightarrow>
          bindM (run_decoder (decode_Frame decode_SendPacket) (msg_buffer message)) (\<lambda>frame.
            let send_packet = into_inner (inner frame)
            in send_command (CSendPacket pk (send_target send_packet) (send_payload send_packet)))
      | WatchConns \<Rightarrow>
          if \<not> can_mesh then retM () else send_command (CSubscribeForPeerChanges pk our_sink)
      | PeerPresent \<Rightarrow>
          bindM (run_decoder (decode_Frame decode_PeerPresent) (msg_buffer message)) (\<lambda>frame.
            let peer_present = into_inner (inner frame)
            in unwrapM (send_command (CPeerPresent (present_public_key peer_present) our_sink)))
      | _ \<Rightarrow> panicM ''not yet implemented: frame type'')"

definition client_read_step :: "PublicKey \<Rightarrow> bool \<Rightarrow> sink \<Rightarrow> (read_state, unit option, error) proc" where
  "client_read_step pk can_mesh our_sink =
     bindM receive (\<lambda>message. bindM (client_message pk can_mesh our_sink message) (\<lambda>_. retM None))"

definition client_read_loop :: "PublicKey \<Rightarrow> bool \<Rightarrow> sink \<Rightarrow> (read_state, unit, error) proc" where
  "client_read_loop pk can_mesh our_sink = loopM (client_read_step pk can_mesh our_sink)"

section \<open>The write loop\<close>

definition client_write_command ::
  "PublicKey \<Rightarrow> bool \<Rightarrow> WriteLoopCommands \<Rightarrow> (writer, unit option, error) proc" where
  "client_write_command pk can_mesh command =
     (case command of
        WSendPacket source target payload \<Rightarrow>
          (case (can_mesh, target \<noteq> pk) of
             (True, True) \<Rightarrow>
               bindM (write_forward_packet (forward_packet_new source target payload)) (\<lambda>_. retM None)
           | (_, False) \<Rightarrow>
               bindM (run_encoder (encode_Frame vec_buffer (encode_RecvPacket vec_buffer))
                        \<lparr>frame_type = RecvPacket,
                         inner = SizeWrapper \<lparr>recv_target = target, recv_payload = payload\<rparr>\<rparr>)
                 (\<lambda>writing_buffer. bindM (write_all writing_buffer) (\<lambda>_. retM None))
           | (False, True) \<Rightarrow> panicM ''not yet implemented'')
      | WStop \<Rightarrow> retM (Some ())
      | WPeerPresent k \<Rightarrow> bindM (write_peer_present k) (\<lambda>_. retM None))"

record write_state =
  ws_recv :: "WriteLoopCommands list"
  ws_writer :: writer

definition client_write_step :: "PublicKey \<Rightarrow> bool \<Rightarrow> (write_state, unit option, error) proc" where
  "client_write_step pk can_mesh s =
     (case ws_recv s of
        [] \<Rightarrow> Some (Ok (Some ()), s)
      | command # commands \<Rightarrow>
          map_option (\<lambda>(r, w). (r, \<lparr>ws_recv = commands, ws_writer = w\<rparr>))
            (client_write_command pk can_mesh command (ws_writer s)))"

definition client_write_loop :: "PublicKey \<Rightarrow> bool \<Rightarrow> (write_state, unit, error) proc" where
  "client_write_loop pk can_mesh = loopM (client_write_step pk can_mesh)"

section \<open>Read loops as an interface\<close>

text \<open>
  What both read loops of the program share. Items of some type \<open>'q\<close> arrive as frames; the handler of
  the loop turns each valid item into its commands. Then the loop turns a stream of items into the
  commands of these items.
\<close>

lemma receive_Cons:
  assumes "messages (rs_reader s) = m # ms"
  obtains r' where "receive s = Some (Ok m, s\<lparr>rs_reader := r'\<rparr>)" and "messages r' = ms"
    and "fails (dr_reader r') = fails (dr_reader (rs_reader s))"
  using rd.recv_Cons [OF assms] by (auto simp: receive_def)

definition read_step :: "(Message \<Rightarrow> (read_state, unit, error) proc) \<Rightarrow> (read_state, unit option, error) proc" where
  "read_step handle = bindM receive (\<lambda>message. bindM (handle message) (\<lambda>_. retM None))"

locale command_reader =
  fixes handle :: "Message \<Rightarrow> (read_state, unit, error) proc"
    and frame_of :: "'q \<Rightarrow> Message" and valid :: "'q \<Rightarrow> bool" and commands :: "'q \<Rightarrow> ServiceCommand list"
  assumes frames: "valid q \<Longrightarrow> is_frame (frame_of q)"
    and handles: "valid q \<Longrightarrow> rs_room s = None \<Longrightarrow>
      handle (frame_of q) s = Some (Ok (), s\<lparr>rs_commands := rs_commands s @ commands q\<rparr>)"
begin

lemma reads_items:
  assumes "\<forall>q \<in> set qs. valid q" and "rs_room s = None"
    and "messages (rs_reader s) = map frame_of qs @ ms"
  shows "\<exists>s'. iterM (length qs) (read_step handle) s = Some s' \<and>
    rs_commands s' = rs_commands s @ concat (map commands qs) \<and>
    rs_room s' = None \<and> messages (rs_reader s') = ms \<and>
    fails (dr_reader (rs_reader s')) = fails (dr_reader (rs_reader s))"
  using assms
proof (induction qs arbitrary: s)
  case (Cons q qs)
  obtain r' where r': "receive s = Some (Ok (frame_of q), s\<lparr>rs_reader := r'\<rparr>)"
      "messages r' = map frame_of qs @ ms" "fails (dr_reader r') = fails (dr_reader (rs_reader s))"
    by (rule receive_Cons [of s "frame_of q" "map frame_of qs @ ms"]) (use Cons.prems in auto)
  let ?s = "s\<lparr>rs_reader := r', rs_commands := rs_commands s @ commands q\<rparr>"
  have "handle (frame_of q) (s\<lparr>rs_reader := r'\<rparr>) = Some (Ok (), ?s)"
    using handles [of q "s\<lparr>rs_reader := r'\<rparr>"] Cons.prems by simp
  then have "read_step handle s = Some (Ok None, ?s)"
    using r'(1) by (simp add: read_step_def)
  moreover have "rs_room ?s = None" "messages (rs_reader ?s) = map frame_of qs @ ms"
    using Cons.prems r' by simp_all
  ultimately show ?case using Cons.IH [of ?s] Cons.prems(1) r'(3) by auto
qed simp

lemma relays:
  assumes valid: "\<forall>q \<in> set qs. valid q" and room: "rs_room s = None"
    and stream: "pending (rs_reader s) = concat (map (msg_buffer \<circ> frame_of) qs) @ extra"
    and no_more: "next_frame extra = None"
  shows "if fails (dr_reader (rs_reader s))
    then \<exists>s'. loopM (read_step handle) s = Some (Err IoError, s') \<and>
           rs_commands s' = rs_commands s @ concat (map commands qs)
    else loopM (read_step handle) s = None"
proof -
  have "messages (rs_reader s) = map frame_of qs @ []"
    using messages_frames [of "rs_reader s" "map frame_of qs" extra] valid stream no_more frames
    by (auto simp: split_messages_None)
  then obtain s' where s': "iterM (length qs) (read_step handle) s = Some s'"
      "rs_commands s' = rs_commands s @ concat (map commands qs)"
      "messages (rs_reader s') = []" "fails (dr_reader (rs_reader s')) = fails (dr_reader (rs_reader s))"
    using reads_items [OF valid room] by blast
  have loop: "loopM (read_step handle) s = loopM (read_step handle) s'" using s'(1) by (rule loopM_iterM)
  show ?thesis
  proof (cases "fails (dr_reader (rs_reader s))")
    case True
    then obtain r' where "get_next_message (rs_reader s') = Some (Err IoError, r')"
      using rd.recv_broken s'(3,4) by blast
    then have "read_step handle s' = Some (Err IoError, s'\<lparr>rs_reader := r'\<rparr>)"
      by (simp add: read_step_def receive_def)
    then show ?thesis using True loop s'(2) by (simp add: loopM_Err)
  next
    case False
    then have "get_next_message (rs_reader s') = None" using rd.recv_closed s'(3,4) by blast
    then have "read_step handle s' = None" by (simp add: read_step_def receive_def)
    then show ?thesis using False loop by (simp add: loopM_None)
  qed
qed

lemma panics:
  assumes "next_frame (pending (rs_reader s)) = Some (m, rest)" and "\<And>t. handle m t = Some (Panic msg, t)"
  shows "\<exists>s'. loopM (read_step handle) s = Some (Panic msg, s')"
proof -
  obtain r' where "get_next_message (rs_reader s) = Some (Ok m, r')"
    using get_next_message_delivers [OF assms(1)] by blast
  then have "read_step handle s = Some (Panic msg, s\<lparr>rs_reader := r'\<rparr>)"
    using assms(2) by (simp add: read_step_def receive_def)
  then show ?thesis by (auto simp: loopM_Panic)
qed

end

section \<open>Specification of the read loop\<close>

text \<open>What a client may ask for, the frame that asks for it, and the commands it stands for.\<close>

datatype request = Send SendPacket | Watch bytes | Present PublicKey

fun request_message :: "request \<Rightarrow> Message" where
  "request_message (Send p) = \<lparr>msg_ty = SendPacket,
     msg_buffer = wire_Frame wire_SendPacket \<lparr>frame_type = SendPacket, inner = SizeWrapper p\<rparr>\<rparr>"
| "request_message (Watch bs) = \<lparr>msg_ty = WatchConns,
     msg_buffer = wire_Frame watch_data \<lparr>frame_type = WatchConns, inner = SizeWrapper \<lparr>watch_data = bs\<rparr>\<rparr>\<rparr>"
| "request_message (Present k) = \<lparr>msg_ty = PeerPresent, msg_buffer = peer_present_bytes k\<rparr>"

fun valid_request :: "request \<Rightarrow> bool" where
  "valid_request (Send p) \<longleftrightarrow> valid_SendPacket p \<and> length (wire_SendPacket p) < 2 ^ 32"
| "valid_request (Watch bs) \<longleftrightarrow> length bs < 2 ^ 32"
| "valid_request (Present k) \<longleftrightarrow> valid_PublicKey k"

fun request_commands :: "PublicKey \<Rightarrow> bool \<Rightarrow> sink \<Rightarrow> request \<Rightarrow> ServiceCommand list" where
  "request_commands pk can_mesh our_sink (Send p) = [CSendPacket pk (send_target p) (send_payload p)]"
| "request_commands pk can_mesh our_sink (Watch bs) =
     (if can_mesh then [CSubscribeForPeerChanges pk our_sink] else [])"
| "request_commands pk can_mesh our_sink (Present k) = [CPeerPresent k our_sink]"

lemma request_is_frame: "valid_request q \<Longrightarrow> is_frame (request_message q)"
  by (cases q)
     (simp_all add: is_frame_wire valid_FrameType_def peer_present_bytes_def valid_PublicKey_def
        wire_PeerPresent_def KEY_SIZE_def)

lemma client_message_request:
  assumes q: "valid_request q" and room: "rs_room s = None"
  shows "client_message pk can_mesh our_sink (request_message q) s
    = Some (Ok (), s\<lparr>rs_commands := rs_commands s @ request_commands pk can_mesh our_sink q\<rparr>)"
proof (cases q)
  case (Send p)
  let ?f = "\<lparr>frame_type = SendPacket, inner = SizeWrapper p\<rparr>"
  have "valid_Frame wire_SendPacket valid_SendPacket ?f"
    using q Send by (simp add: valid_Frame_def valid_SizeWrapper_def valid_FrameType_def)
  then have "decode_Frame decode_SendPacket (wire_Frame wire_SendPacket ?f) = Some (Ok ?f, [])"
    by (rule f_SendPacket.frame.exact_decodes)
  then show ?thesis using room Send by (simp add: client_message_def run_decoder_Ok send_command_def)
next
  case (Watch bs)
  then show ?thesis using room by (simp add: client_message_def send_command_def)
next
  case (Present k)
  let ?f = "\<lparr>frame_type = PeerPresent, inner = SizeWrapper \<lparr>present_public_key = k\<rparr>\<rparr>"
  have "decode_Frame decode_PeerPresent (peer_present_bytes k) = Some (Ok ?f, [])"
    unfolding peer_present_bytes_def
    using q Present f_PeerPresent.frame.exact_decodes [OF valid_frames(4)] by simp
  then show ?thesis
    using room Present by (simp add: client_message_def run_decoder_Ok send_command_def unwrapM_def)
qed

interpretation cr: command_reader "client_message pk can_mesh our_sink" request_message valid_request
    "request_commands pk can_mesh our_sink" for pk can_mesh our_sink
  by unfold_locales (simp_all add: request_is_frame client_message_request)

lemma client_read_loop_eq:
  "client_read_loop pk can_mesh our_sink = loopM (read_step (client_message pk can_mesh our_sink))"
  by (simp add: client_read_loop_def client_read_step_def read_step_def)

text \<open>Frames the read loop has no code for.\<close>

definition client_handles :: "FrameType \<Rightarrow> bool" where
  "client_handles ft \<longleftrightarrow> ft \<in> {SendPacket, WatchConns, PeerPresent}"

lemma client_message_unhandled:
  "\<not> client_handles (msg_ty m) \<Longrightarrow>
   client_message pk can_mesh our_sink m s = Some (Panic ''not yet implemented: frame type'', s)"
  by (auto simp: client_message_def client_handles_def split: FrameType.splits)

section \<open>Specification of the write loop\<close>

definition recv_packet_bytes :: "PublicKey \<Rightarrow> bytes \<Rightarrow> bytes" where
  "recv_packet_bytes target payload =
     wire_Frame wire_RecvPacket
       \<lparr>frame_type = RecvPacket, inner = SizeWrapper \<lparr>recv_target = target, recv_payload = payload\<rparr>\<rparr>"

fun command_bytes :: "PublicKey \<Rightarrow> WriteLoopCommands \<Rightarrow> bytes" where
  "command_bytes pk (WSendPacket source target payload) =
     (if target = pk then recv_packet_bytes target payload
      else forward_packet_bytes (forward_packet_new source target payload))"
| "command_bytes pk (WPeerPresent k) = peer_present_bytes k"
| "command_bytes pk WStop = []"

fun writable :: "PublicKey \<Rightarrow> bool \<Rightarrow> WriteLoopCommands \<Rightarrow> bool" where
  "writable pk can_mesh (WSendPacket source target payload) \<longleftrightarrow>
     valid_PublicKey source \<and> valid_PublicKey target \<and> length payload < 2 ^ 32 - 64 \<and>
     (target = pk \<or> can_mesh)"
| "writable pk can_mesh (WPeerPresent k) \<longleftrightarrow> valid_PublicKey k"
| "writable pk can_mesh WStop \<longleftrightarrow> False"

lemma encode_recv_packet:
  assumes "valid_PublicKey target" and "length payload < 2 ^ 32 - 32"
  shows "bindM (run_encoder (encode_Frame vec_buffer (encode_RecvPacket vec_buffer))
      \<lparr>frame_type = RecvPacket, inner = SizeWrapper \<lparr>recv_target = target, recv_payload = payload\<rparr>\<rparr>) write_all
    = write_all (recv_packet_bytes target payload)"
  unfolding recv_packet_bytes_def
  by (rule encode_and_write, rule e_RecvPacket.frame_vec)
     (use assms in \<open>simp add: valid_Frame_def valid_SizeWrapper_def valid_FrameType_def valid_RecvPacket_def
        wire_RecvPacket_def valid_PublicKey_def KEY_SIZE_def\<close>)

lemma client_write_command_eq:
  assumes "writable pk can_mesh c"
  shows "client_write_command pk can_mesh c = bindM (write_all (command_bytes pk c)) (\<lambda>_. retM None)"
proof (cases c)
  case (WSendPacket source target payload)
  show ?thesis
  proof (cases "target = pk")
    case True
    then show ?thesis
      using assms WSendPacket encode_recv_packet [of target payload]
      by (cases can_mesh) (simp_all add: client_write_command_def bindM_assoc [symmetric])
  next
    case False
    have "valid_ForwardPacket (forward_packet_new source target payload)"
      "length (wire_ForwardPacket (forward_packet_new source target payload)) < 2 ^ 32"
      using assms WSendPacket
      by (simp_all add: valid_ForwardPacket_def forward_packet_new_def wire_ForwardPacket_def
          valid_PublicKey_def KEY_SIZE_def)
    then show ?thesis
      using False assms WSendPacket by (simp add: client_write_command_def write_forward_packet_eq)
  qed
next
  case (WPeerPresent k)
  then show ?thesis using assms by (simp add: client_write_command_def write_peer_present_eq)
qed (use assms in simp)

lemma client_writes_commands:
  assumes "\<forall>c \<in> set cs. writable pk can_mesh c" and "w_events w = []"
  shows "iterM (length cs) (client_write_step pk can_mesh) \<lparr>ws_recv = cs @ later, ws_writer = w\<rparr>
    = Some \<lparr>ws_recv = later, ws_writer = w\<lparr>w_out := w_out w @ concat (map (command_bytes pk) cs)\<rparr>\<rparr>"
  using assms
  by (induction cs arbitrary: w) (simp_all add: client_write_step_def client_write_command_eq write_all_quiet)


section \<open>Properties\<close>



text \<open>
  C32. Any other frame ends the read task in a panic: a valid keep-alive, a note of preference, a ping or
  a packet forwarded by a mesh peer is answered by the \<open>todo!\<close> of the last branch.
\<close>

theorem client_read_step_unhandled:
  assumes "next_frame (pending (rs_reader s)) = Some (m, rest)" and "\<not> client_handles (msg_ty m)"
  shows "\<exists>s'. client_read_loop pk can_mesh our_sink s = Some (Panic ''not yet implemented: frame type'', s')"
  unfolding client_read_loop_eq
  by (rule cr.panics [OF assms(1) client_message_unhandled [OF assms(2)]])

theorem client_read_step_unhandled_witness:
  "\<exists>s'. client_read_loop (PublicKey (replicate 32 1)) False 0
      \<lparr>rs_reader = derp_reader_new [Chunk [6, 0, 0, 0, 0]], rs_commands = [], rs_room = None\<rparr>
    = Some (Panic ''not yet implemented: frame type'', s')"
  by (rule client_read_step_unhandled [where m = "\<lparr>msg_ty = KeepAlive, msg_buffer = [6, 0, 0, 0, 0]\<rparr>" and rest = "[]"])
     (simp_all add: pending_def derp_reader_new_def next_frame_def frame_length_def HEADER_SIZE_def
        get_frame_type_def decode_FrameType_def decode_u8_def fill_buf_def client_handles_def)



text \<open>
  C33. A packet for another key stops the write task of an ordinary client: whatever the commands before
  it, the loop panics at the \<open>todo!\<close> of the branch \<open>(false, true)\<close>, after writing those commands, and
  drops the commands behind it.
\<close>

theorem client_write_loop_misrouted:
  assumes "\<forall>c \<in> set cs. writable pk False c" and "w_events w = []" and "target \<noteq> pk"
  shows "client_write_loop pk False \<lparr>ws_recv = cs @ WSendPacket source target payload # later, ws_writer = w\<rparr>
    = Some (Panic ''not yet implemented'', \<lparr>ws_recv = later,
        ws_writer = w\<lparr>w_out := w_out w @ concat (map (command_bytes pk) cs)\<rparr>\<rparr>)"
  unfolding client_write_loop_def
  using loopM_iterM [OF client_writes_commands [OF assms(1,2), of "WSendPacket source target payload # later"]]
    assms(3)
  by (simp add: loopM_Panic client_write_step_def client_write_command_def)

theorem client_write_loop_misrouted_witness:
  "client_write_loop (PublicKey (replicate 32 1)) False
     \<lparr>ws_recv = [] @ WSendPacket (PublicKey (replicate 32 2)) (PublicKey (replicate 32 3)) [7] # [],
      ws_writer = \<lparr>w_out = [], w_events = []\<rparr>\<rparr>
   = Some (Panic ''not yet implemented'', \<lparr>ws_recv = [], ws_writer = \<lparr>w_out = [], w_events = []\<rparr>\<rparr>)"
  using client_write_loop_misrouted [of "[]" "PublicKey (replicate 32 1)" "\<lparr>w_out = [], w_events = []\<rparr>"
      "PublicKey (replicate 32 3)" "PublicKey (replicate 32 2)" "[7]" "[]"]
  by simp

end
