(* ===== verification/Mesh_Client.thy ===== *)
theory Mesh_Client
  imports Client
begin

text \<open>
  The client side of a mesh connection (dersp/src/mesh_client.rs): the HTTP upgrade, the exchange of
  keys, the subscription, and the read and write loops that follow.

  The connection is a \<open>link\<close> of Proto. Before the exchange of keys its reader stands for the read half
  of the socket, and \<open>connect_http\<close> reads from it directly. \<open>parse_response\<close> is httparse, as
  \<open>parse_request\<close> is. \<open>version\<close> and \<open>os\<close> are the strings compiled into the program. The oneshot
  channel that carries the key of the peer to \<open>start\<close> is \<open>mt_peer\<close>; \<open>mt_listens\<close> says whether \<open>start\<close>
  is still waiting for it. \<open>mt_peer_addr\<close> says whether the socket still knows the address of the peer.
\<close>

type_synonym parse_response = "bytes \<Rightarrow> nat option option"

record mesh_state =
  mt_link :: link
  mt_peer_addr :: bool
  mt_peer :: "PublicKey option"
  mt_listens :: bool
  mt_commands :: "ServiceCommand list"
  mt_room :: "nat option"

record MeshClient =
  mc_addr :: bytes
  mc_secret_key :: SecretKey
  mc_meshkey :: bytes

text \<open>\<open>lookup_host\<close> is an error, or the list of the addresses of a host.\<close>

definition mesh_client_new ::
  "(bytes \<Rightarrow> bytes list option) \<Rightarrow> bytes \<Rightarrow> SecretKey \<Rightarrow> bytes \<Rightarrow> MeshClient result" where
  "mesh_client_new lookup_host addr_or_host secret_key meshkey =
     (case lookup_host addr_or_host of
        None \<Rightarrow> Err IoError
      | Some (addr # _) \<Rightarrow> Ok \<lparr>mc_addr = addr, mc_secret_key = secret_key, mc_meshkey = meshkey\<rparr>
      | Some [] \<Rightarrow> Err ResolveFailed)"

section \<open>Connecting\<close>

definition connect_request :: "bytes \<Rightarrow> bytes \<Rightarrow> bytes" where
  "connect_request version os =
     ascii ''GET /derp HTTP/1.1'' @ [13, 10] @ ascii ''Connection: Upgrade'' @ [13, 10]
     @ ascii ''Upgrade: WebSocket'' @ [13, 10]
     @ ascii ''User-Agent: telio/'' @ version @ ascii '' '' @ os @ [13, 10, 13, 10]"

definition raw_read :: "(reads, 'a, error) proc \<Rightarrow> (DerpReader, 'a, error) proc" where
  "raw_read m d = map_option (\<lambda>(r, i). (r, d\<lparr>dr_reader := i\<rparr>)) (m (dr_reader d))"

definition connect_http :: "parse_response \<Rightarrow> bytes \<Rightarrow> bytes \<Rightarrow> (link, bytes, error) proc" where
  "connect_http parse_response version os =
     bindM (link_write (write_all (connect_request version os))) (\<lambda>_.
     bindM (link_read (raw_read (read_some MAX_TCP_PACKET_SIZE))) (\<lambda>bs.
       let data_len = length bs;
           data = bs @ replicate (MAX_TCP_PACKET_SIZE - data_len) 0
       in case parse_response data of
            None \<Rightarrow> failM HttpParseError
          | Some None \<Rightarrow> failM HttpIncomplete
          | Some (Some res_len) \<Rightarrow>
              if res_len \<le> data_len \<and> data_len \<le> length data
              then retM (take (data_len - res_len) (drop res_len data))
              else failM ResponseOutOfBounds))"

text \<open>\<open>DerpReader::new(Cursor::new(leftovers).chain(r))\<close>\<close>

definition chain_reader :: "bytes \<Rightarrow> (link, unit, error) proc" where
  "chain_reader leftovers l =
     Some (Ok (), l\<lparr>l_reader := derp_reader_new
       (if leftovers = [] then dr_reader (l_reader l) else Chunk leftovers # dr_reader (l_reader l))\<rparr>)"

definition on_link :: "(link, 'a, error) proc \<Rightarrow> (mesh_state, 'a, error) proc" where
  "on_link m s = map_option (\<lambda>(r, l). (r, s\<lparr>mt_link := l\<rparr>)) (m (mt_link s))"

definition send_peer_key :: "PublicKey \<Rightarrow> (mesh_state, unit, error) proc" where
  "send_peer_key k s =
     (if mt_listens s then Some (Ok (), s\<lparr>mt_peer := Some k\<rparr>) else Some (Err PeerKeyLost, s))"

definition stream_peer_addr :: "(mesh_state, unit, error) proc" where
  "stream_peer_addr s = (if mt_peer_addr s then Some (Ok (), s) else Some (Err IoError, s))"

definition mesh_exchange ::
  "parse_response \<Rightarrow> bytes \<Rightarrow> bytes \<Rightarrow> library \<Rightarrow> bytes \<Rightarrow> MeshClient \<Rightarrow> (mesh_state, PublicKey, error) proc" where
  "mesh_exchange parse_response version os lib nonce self =
     bindM stream_peer_addr (\<lambda>_.
     bindM (on_link (connect_http parse_response version os)) (\<lambda>leftovers.
     bindM (on_link (chain_reader leftovers)) (\<lambda>_.
     bindM (on_link (exchange_keys lib nonce (mc_secret_key self) (Some (mc_meshkey self)))) (\<lambda>mesh_peer_pk.
     bindM (send_peer_key mesh_peer_pk) (\<lambda>_.
     retM mesh_peer_pk)))))"

definition mesh_subscribe :: "(mesh_state, unit, error) proc" where
  "mesh_subscribe =
     bindM (on_link (link_read read_server_info)) (\<lambda>_. on_link (link_write write_watch_conns))"

text \<open>
  \<open>start\<close>: connecting may fail; then the task of \<open>run\<close> is started and \<open>start\<close> waits for the key of the
  peer. When the task ends without having sent it, the oneshot channel reports that.
\<close>

definition mesh_start ::
  "parse_response \<Rightarrow> bytes \<Rightarrow> bytes \<Rightarrow> library \<Rightarrow> bytes \<Rightarrow> (bytes \<Rightarrow> mesh_state option) \<Rightarrow> sink \<Rightarrow> MeshClient
   \<Rightarrow> (sink \<times> PublicKey) result option" where
  "mesh_start parse_response version os lib nonce connect sender self =
     (case connect (mc_addr self) of
        None \<Rightarrow> Some (Err IoError)
      | Some s \<Rightarrow>
          (case mesh_exchange parse_response version os lib nonce self s of
             None \<Rightarrow> None
           | Some (Ok k, s') \<Rightarrow> Some (Ok (sender, k))
           | Some (_, s') \<Rightarrow> Some (Err PeerKeyLost)))"

section \<open>The read loop\<close>

definition mesh_message :: "sink \<Rightarrow> Message \<Rightarrow> (read_state, unit, error) proc" where
  "mesh_message sender message =
     (case msg_ty message of
        PeerPresent \<Rightarrow>
          bindM (run_decoder (decode_Frame decode_PeerPresent) (msg_buffer message)) (\<lambda>frame.
            let peer_present = into_inner (inner frame)
            in unwrapM (send_command (CPeerPresent (present_public_key peer_present) sender)))
      | ForwardPacket \<Rightarrow>
          bindM (run_decoder (decode_Frame decode_ForwardPacket) (msg_buffer message)) (\<lambda>frame.
            let forward_packet = into_inner (inner frame)
            in send_command (CSendPacket (fwd_source forward_packet) (fwd_target forward_packet)
                 (fwd_payload forward_packet)))
      | _ \<Rightarrow> panicM ''not yet implemented'')"

definition mesh_read_step :: "sink \<Rightarrow> (read_state, unit option, error) proc" where
  "mesh_read_step sender =
     bindM receive (\<lambda>message. bindM (mesh_message sender message) (\<lambda>_. retM None))"

definition mesh_read_loop :: "sink \<Rightarrow> (read_state, unit, error) proc" where
  "mesh_read_loop sender = loopM (mesh_read_step sender)"

text \<open>\<open>run\<close>: the whole task of the read side; the write loop is started before the read loop.\<close>

definition on_read_state :: "(read_state, 'a, error) proc \<Rightarrow> (mesh_state, 'a, error) proc" where
  "on_read_state m s =
     map_option (\<lambda>(r, t). (r, s\<lparr>mt_link := (mt_link s)\<lparr>l_reader := rs_reader t\<rparr>,
         mt_commands := rs_commands t, mt_room := rs_room t\<rparr>))
       (m \<lparr>rs_reader = l_reader (mt_link s), rs_commands = mt_commands s, rs_room = mt_room s\<rparr>)"

definition mesh_run ::
  "parse_response \<Rightarrow> bytes \<Rightarrow> bytes \<Rightarrow> library \<Rightarrow> bytes \<Rightarrow> sink \<Rightarrow> MeshClient \<Rightarrow> (mesh_state, unit, error) proc" where
  "mesh_run parse_response version os lib nonce sender self =
     bindM (mesh_exchange parse_response version os lib nonce self) (\<lambda>mesh_peer_pk.
     bindM mesh_subscribe (\<lambda>_. on_read_state (mesh_read_loop sender)))"

section \<open>The write loop\<close>

definition mesh_write_command :: "WriteLoopCommands \<Rightarrow> (writer, unit option, error) proc" where
  "mesh_write_command command =
     (case command of
        WPeerPresent k \<Rightarrow> bindM (unwrapM (write_peer_present k)) (\<lambda>_. retM None)
      | _ \<Rightarrow> panicM ''not yet implemented'')"

definition mesh_write_step :: "(write_state, unit option, error) proc" where
  "mesh_write_step s =
     (case ws_recv s of
        [] \<Rightarrow> Some (Panic ''not yet implemented'', s)
      | command # commands \<Rightarrow>
          map_option (\<lambda>(r, w). (r, \<lparr>ws_recv = commands, ws_writer = w\<rparr>))
            (mesh_write_command command (ws_writer s)))"

definition mesh_write_loop :: "(write_state, unit, error) proc" where
  "mesh_write_loop = loopM mesh_write_step"

section \<open>Specification of the loops\<close>

text \<open>What a server sends to its mesh peers, and the commands it stands for.\<close>

datatype announcement = Forward ForwardPacket | Announce PublicKey

fun announcement_message :: "announcement \<Rightarrow> Message" where
  "announcement_message (Forward p) = \<lparr>msg_ty = ForwardPacket, msg_buffer = forward_packet_bytes p\<rparr>"
| "announcement_message (Announce k) = \<lparr>msg_ty = PeerPresent, msg_buffer = peer_present_bytes k\<rparr>"

fun valid_announcement :: "announcement \<Rightarrow> bool" where
  "valid_announcement (Forward p) \<longleftrightarrow> valid_ForwardPacket p \<and> length (wire_ForwardPacket p) < 2 ^ 32"
| "valid_announcement (Announce k) \<longleftrightarrow> valid_PublicKey k"

fun announcement_commands :: "sink \<Rightarrow> announcement \<Rightarrow> ServiceCommand list" where
  "announcement_commands sender (Forward p) = [CSendPacket (fwd_source p) (fwd_target p) (fwd_payload p)]"
| "announcement_commands sender (Announce k) = [CPeerPresent k sender]"

lemma announcement_is_frame: "valid_announcement a \<Longrightarrow> is_frame (announcement_message a)"
  by (cases a)
     (simp_all add: is_frame_wire valid_FrameType_def peer_present_bytes_def forward_packet_bytes_def
        forward_packet_frame_def valid_PublicKey_def wire_PeerPresent_def KEY_SIZE_def)

lemma mesh_message_announcement:
  assumes a: "valid_announcement a" and room: "rs_room s = None"
  shows "mesh_message sender (announcement_message a) s
    = Some (Ok (), s\<lparr>rs_commands := rs_commands s @ announcement_commands sender a\<rparr>)"
proof (cases a)
  case (Forward p)
  have "decode_Frame decode_ForwardPacket (forward_packet_bytes p) = Some (Ok (forward_packet_frame p), [])"
    unfolding forward_packet_bytes_def
    using a Forward f_ForwardPacket.frame.exact_decodes [OF valid_frames(5)] by simp
  then show ?thesis
    using room Forward
    by (simp add: mesh_message_def run_decoder_Ok send_command_def forward_packet_frame_def)
next
  case (Announce k)
  let ?f = "\<lparr>frame_type = PeerPresent, inner = SizeWrapper \<lparr>present_public_key = k\<rparr>\<rparr>"
  have "decode_Frame decode_PeerPresent (peer_present_bytes k) = Some (Ok ?f, [])"
    unfolding peer_present_bytes_def
    using a Announce f_PeerPresent.frame.exact_decodes [OF valid_frames(4)] by simp
  then show ?thesis
    using room Announce by (simp add: mesh_message_def run_decoder_Ok send_command_def unwrapM_def)
qed

interpretation mr: command_reader "mesh_message sender" announcement_message valid_announcement
    "announcement_commands sender" for sender
  by unfold_locales (simp_all add: announcement_is_frame mesh_message_announcement)

lemma mesh_read_loop_eq: "mesh_read_loop sender = loopM (read_step (mesh_message sender))"
  by (simp add: mesh_read_loop_def mesh_read_step_def read_step_def)

text \<open>The commands of a write loop as announcements to the mesh peer \<open>pk\<close>.\<close>

fun announcement_of :: "WriteLoopCommands \<Rightarrow> announcement option" where
  "announcement_of (WSendPacket source target payload) = Some (Forward (forward_packet_new source target payload))"
| "announcement_of (WPeerPresent k) = Some (Announce k)"
| "announcement_of WStop = None"

fun for_peer :: "PublicKey \<Rightarrow> WriteLoopCommands \<Rightarrow> bool" where
  "for_peer pk (WSendPacket source target payload) \<longleftrightarrow> target = pk"
| "for_peer pk _ \<longleftrightarrow> False"

fun mirrored :: "sink \<Rightarrow> WriteLoopCommands \<Rightarrow> ServiceCommand" where
  "mirrored sender (WSendPacket source target payload) = CSendPacket source target payload"
| "mirrored sender (WPeerPresent k) = CPeerPresent k sender"
| "mirrored sender WStop = CStop"

lemma announcement_of_command:
  assumes "writable pk True c" and "\<not> for_peer pk c"
  shows "\<exists>a. announcement_of c = Some a \<and> valid_announcement a \<and>
    msg_buffer (announcement_message a) = command_bytes pk c \<and>
    announcement_commands sender a = [mirrored sender c]"
  using assms
  by (cases c) (auto simp: valid_ForwardPacket_def forward_packet_new_def wire_ForwardPacket_def
      valid_PublicKey_def KEY_SIZE_def)

lemma announcements_of_commands:
  assumes "\<forall>c \<in> set cs. writable pk True c \<and> \<not> for_peer pk c"
  obtains announced where "\<forall>a \<in> set announced. valid_announcement a"
    and "concat (map (msg_buffer \<circ> announcement_message) announced) = concat (map (command_bytes pk) cs)"
    and "concat (map (announcement_commands sender) announced) = map (mirrored sender) cs"
proof (rule that [of "map (the \<circ> announcement_of) cs"])
  show "\<forall>a \<in> set (map (the \<circ> announcement_of) cs). valid_announcement a"
    using assms announcement_of_command by fastforce
  show "concat (map (msg_buffer \<circ> announcement_message) (map (the \<circ> announcement_of) cs))
      = concat (map (command_bytes pk) cs)"
    using assms by (induction cs) (use announcement_of_command in fastforce)+
  show "concat (map (announcement_commands sender) (map (the \<circ> announcement_of) cs))
      = map (mirrored sender) cs"
    using assms by (induction cs) (use announcement_of_command in fastforce)+
qed

section \<open>Connecting, when everything works\<close>

text \<open>httparse on the response of the server: complete, with its exact length, whatever follows.\<close>

definition response_law :: "parse_response \<Rightarrow> bool" where
  "response_law parse_response \<longleftrightarrow>
     (\<forall>rest. parse_response (http_response @ rest) = Some (Some (length http_response)))"

lemma connect_http_accepts:
  assumes "response_law parse_response" and "length (http_response @ first) \<le> MAX_TCP_PACKET_SIZE"
    and "w_events (l_writer l) = []" and "dr_reader (l_reader l) = Chunk (http_response @ first) # later"
  shows "connect_http parse_response version os l
    = Some (Ok first, l\<lparr>l_reader := (l_reader l)\<lparr>dr_reader := later\<rparr>,
        l_writer := (l_writer l)\<lparr>w_out := w_out (l_writer l) @ connect_request version os\<rparr>\<rparr>)"
  using assms
  by (simp add: connect_http_def link_write_def link_read_def raw_read_def write_all_quiet response_law_def
      Let_def bindM_def)

lemma pending_chain:
  "pending (derp_reader_new (if first = [] then later else Chunk first # later)) = first @ delivered later"
  by (simp add: pending_def derp_reader_new_def)


lemma mesh_exchange_accepts:
  assumes law: "response_law parse_response" and server: "valid_PublicKey pk"
    and socket: "mt_listens s \<and> mt_peer_addr s" "l_writer (mt_link s) = \<lparr>w_out = [], w_events = []\<rparr>"
      "dr_reader (l_reader (mt_link s)) = Chunk (http_response @ first) # later"
      "length (http_response @ first) \<le> MAX_TCP_PACKET_SIZE"
      "first @ delivered later = server_key_bytes pk @ rest"
    and x: "client_info_new lib nonce (mc_secret_key self) pk (Some (mc_meshkey self)) = Ok x"
      "valid_ClientInfo x" "length (wire_ClientInfo x) < 2 ^ 32"
  obtains r1 where "pending r1 = rest"
    and "mesh_exchange parse_response version os lib nonce self s
      = Some (Ok pk, s\<lparr>mt_link := (mt_link s)\<lparr>l_reader := r1, l_writer :=
          \<lparr>w_out = connect_request version os @ client_info_bytes x, w_events = []\<rparr>\<rparr>, mt_peer := Some pk\<rparr>)"
proof -
  let ?w = "\<lparr>w_out = connect_request version os, w_events = []\<rparr>"
  let ?l = "(mt_link s)\<lparr>l_reader := derp_reader_new (if first = [] then later else Chunk first # later),
    l_writer := ?w\<rparr>"
  let ?s0 = "s\<lparr>mt_link := (mt_link s)\<lparr>l_reader := (l_reader (mt_link s))\<lparr>dr_reader := later\<rparr>, l_writer := ?w\<rparr>\<rparr>"
  have stream: "pending (l_reader ?l) = server_key_bytes pk @ rest"
    using socket(5) pending_chain [of first later] by simp
  obtain r1 where r1: "pending r1 = rest"
      "exchange_keys lib nonce (mc_secret_key self) (Some (mc_meshkey self)) ?l
        = Some (Ok pk, ?l\<lparr>l_reader := r1,
            l_writer := (l_writer ?l)\<lparr>w_out := w_out (l_writer ?l) @ client_info_bytes x\<rparr>\<rparr>)"
    by (rule exchange_keys_accepts [OF server stream _ x]) simp
  let ?s1 = "s\<lparr>mt_link := (mt_link s)\<lparr>l_reader := r1, l_writer :=
    \<lparr>w_out = connect_request version os @ client_info_bytes x, w_events = []\<rparr>\<rparr>, mt_peer := Some pk\<rparr>"
  have "stream_peer_addr s = Some (Ok (), s)" using socket(1) by (simp add: stream_peer_addr_def)
  moreover have "on_link (connect_http parse_response version os) s = Some (Ok first, ?s0)"
    using connect_http_accepts [OF law socket(4) _ socket(3)] socket(2) by (simp add: on_link_def)
  moreover have "on_link (chain_reader first) ?s0 = Some (Ok (), s\<lparr>mt_link := ?l\<rparr>)"
    by (simp add: on_link_def chain_reader_def)
  moreover have "on_link (exchange_keys lib nonce (mc_secret_key self) (Some (mc_meshkey self)))
      (s\<lparr>mt_link := ?l\<rparr>) = Some (Ok pk, ?s1\<lparr>mt_peer := mt_peer s\<rparr>)"
    using r1(2) by (simp add: on_link_def)
  moreover have "send_peer_key pk (?s1\<lparr>mt_peer := mt_peer s\<rparr>) = Some (Ok (), ?s1)"
    using socket(1) by (simp add: send_peer_key_def)
  ultimately have "mesh_exchange parse_response version os lib nonce self s = Some (Ok pk, ?s1)"
    unfolding mesh_exchange_def by (simp only: bindM_Ok retM_eq)
  then show thesis using that r1(1) by blast
qed

section \<open>Properties\<close>



text \<open>
  C34. The write loop of the mesh client has no code for packets: the first packet that the service
  routes to a key announced over this connection ends the task in a panic. So does the end of the
  commands. Announcements before it are written.
\<close>

theorem mesh_write_loop_panics:
  assumes "\<forall>k \<in> set ks. valid_PublicKey k" and "w_events w = []" and "\<forall>k. c \<noteq> WPeerPresent k"
  shows "mesh_write_loop \<lparr>ws_recv = map WPeerPresent ks @ c # later, ws_writer = w\<rparr>
      = Some (Panic ''not yet implemented'', \<lparr>ws_recv = later,
          ws_writer = w\<lparr>w_out := w_out w @ concat (map peer_present_bytes ks)\<rparr>\<rparr>) \<and>
    mesh_write_loop \<lparr>ws_recv = map WPeerPresent ks @ [], ws_writer = w\<rparr>
      = Some (Panic ''not yet implemented'', \<lparr>ws_recv = [],
          ws_writer = w\<lparr>w_out := w_out w @ concat (map peer_present_bytes ks)\<rparr>\<rparr>)"
proof -
  have "iterM (length ks) mesh_write_step \<lparr>ws_recv = map WPeerPresent ks @ cs, ws_writer = w\<rparr>
      = Some \<lparr>ws_recv = cs, ws_writer = w\<lparr>w_out := w_out w @ concat (map peer_present_bytes ks)\<rparr>\<rparr>" for cs
    using assms(1,2)
    by (induction ks arbitrary: w)
       (simp_all add: mesh_write_step_def mesh_write_command_def write_peer_present_eq write_all_quiet
          unwrapM_def)
  note loop = loopM_iterM [OF this]
  show ?thesis
    unfolding mesh_write_loop_def loop
    using assms(3) by (cases c) (simp_all add: loopM_Panic mesh_write_step_def mesh_write_command_def)
qed

theorem mesh_write_loop_panics_witness:
  "mesh_write_loop \<lparr>ws_recv = map WPeerPresent [] @
       WSendPacket (PublicKey (replicate 32 2)) (PublicKey (replicate 32 3)) [7] # [],
       ws_writer = \<lparr>w_out = [], w_events = []\<rparr>\<rparr>
     = Some (Panic ''not yet implemented'', \<lparr>ws_recv = [], ws_writer = \<lparr>w_out = [], w_events = []\<rparr>\<rparr>)"
  using mesh_write_loop_panics [of "[]" "\<lparr>w_out = [], w_events = []\<rparr>"
      "WSendPacket (PublicKey (replicate 32 2)) (PublicKey (replicate 32 3)) [7]" "[]"]
  by simp


text \<open>
  C4. A mesh client joins a server. Let the server hold \<open>server\<close> and the client \<open>self\<close>. The client reads
  the HTTP response, with the first bytes of the protocol possibly in the same read and the rest cut in
  any way. Then \<open>start\<close> returns the public key of the server, and the task goes on to subscribe, having
  written the HTTP request, its information \<open>info\<close> and the subscription. The server that accepts that
  request and reads \<open>info\<close> identifies the client by its public key and gets the mesh key of the client.
\<close>

theorem mesh_client_joins:
  assumes lib: "key_law lib" "box_law lib" "json_law lib" "response_law parse_response"
    and keys: "valid_SecretKey server" "valid_SecretKey (mc_secret_key self)" "length nonce = 24"
    and meshkey: "plain_meshkey (mc_meshkey self)" "mc_meshkey self \<noteq> []" "length (mc_meshkey self) \<le> 918"
    and socket: "connect (mc_addr self) = Some s" "mt_listens s \<and> mt_peer_addr s"
      "l_writer (mt_link s) = \<lparr>w_out = [], w_events = []\<rparr>"
      "dr_reader (l_reader (mt_link s)) = Chunk (http_response @ first) # later"
      "length (http_response @ first) \<le> MAX_TCP_PACKET_SIZE"
      "first @ delivered later
        = server_key_bytes (secret_key_public (box_public_key lib) server) @ server_info_bytes @ rest"
    and http: "0 < length (connect_request version os)" "length (connect_request version os) < UPGRADE_MSG_SIZE"
      "parse_request (connect_request version os
         @ replicate (UPGRADE_MSG_SIZE - length (connect_request version os)) 0) = Some (Some n, hs)"
      "n \<le> UPGRADE_MSG_SIZE" "validate_headers hs = Ok ()"
  shows "mesh_start parse_response version os lib nonce connect sender self
      = Some (Ok (sender, secret_key_public (box_public_key lib) server)) \<and>
    (\<exists>info s'. bindM (mesh_exchange parse_response version os lib nonce self) (\<lambda>_. mesh_subscribe) s
        = Some (Ok (), s') \<and>
      w_out (l_writer (mt_link s')) = connect_request version os @ info @ watch_conns_bytes \<and>
      pending (l_reader (mt_link s')) = rest \<and>
      (\<exists>c. handle_handshake parse_request lib server
        \<lparr>c_in = Chunk (connect_request version os) # Chunk info # others, c_w = \<lparr>w_out = [], w_events = []\<rparr>\<rparr>
        = Some (Ok (secret_key_public (box_public_key lib) (mc_secret_key self), Some (mc_meshkey self)), c)))"
proof -
  let ?pk = "secret_key_public (box_public_key lib) server"
  obtain x where x: "client_info_new lib nonce (mc_secret_key self) ?pk (Some (mc_meshkey self)) = Ok x"
      "valid_ClientInfo x" "length (wire_ClientInfo x) = 101 + length (mc_meshkey self)"
      "client_info_complete lib server x
        = Ok \<lparr>complete_public_key = secret_key_public (box_public_key lib) (mc_secret_key self),
              complete_nonce = nonce,
              complete_payload = \<lparr>payload_version = 2, payload_meshkey = mc_meshkey self\<rparr>\<rparr>"
    by (rule client_info_new_complete [OF lib(1-3) keys, of "Some (mc_meshkey self)"])
       (use meshkey(1) in \<open>simp_all add: meshkey_sent_def\<close>)
  note server = public_valid [OF lib(1) keys(1)]
  have len: "length (wire_ClientInfo x) < 2 ^ 32" "length (client_info_bytes x) \<le> CLIENT_INFO_SIZE"
    using x(3) meshkey(3) by (simp_all add: length_client_info_bytes CLIENT_INFO_SIZE_def)
  obtain r1 where r1: "pending r1 = server_info_bytes @ rest"
    and ex: "mesh_exchange parse_response version os lib nonce self s
      = Some (Ok ?pk, s\<lparr>mt_link := (mt_link s)\<lparr>l_reader := r1, l_writer :=
          \<lparr>w_out = connect_request version os @ client_info_bytes x, w_events = []\<rparr>\<rparr>, mt_peer := Some ?pk\<rparr>)"
    by (rule mesh_exchange_accepts [OF lib(4) server socket(2-6) x(1,2) len(1)])
  obtain r2 where r2: "read_server_info r1 = Some (Ok (), r2)" "pending r2 = rest"
    using read_server_info_accepts [OF r1] by blast
  have "\<exists>s'. bindM (mesh_exchange parse_response version os lib nonce self) (\<lambda>_. mesh_subscribe) s
        = Some (Ok (), s') \<and>
      w_out (l_writer (mt_link s')) = connect_request version os @ client_info_bytes x @ watch_conns_bytes \<and>
      pending (l_reader (mt_link s')) = rest"
    using ex r2
    by (simp add: mesh_subscribe_def on_link_def link_read_def link_write_def write_watch_conns_eq
        write_all_quiet bindM_def)
  moreover have "mesh_start parse_response version os lib nonce connect sender self = Some (Ok (sender, ?pk))"
    using ex socket(1) by (simp add: mesh_start_def)
  ultimately show ?thesis
    using meshkey(2) handle_handshake_accepts
      [where parse_request = parse_request, OF http server x(2) len(2) x(4), of others]
    by auto
qed

definition http_head :: parse_response where
  "http_head data = (if take 19 data = http_response then Some (Some 19) else Some None)"

lemma http_head_law: "response_law http_head"
  by (simp add: response_law_def http_head_def http_response_def ascii_def)

theorem mesh_client_joins_witness:
  "\<exists>connect self. mc_meshkey self = ascii ''key'' \<and>
     mesh_start http_head (ascii ''0.1'') (ascii ''linux'') plain_library (replicate 24 3) connect 0 self
       = Some (Ok (0, PublicKey (replicate 32 1)))"
proof -
  let ?self = "\<lparr>mc_addr = [], mc_secret_key = SecretKey (replicate 32 2), mc_meshkey = ascii ''key''\<rparr>"
  let ?s = "\<lparr>mt_link = \<lparr>l_reader = derp_reader_new [Chunk (http_response @ [1]),
      Chunk (tl (server_key_bytes (PublicKey (replicate 32 1)) @ server_info_bytes))],
      l_writer = \<lparr>w_out = [], w_events = []\<rparr>\<rparr>,
    mt_peer_addr = True, mt_peer = None, mt_listens = True, mt_commands = [], mt_room = None\<rparr>"
  have pub: "secret_key_public (box_public_key plain_library) (SecretKey bs) = PublicKey bs" for bs
    by (simp add: secret_key_public_def plain_library_def)
  have "server_key_bytes k = 1 # tl (server_key_bytes k)" for k
    by (simp add: server_key_bytes_def wire_Frame_def wire_FrameType_def server_key_frame_def)
  then have first: "1 # tl (server_key_bytes k @ server_info_bytes) = server_key_bytes k @ server_info_bytes" for k
    by (metis append_Cons list.sel(3))
  have "mesh_start http_head (ascii ''0.1'') (ascii ''linux'') plain_library (replicate 24 3) (\<lambda>_. Some ?s) 0 ?self
      = Some (Ok (0, secret_key_public (box_public_key plain_library) (SecretKey (replicate 32 1))))"
    by (rule conjunct1, rule mesh_client_joins [where parse_request = accept_request and n = 18
          and hs = "[\<lparr>h_name = ascii ''Upgrade'', h_value = ascii ''DERP''\<rparr>]" and s = ?s and first = "[1]"
          and later = "[Chunk (tl (server_key_bytes (PublicKey (replicate 32 1)) @ server_info_bytes))]"
          and rest = "[]", OF plain_library_laws http_head_law _ _ _ _ _ _ _ _ _ _ _ _ _ _ _ _ accept_request_headers])
       (use first [of "PublicKey (replicate 32 1)"] in \<open>simp_all add: pub valid_SecretKey_def KEY_SIZE_def
          plain_meshkey_def ascii_def derp_reader_new_def MAX_TCP_PACKET_SIZE_def http_response_def
          UPGRADE_MSG_SIZE_def accept_request_def connect_request_def\<close>)
  then show ?thesis unfolding pub by (intro exI [of _ "\<lambda>_. Some ?s"] exI [of _ ?self]) simp
qed

end
