(* ===== verification/Service.thy ===== *)
theory Service
  imports Mesh_Client "HOL-Library.AList"
begin

text \<open>
  The service (dersp/src/service.rs) and what it shares with the tasks it starts.

  \<^item> A \<open>HashMap\<close> is an association list with distinct keys; nothing below depends on its order.
  \<^item> An \<open>endpoint\<close> is one connection after its handshake: the role it was given, the channel into its
    write loop (capacity 1), its write half and its read half, and whether the two loops still run. A
    \<open>sink\<close> is the position of an endpoint. \<open>ep_writer\<close> records what the write loop has written.
  \<^item> The command loop is suspended in one of the states of \<open>loop_state\<close>: waiting for a command, waiting
    for room in the channel of a sink, or ended. Each \<open>spawn\<close> of a notification is a list of the
    announcements it still has to send.
  \<^item> The random keys of \<open>SecretKey::gen\<close> are arguments, as is the outcome of \<open>peer_addr\<close>.
\<close>

section \<open>State\<close>

record DerpService =
  peers_sinks :: "(PublicKey \<times> sink) list"
  mesh :: "(PublicKey \<times> sink) list"
  svc_meshkey :: "bytes option"

datatype role = ClientRole PublicKey bool | MeshRole

record endpoint =
  ep_role :: role
  ep_queue :: "WriteLoopCommands list"
  ep_writing :: bool
  ep_writer :: writer
  ep_reading :: bool
  ep_reader :: DerpReader

datatype loop_state = Waiting | Sending sink WriteLoopCommands | Finished

record system =
  sys_service :: DerpService
  sys_endpoints :: "endpoint list"
  sys_commands :: "ServiceCommand list"
  sys_loop :: loop_state
  sys_tasks :: "(sink \<times> PublicKey) list list"

section \<open>New clients\<close>

definition mesh_access :: "bytes option \<Rightarrow> bytes option \<Rightarrow> PublicKey \<Rightarrow> bool result" where
  "mesh_access server_meshkey client_meshkey client_pk =
     (case (server_meshkey, client_meshkey) of
        (None, None) \<Rightarrow> Ok False
      | (None, Some _) \<Rightarrow> Err (MeshWithoutKey client_pk)
      | (Some _, None) \<Rightarrow> Ok False
      | (Some server_meshkey, Some client_meshkey) \<Rightarrow>
          if server_meshkey = client_meshkey then Ok True else Err (MeshWrongKey client_pk))"

definition spawn_endpoint :: "role \<Rightarrow> conn \<Rightarrow> (system, sink, error) proc" where
  "spawn_endpoint rl socket s =
     Some (Ok (length (sys_endpoints s)),
       s\<lparr>sys_endpoints := sys_endpoints s @
         [\<lparr>ep_role = rl, ep_queue = [], ep_writing = True, ep_writer = (c_w socket)\<lparr>w_out := []\<rparr>,
           ep_reading = True, ep_reader = derp_reader_new (c_in socket)\<rparr>]\<rparr>)"

text \<open>\<open>Client::new\<close> and \<open>Client::run\<close>: two halves of the socket, two tasks, one sink.\<close>

record Client =
  cl_socket :: conn
  cl_pk :: PublicKey
  cl_can_mesh :: bool

definition client_new :: "bool \<Rightarrow> conn \<Rightarrow> PublicKey \<Rightarrow> bool \<Rightarrow> Client result" where
  "client_new peer_addr socket pk can_mesh =
     (if peer_addr then Ok \<lparr>cl_socket = socket, cl_pk = pk, cl_can_mesh = can_mesh\<rparr> else Err IoError)"

definition client_run :: "Client \<Rightarrow> (system, sink, error) proc" where
  "client_run client = spawn_endpoint (ClientRole (cl_pk client) (cl_can_mesh client)) (cl_socket client)"

definition notify_all_mesh_peers :: "PublicKey \<Rightarrow> system \<Rightarrow> system" where
  "notify_all_mesh_peers client_pk s =
     s\<lparr>sys_tasks := sys_tasks s @ [map (\<lambda>(peer, sink). (sink, client_pk)) (mesh (sys_service s))]\<rparr>"

definition insert_peer :: "PublicKey \<Rightarrow> sink \<Rightarrow> system \<Rightarrow> system" where
  "insert_peer pk sink s =
     s\<lparr>sys_service := (sys_service s)\<lparr>peers_sinks := AList.update pk sink (peers_sinks (sys_service s))\<rparr>\<rparr>"

definition insert_mesh :: "PublicKey \<Rightarrow> sink \<Rightarrow> system \<Rightarrow> system" where
  "insert_mesh pk sink s =
     s\<lparr>sys_service := (sys_service s)\<lparr>mesh := AList.update pk sink (mesh (sys_service s))\<rparr>\<rparr>"

definition add_new_client ::
  "bool \<Rightarrow> conn \<Rightarrow> PublicKey \<Rightarrow> bytes option \<Rightarrow> (system, unit, error) proc" where
  "add_new_client peer_addr socket client_pk meshkey s =
     bindM (liftM (mesh_access (svc_meshkey (sys_service s)) meshkey client_pk)) (\<lambda>can_mesh.
     bindM (liftM (client_new peer_addr socket client_pk can_mesh)) (\<lambda>client.
     bindM (client_run client) (\<lambda>sink s.
       Some (Ok (), notify_all_mesh_peers client_pk (insert_peer client_pk sink s))))) s"

definition handle_client ::
  "parse_request \<Rightarrow> library \<Rightarrow> SecretKey \<Rightarrow> bool \<Rightarrow> conn \<Rightarrow> (system, unit, error) proc" where
  "handle_client parse_request lib sk peer_addr socket s =
     (case handle_handshake parse_request lib sk socket of
        None \<Rightarrow> None
      | Some (Ok (client_pk, meshkey), socket') \<Rightarrow> add_new_client peer_addr socket' client_pk meshkey s
      | Some (Err e, socket') \<Rightarrow> Some (Err e, s)
      | Some (Panic msg, socket') \<Rightarrow> Some (Panic msg, s))"

section \<open>Start-up\<close>

text \<open>
  One mesh peer of the configuration: resolving it may fail, which ends \<open>DerpService::new\<close>; starting it
  may fail, which is only logged. \<open>started\<close> is the result of \<open>start\<close>, the socket and the peer's key.
\<close>

definition start_mesh_peer ::
  "MeshClient result \<Rightarrow> (conn \<times> PublicKey) result \<Rightarrow> (system, unit, error) proc" where
  "start_mesh_peer resolved started =
     bindM (liftM resolved) (\<lambda>mesh_client.
       case started of
         Ok (socket, mesh_peer_pk) \<Rightarrow>
           bindM (spawn_endpoint MeshRole socket) (\<lambda>sender s. Some (Ok (), insert_mesh mesh_peer_pk sender s))
       | Err e \<Rightarrow> retM ()
       | Panic msg \<Rightarrow> retM ())"

definition empty_service :: "bytes option \<Rightarrow> system" where
  "empty_service meshkey =
     \<lparr>sys_service = \<lparr>peers_sinks = [], mesh = [], svc_meshkey = meshkey\<rparr>,
      sys_endpoints = [], sys_commands = [], sys_loop = Waiting, sys_tasks = []\<rparr>"

fun start_mesh_peers ::
  "(MeshClient result \<times> (conn \<times> PublicKey) result) list \<Rightarrow> (system, unit, error) proc" where
  "start_mesh_peers [] = retM ()"
| "start_mesh_peers ((resolved, started) # peers) =
     bindM (start_mesh_peer resolved started) (\<lambda>_. start_mesh_peers peers)"

definition derp_service_new ::
  "bytes option \<Rightarrow> (MeshClient result \<times> (conn \<times> PublicKey) result) list \<Rightarrow> (unit result \<times> system) option" where
  "derp_service_new meshkey mesh_peers =
     (case meshkey of
        Some _ \<Rightarrow> start_mesh_peers mesh_peers (empty_service meshkey)
      | None \<Rightarrow> Some (Ok (), empty_service meshkey))"

section \<open>The command loop\<close>

definition notify_about_all_clients :: "sink \<Rightarrow> PublicKey list \<Rightarrow> system \<Rightarrow> system" where
  "notify_about_all_clients mesh_sink clients_pk s =
     s\<lparr>sys_tasks := sys_tasks s @ [map (\<lambda>pk. (mesh_sink, pk)) clients_pk]\<rparr>"

fun handle_command :: "ServiceCommand \<Rightarrow> system \<Rightarrow> system" where
  "handle_command (CSendPacket source target payload) s =
     (case map_of (peers_sinks (sys_service s)) target of
        Some sink \<Rightarrow> s\<lparr>sys_loop := Sending sink (WSendPacket source target payload)\<rparr>
      | None \<Rightarrow> s)"
| "handle_command (CSubscribeForPeerChanges mesh_peer_pk mesh_sink) s =
     (let s = insert_mesh mesh_peer_pk mesh_sink s;
          current_peers = filter (\<lambda>pk. pk \<notin> fst ` set (mesh (sys_service s)))
            (map fst (peers_sinks (sys_service s)))
      in notify_about_all_clients mesh_sink current_peers s)"
| "handle_command (CPeerPresent pk sink) s =
     (case map_of (peers_sinks (sys_service s)) pk of
        Some _ \<Rightarrow> s
      | None \<Rightarrow> insert_peer pk sink s)"
| "handle_command CStop s = s\<lparr>sys_loop := Finished\<rparr>"

text \<open>
  The two places where the loop waits: \<open>r.recv()\<close>, and \<open>sink.send(..)\<close>, which is an error when the write
  loop of the sink has ended and then ends the command loop.
\<close>

definition command_recv :: "system \<Rightarrow> system option" where
  "command_recv s =
     (case (sys_loop s, sys_commands s) of
        (Waiting, c # commands) \<Rightarrow> Some (handle_command c (s\<lparr>sys_commands := commands\<rparr>))
      | _ \<Rightarrow> None)"

definition CHANNEL_SIZE :: nat where
  "CHANNEL_SIZE = 1"

definition send_sink :: "sink \<Rightarrow> WriteLoopCommands \<Rightarrow> system \<Rightarrow> (unit result \<times> system) option" where
  "send_sink sink c s =
     (let e = sys_endpoints s ! sink
      in if \<not> sink < length (sys_endpoints s) \<or> \<not> ep_writing e then Some (Err SendFailed, s)
         else if length (ep_queue e) < CHANNEL_SIZE
              then Some (Ok (), s\<lparr>sys_endpoints := (sys_endpoints s)[sink := e\<lparr>ep_queue := ep_queue e @ [c]\<rparr>]\<rparr>)
              else None)"

definition command_send :: "system \<Rightarrow> system option" where
  "command_send s =
     (case sys_loop s of
        Sending sink c \<Rightarrow>
          (case send_sink sink c s of
             None \<Rightarrow> None
           | Some (Ok _, s') \<Rightarrow> Some (s'\<lparr>sys_loop := Waiting\<rparr>)
           | Some (_, s') \<Rightarrow> Some (s'\<lparr>sys_loop := Finished\<rparr>))
      | _ \<Rightarrow> None)"

end
