(* ===== verification/System.thy ===== *)
theory System
  imports Service
begin

text \<open>
  The running server as a transition system: the tasks of Service, Client and Mesh_Client interleaved
  at the points where they wait. One step is one accepted connection, one started mesh peer, one
  iteration of a read loop or of a write loop, one of the two halves of an iteration of the command
  loop, or one announcement sent by a notification task. The steps run the definitions of the component
  theories; what the peers send is arbitrary, it is part of the endpoints.

  A read loop hands its command over when the channel (capacity 1) has room. The order of the entries
  of a hash map is not fixed, so a notification task may send its announcements in any order.
\<close>

section \<open>Steps of the loops\<close>

definition read_step_of :: "role \<Rightarrow> sink \<Rightarrow> (read_state, unit option, error) proc" where
  "read_step_of rl sink =
     (case rl of
        ClientRole pk can_mesh \<Rightarrow> client_read_step pk can_mesh sink
      | MeshRole \<Rightarrow> mesh_read_step sink)"

definition write_command_of :: "role \<Rightarrow> WriteLoopCommands \<Rightarrow> (writer, unit option, error) proc" where
  "write_command_of rl =
     (case rl of
        ClientRole pk can_mesh \<Rightarrow> client_write_command pk can_mesh
      | MeshRole \<Rightarrow> mesh_write_command)"

definition continues :: "unit option result \<Rightarrow> bool" where
  "continues r \<longleftrightarrow> r = Ok None"

definition update_endpoint :: "sink \<Rightarrow> (endpoint \<Rightarrow> endpoint) \<Rightarrow> system \<Rightarrow> system" where
  "update_endpoint i f s = s\<lparr>sys_endpoints := (sys_endpoints s)[i := f (sys_endpoints s ! i)]\<rparr>"

definition reader_state :: "sink \<Rightarrow> system \<Rightarrow> read_state" where
  "reader_state i s =
     \<lparr>rs_reader = ep_reader (sys_endpoints s ! i), rs_commands = sys_commands s,
      rs_room = (if sys_loop s = Finished then Some 0 else None)\<rparr>"

inductive sys_step :: "parse_request \<Rightarrow> library \<Rightarrow> system \<Rightarrow> system \<Rightarrow> bool"
  for parse_request :: parse_request and lib :: library where
  accept: "handle_client parse_request lib sk peer_addr socket s = Some (r, s') \<Longrightarrow>
    sys_step parse_request lib s s'"
| mesh_peer: "svc_meshkey (sys_service s) \<noteq> None \<Longrightarrow>
    start_mesh_peer resolved started s = Some (r, s') \<Longrightarrow> sys_step parse_request lib s s'"
| read_one: "i < length (sys_endpoints s) \<Longrightarrow> ep_reading (sys_endpoints s ! i) \<Longrightarrow>
    length (sys_commands s) < CHANNEL_SIZE \<or> sys_loop s = Finished \<Longrightarrow>
    read_step_of (ep_role (sys_endpoints s ! i)) i (reader_state i s) = Some (r, t) \<Longrightarrow>
    sys_step parse_request lib s
      (update_endpoint i (\<lambda>e. e\<lparr>ep_reading := continues r, ep_reader := rs_reader t\<rparr>)
        (s\<lparr>sys_commands := rs_commands t\<rparr>))"
| recv: "command_recv s = Some s' \<Longrightarrow> sys_step parse_request lib s s'"
| send: "command_send s = Some s' \<Longrightarrow> sys_step parse_request lib s s'"
| notify: "t < length (sys_tasks s) \<Longrightarrow> (sink, k) \<in> set (sys_tasks s ! t) \<Longrightarrow>
    send_sink sink (WPeerPresent k) s = Some (r, s') \<Longrightarrow>
    sys_step parse_request lib s
      (s'\<lparr>sys_tasks := (sys_tasks s)[t := remove1 (sink, k) (sys_tasks s ! t)]\<rparr>)"
| write_one: "i < length (sys_endpoints s) \<Longrightarrow> ep_writing (sys_endpoints s ! i) \<Longrightarrow>
    ep_queue (sys_endpoints s ! i) = c # queue \<Longrightarrow>
    write_command_of (ep_role (sys_endpoints s ! i)) c (ep_writer (sys_endpoints s ! i)) = Some (r, w) \<Longrightarrow>
    sys_step parse_request lib s
      (update_endpoint i (\<lambda>e. e\<lparr>ep_queue := queue, ep_writing := continues r, ep_writer := w\<rparr>) s)"
| close: "i < length (sys_endpoints s) \<Longrightarrow> ep_queue (sys_endpoints s ! i) = [] \<Longrightarrow>
    sys_step parse_request lib s (update_endpoint i (\<lambda>e. e\<lparr>ep_writing := False\<rparr>) s)"

abbreviation sys_steps :: "parse_request \<Rightarrow> library \<Rightarrow> system \<Rightarrow> system \<Rightarrow> bool" where
  "sys_steps parse_request lib \<equiv> (sys_step parse_request lib)\<^sup>*\<^sup>*"

definition reachable :: "parse_request \<Rightarrow> library \<Rightarrow> bytes option \<Rightarrow> system \<Rightarrow> bool" where
  "reachable parse_request lib meshkey s \<longleftrightarrow> sys_steps parse_request lib (empty_service meshkey) s"

section \<open>The invariant\<close>

text \<open>
  \<open>may_mesh s i\<close>: endpoint \<open>i\<close> is a connection to a configured mesh peer, or a client that has shown the
  mesh key. \<open>private_to pk e\<close>: all that the write loop of \<open>e\<close> has written are packets for \<open>pk\<close>; the last
  one may be cut off where the connection failed.
\<close>

definition may_mesh :: "system \<Rightarrow> sink \<Rightarrow> bool" where
  "may_mesh s i \<longleftrightarrow> i < length (sys_endpoints s) \<and>
     (case ep_role (sys_endpoints s ! i) of ClientRole pk can_mesh \<Rightarrow> can_mesh | MeshRole \<Rightarrow> True)"

definition packets_for :: "PublicKey \<Rightarrow> bytes list \<Rightarrow> bytes" where
  "packets_for pk payloads = concat (map (recv_packet_bytes pk) payloads)"

definition private_to :: "PublicKey \<Rightarrow> endpoint \<Rightarrow> bool" where
  "private_to pk e \<longleftrightarrow>
     (\<exists>payloads n. w_out (ep_writer e) = take n (packets_for pk payloads) \<and>
        (ep_writing e \<longrightarrow> w_out (ep_writer e) = packets_for pk payloads))"

fun endpoint_ok :: "bytes option \<Rightarrow> role \<Rightarrow> endpoint \<Rightarrow> bool" where
  "endpoint_ok meshkey MeshRole e \<longleftrightarrow> meshkey \<noteq> None"
| "endpoint_ok meshkey (ClientRole pk True) e \<longleftrightarrow> valid_PublicKey pk \<and> meshkey \<noteq> None"
| "endpoint_ok meshkey (ClientRole pk False) e \<longleftrightarrow>
     valid_PublicKey pk \<and> private_to pk e \<and> (\<forall>k. WPeerPresent k \<notin> set (ep_queue e))"

fun command_ok :: "system \<Rightarrow> ServiceCommand \<Rightarrow> bool" where
  "command_ok s (CSubscribeForPeerChanges pk i) \<longleftrightarrow>
     i < length (sys_endpoints s) \<and> ep_role (sys_endpoints s ! i) = ClientRole pk True"
| "command_ok s (CPeerPresent pk i) \<longleftrightarrow> i < length (sys_endpoints s)"
| "command_ok s _ \<longleftrightarrow> True"

fun loop_ok :: "system \<Rightarrow> loop_state \<Rightarrow> bool" where
  "loop_ok s (Sending i c) \<longleftrightarrow> i < length (sys_endpoints s) \<and> (\<forall>k. c \<noteq> WPeerPresent k)"
| "loop_ok s _ \<longleftrightarrow> True"

definition sys_inv :: "system \<Rightarrow> bool" where
  "sys_inv s \<longleftrightarrow>
     (\<forall>e \<in> set (sys_endpoints s). endpoint_ok (svc_meshkey (sys_service s)) (ep_role e) e) \<and>
     (\<forall>(k, i) \<in> set (peers_sinks (sys_service s)). i < length (sys_endpoints s)) \<and>
     (\<forall>(k, i) \<in> set (mesh (sys_service s)). may_mesh s i) \<and>
     (\<forall>c \<in> set (sys_commands s). command_ok s c) \<and>
     (\<forall>task \<in> set (sys_tasks s). \<forall>(i, k) \<in> set task. may_mesh s i) \<and>
     loop_ok s (sys_loop s)"

section \<open>Endpoints keep their roles\<close>

definition extends :: "system \<Rightarrow> system \<Rightarrow> bool" where
  "extends s s' \<longleftrightarrow> length (sys_endpoints s) \<le> length (sys_endpoints s') \<and>
     (\<forall>i < length (sys_endpoints s). ep_role (sys_endpoints s' ! i) = ep_role (sys_endpoints s ! i))"

lemma may_mesh_extends: "extends s s' \<Longrightarrow> may_mesh s i \<Longrightarrow> may_mesh s' i"
  by (auto simp: extends_def may_mesh_def)

lemma command_ok_extends: "extends s s' \<Longrightarrow> command_ok s c \<Longrightarrow> command_ok s' c"
  by (cases c) (auto simp: extends_def)

lemma loop_ok_extends: "extends s s' \<Longrightarrow> loop_ok s l \<Longrightarrow> loop_ok s' l"
  by (cases l) (auto simp: extends_def)

lemma extends_update:
  "(\<And>e. ep_role (f e) = ep_role e) \<Longrightarrow> extends s (update_endpoint i f s)"
  unfolding extends_def update_endpoint_def
  by simp (metis nth_list_update_eq nth_list_update_neq)

lemma extends_same: "sys_endpoints s' = sys_endpoints s \<Longrightarrow> extends s s'"
  by (simp add: extends_def)

lemma extends_append: "sys_endpoints s' = sys_endpoints s @ es \<Longrightarrow> extends s s'"
  by (simp add: extends_def nth_append)

text \<open>The invariant, part by part, for a step that keeps roles.\<close>

lemma sys_invI:
  assumes inv: "sys_inv s" and ext: "extends s s'"
    and key: "svc_meshkey (sys_service s') = svc_meshkey (sys_service s)"
    and endpoints: "\<And>e. e \<in> set (sys_endpoints s') \<Longrightarrow> e \<notin> set (sys_endpoints s) \<Longrightarrow>
      endpoint_ok (svc_meshkey (sys_service s)) (ep_role e) e"
    and peers: "\<And>k i. (k, i) \<in> set (peers_sinks (sys_service s')) \<Longrightarrow>
      (k, i) \<notin> set (peers_sinks (sys_service s)) \<Longrightarrow> i < length (sys_endpoints s')"
    and mesh: "\<And>k i. (k, i) \<in> set (mesh (sys_service s')) \<Longrightarrow>
      (k, i) \<notin> set (mesh (sys_service s)) \<Longrightarrow> may_mesh s' i"
    and commands: "\<And>c. c \<in> set (sys_commands s') \<Longrightarrow> c \<notin> set (sys_commands s) \<Longrightarrow> command_ok s' c"
    and tasks: "\<And>task i k. task \<in> set (sys_tasks s') \<Longrightarrow> (i, k) \<in> set task \<Longrightarrow>
      \<not> (\<exists>task \<in> set (sys_tasks s). (i, k) \<in> set task) \<Longrightarrow> may_mesh s' i"
    and loop: "sys_loop s' \<noteq> sys_loop s \<Longrightarrow> loop_ok s' (sys_loop s')"
  shows "sys_inv s'"
proof -
  have len: "length (sys_endpoints s) \<le> length (sys_endpoints s')" using ext by (simp add: extends_def)
  have "endpoint_ok (svc_meshkey (sys_service s')) (ep_role e) e" if "e \<in> set (sys_endpoints s')" for e
    using that endpoints inv key unfolding sys_inv_def by metis
  moreover have "i < length (sys_endpoints s')" if "(k, i) \<in> set (peers_sinks (sys_service s'))" for k i
    using that peers [of k i] inv len unfolding sys_inv_def by fastforce
  moreover have "may_mesh s' i" if "(k, i) \<in> set (mesh (sys_service s'))" for k i
    using that mesh [of k i] inv may_mesh_extends [OF ext, of i] unfolding sys_inv_def by fastforce
  moreover have "command_ok s' c" if "c \<in> set (sys_commands s')" for c
    using that commands inv command_ok_extends [OF ext] unfolding sys_inv_def by blast
  moreover have "may_mesh s' i" if "task \<in> set (sys_tasks s')" "(i, k) \<in> set task" for task i k
    using that tasks [of task i k] inv may_mesh_extends [OF ext, of i] unfolding sys_inv_def by fastforce
  moreover have "loop_ok s' (sys_loop s')"
    using loop inv loop_ok_extends [OF ext] unfolding sys_inv_def by metis
  ultimately show ?thesis unfolding sys_inv_def by fast
qed

section \<open>Reading\<close>

text \<open>The commands a read loop may send, given its role and its own sink.\<close>

fun command_from :: "role \<Rightarrow> sink \<Rightarrow> ServiceCommand \<Rightarrow> bool" where
  "command_from (ClientRole pk can_mesh) i (CSendPacket source target payload) \<longleftrightarrow> source = pk"
| "command_from (ClientRole pk can_mesh) i (CSubscribeForPeerChanges k j) \<longleftrightarrow> can_mesh \<and> k = pk \<and> j = i"
| "command_from MeshRole i (CSendPacket source target payload) \<longleftrightarrow> True"
| "command_from MeshRole i (CSubscribeForPeerChanges k j) \<longleftrightarrow> False"
| "command_from rl i (CPeerPresent k j) \<longleftrightarrow> j = i"
| "command_from rl i CStop \<longleftrightarrow> False"

lemma receive_commands: "receive s = Some (r, t) \<Longrightarrow> rs_commands t = rs_commands s \<and> rs_room t = rs_room s"
  by (auto simp: receive_def)

lemma send_command_commands:
  "send_command c s = Some (r, t) \<Longrightarrow> rs_commands t = rs_commands s \<or> rs_commands t = rs_commands s @ [c]"
  by (auto simp: send_command_def split: option.splits nat.splits)

lemma unwrapM_state: "unwrapM m s = Some (r, t) \<Longrightarrow> \<exists>r'. m s = Some (r', t)"
  by (auto simp: unwrapM_def split: option.splits outcome.splits prod.splits)

lemma run_decoder_state: "run_decoder dec buf s = Some (r, t) \<Longrightarrow> t = s"
  by (auto simp: run_decoder_def split: option.splits outcome.splits prod.splits)

lemma bindM_cases:
  assumes "bindM m f s = Some (r, t)"
  obtains x s' where "m s = Some (Ok x, s')" and "f x s' = Some (r, t)"
  | e where "m s = Some (Err e, t)" and "r = Err e"
  | msg where "m s = Some (Panic msg, t)" and "r = Panic msg"
  using assms by (auto simp: bindM_def split: option.splits outcome.splits prod.splits)

lemma decode_then_send:
  assumes "bindM (run_decoder dec buf) (\<lambda>f. send_command (c f)) s = Some (r, t) \<or>
    bindM (run_decoder dec buf) (\<lambda>f. unwrapM (send_command (c f))) s = Some (r, t)"
  shows "rs_commands t = rs_commands s \<or> (\<exists>f. rs_commands t = rs_commands s @ [c f])"
  using assms
  by (elim disjE bindM_cases)
     (auto dest!: run_decoder_state unwrapM_state send_command_commands)

lemma client_message_commands:
  assumes "client_message pk can_mesh i m s = Some (r, t)"
  shows "rs_commands t = rs_commands s \<or>
    (\<exists>c. rs_commands t = rs_commands s @ [c] \<and> command_from (ClientRole pk can_mesh) i c)"
proof (cases "client_handles (msg_ty m)")
  case False
  then show ?thesis using assms by (simp add: client_message_unhandled)
next
  case True
  then consider "msg_ty m = SendPacket" | "msg_ty m = WatchConns" | "msg_ty m = PeerPresent"
    by (auto simp: client_handles_def)
  then show ?thesis
  proof cases
    case 1
    then show ?thesis
      using assms decode_then_send [of "decode_Frame decode_SendPacket" "msg_buffer m"
          "\<lambda>f. CSendPacket pk (send_target (into_inner (inner f))) (send_payload (into_inner (inner f)))" s r t]
      by (fastforce simp: client_message_def Let_def)
  next
    case 2
    then show ?thesis
      using assms by (auto simp: client_message_def split: if_splits dest!: send_command_commands)
  next
    case 3
    then show ?thesis
      using assms decode_then_send [of "decode_Frame decode_PeerPresent" "msg_buffer m"
          "\<lambda>f. CPeerPresent (present_public_key (into_inner (inner f))) i" s r t]
      by (fastforce simp: client_message_def Let_def)
  qed
qed

lemma mesh_message_commands:
  assumes "mesh_message i m s = Some (r, t)"
  shows "rs_commands t = rs_commands s \<or> (\<exists>c. rs_commands t = rs_commands s @ [c] \<and> command_from MeshRole i c)"
proof -
  consider "msg_ty m = PeerPresent" | "msg_ty m = ForwardPacket"
    | "mesh_message i m s = Some (Panic ''not yet implemented'', s)"
    by (cases "msg_ty m") (auto simp: mesh_message_def)
  then show ?thesis
  proof cases
    case 1
    then show ?thesis
      using assms decode_then_send [of "decode_Frame decode_PeerPresent" "msg_buffer m"
          "\<lambda>f. CPeerPresent (present_public_key (into_inner (inner f))) i" s r t]
      by (fastforce simp: mesh_message_def Let_def)
  next
    case 2
    then show ?thesis
      using assms decode_then_send [of "decode_Frame decode_ForwardPacket" "msg_buffer m"
          "\<lambda>f. CSendPacket (fwd_source (into_inner (inner f))) (fwd_target (into_inner (inner f)))
            (fwd_payload (into_inner (inner f)))" s r t]
      by (fastforce simp: mesh_message_def Let_def)
  qed (use assms in simp)
qed

lemma read_step_commands:
  assumes "read_step_of rl i s = Some (r, t)"
  shows "rs_commands t = rs_commands s \<or> (\<exists>c. rs_commands t = rs_commands s @ [c] \<and> command_from rl i c)"
proof (cases rl)
  case (ClientRole pk can_mesh)
  then show ?thesis
    using assms
    by (auto simp: read_step_of_def client_read_step_def elim!: bindM_cases
        dest!: receive_commands client_message_commands)
next
  case MeshRole
  then show ?thesis
    using assms
    by (auto simp: read_step_of_def mesh_read_step_def elim!: bindM_cases
        dest!: receive_commands mesh_message_commands)
qed


section \<open>Writing\<close>

lemma write_all_prefix:
  assumes "write_all bs w = Some (r, w')"
  obtains n where "w_out w' = w_out w @ take n bs" and "r = Ok () \<longrightarrow> take n bs = bs"
proof -
  have "r = fst (write_all_events (w_events w) bs (w_out w))" "w' = snd (write_all_events (w_events w) bs (w_out w))"
    using assms by (simp_all add: write_all_def)
  then show thesis using write_all_events_prefix [of "w_events w" bs "w_out w"] that by blast
qed

lemma encode_recv_packet_cases:
  assumes "valid_PublicKey pk"
  shows "run_encoder (encode_Frame vec_buffer (encode_RecvPacket vec_buffer))
        \<lparr>frame_type = RecvPacket, inner = SizeWrapper \<lparr>recv_target = pk, recv_payload = payload\<rparr>\<rparr> w
      = Some (Ok (recv_packet_bytes pk payload), w) \<or>
    (\<exists>msg. run_encoder (encode_Frame vec_buffer (encode_RecvPacket vec_buffer))
        \<lparr>frame_type = RecvPacket, inner = SizeWrapper \<lparr>recv_target = pk, recv_payload = payload\<rparr>\<rparr> w
      = Some (Panic msg, w))"
proof -
  let ?x = "\<lparr>recv_target = pk, recv_payload = payload\<rparr>"
  let ?f = "\<lparr>frame_type = RecvPacket, inner = SizeWrapper ?x\<rparr>"
  let ?enc = "encode_Frame vec_buffer (encode_RecvPacket vec_buffer) :: (bytes, RecvPacket Frame, error) encoder"
  have x: "valid_RecvPacket ?x" using assms by (simp add: valid_RecvPacket_def)
  show ?thesis
  proof (cases "length (wire_RecvPacket ?x) < 2 ^ 32")
    case True
    then have "?enc ?f []
        = Some (Ok (length (recv_packet_bytes pk payload)), [] @ recv_packet_bytes pk payload)"
      unfolding recv_packet_bytes_def using x
      by (intro e_RecvPacket.frame_vec) (simp add: valid_Frame_def valid_SizeWrapper_def valid_FrameType_def)
    then show ?thesis by (simp add: run_encoder_Ok)
  next
    case False
    then have "\<exists>msg v. ?enc ?f [] = Some (Panic msg, v)"
      by (intro vec.panics_Frame [where wire = wire_RecvPacket] vec.writes_RecvPacket [OF x]) simp_all
    then show ?thesis by (auto simp: run_encoder_def)
  qed
qed

lemma packets_for_snoc: "packets_for pk (ps @ [p]) = packets_for pk ps @ recv_packet_bytes pk p"
  by (simp add: packets_for_def)

text \<open>A client without the mesh key is written nothing but packets for its own key.\<close>

lemma client_write_private:
  assumes pk: "valid_PublicKey pk" and c: "\<forall>k. c \<noteq> WPeerPresent k"
    and w: "w_out w = packets_for pk ps" and step: "client_write_command pk False c w = Some (r, w')"
  shows "\<exists>ps' n. w_out w' = take n (packets_for pk ps') \<and> (r = Ok None \<longrightarrow> w_out w' = packets_for pk ps')"
proof -
  have stays: "?thesis" if "w' = w"
    using that w by (intro exI [of _ ps] exI [of _ "length (packets_for pk ps)"]) simp
  show ?thesis
  proof (cases "\<exists>source payload. c = WSendPacket source pk payload")
    case True
    then obtain source payload where c: "c = WSendPacket source pk payload" by blast
    have "w' = w \<or> (\<exists>r'. write_all (recv_packet_bytes pk payload) w = Some (r', w') \<and> (r = Ok None \<longrightarrow> r' = Ok ()))"
      using step encode_recv_packet_cases [OF pk, of payload w]
      by (auto simp: client_write_command_def c elim!: bindM_cases)
    then show ?thesis
    proof (elim disjE exE conjE)
      fix r' assume "write_all (recv_packet_bytes pk payload) w = Some (r', w')" and r: "r = Ok None \<longrightarrow> r' = Ok ()"
      then obtain n where n: "w_out w' = w_out w @ take n (recv_packet_bytes pk payload)"
          "r' = Ok () \<longrightarrow> take n (recv_packet_bytes pk payload) = recv_packet_bytes pk payload"
        using write_all_prefix by blast
      then show ?thesis
        using r w
        by (intro exI [of _ "ps @ [payload]"] exI [of _ "length (packets_for pk ps) + n"])
           (auto simp: packets_for_snoc)
    qed (rule stays)
  next
    case False
    then have "w' = w"
      using step c by (cases c) (auto simp: client_write_command_def split: if_splits)
    then show ?thesis by (rule stays)
  qed
qed

section \<open>Accepting\<close>

lemma conn_read_Ok: "conn_read m c = Some (Ok x, c') \<Longrightarrow> \<exists>i. m (c_in c) = Some (Ok x, i)"
  by (auto simp: conn_read_def)

lemma run_decoder_Ok_iff:
  "run_decoder dec buf s = Some (Ok x, t) \<longleftrightarrow> t = s \<and> (\<exists>rest. dec buf = Some (Ok x, rest))"
  by (auto simp: run_decoder_def split: option.splits outcome.splits prod.splits)

lemma client_info_complete_key:
  "client_info_complete lib sk x = Ok info \<Longrightarrow> complete_public_key info = ci_public_key x"
  by (auto simp: client_info_complete_def split: option.splits)

lemma client_frame_key:
  "decode_Frame decode_ClientInfo buf = Some (Ok f, rest) \<Longrightarrow> valid_PublicKey (ci_public_key (into_inner (inner f)))"
  using f_ClientInfo.frame.prefix_sound [of buf f rest]
  by (simp add: valid_Frame_def valid_SizeWrapper_def valid_ClientInfo_def)

lemma read_client_info_valid:
  assumes "read_client_info lib sk reads = Some (Ok (pk, meshkey), reads')"
  shows "valid_PublicKey pk"
proof -
  obtain buf f info rest where "decode_Frame decode_ClientInfo buf = Some (Ok f, rest)"
      "client_info_complete lib sk (into_inner (inner f)) = Ok info" "pk = complete_public_key info"
    using assms unfolding read_client_info_def Let_def
    by (fastforce simp: run_decoder_Ok_iff elim!: bindM_OkE split: if_splits)
  then show ?thesis using client_frame_key client_info_complete_key by metis
qed

lemma handle_handshake_valid:
  assumes "handle_handshake parse_request lib sk c = Some (Ok (pk, meshkey), c')"
  shows "valid_PublicKey pk"
  using assms
  by (auto simp: handle_handshake_def bindM_Ok_iff dest!: conn_read_Ok intro: read_client_info_valid
      split: prod.splits)

lemma mesh_access_Ok:
  "mesh_access server_meshkey client_meshkey pk = Ok can_mesh \<Longrightarrow>
   can_mesh = (server_meshkey \<noteq> None \<and> client_meshkey = server_meshkey)"
  by (auto simp: mesh_access_def split: option.splits if_splits)

lemma mesh_access_no_panic: "mesh_access a b pk \<noteq> Panic msg"
  by (auto simp: mesh_access_def split: option.splits if_splits)

lemma set_update_AList: "(k, v) \<in> set (AList.update k' v' al) \<Longrightarrow> (k, v) = (k', v') \<or> (k, v) \<in> set al"
  by (induction al) (auto split: if_splits)


definition fresh_endpoint :: "role \<Rightarrow> conn \<Rightarrow> endpoint" where
  "fresh_endpoint rl socket =
     \<lparr>ep_role = rl, ep_queue = [], ep_writing = True, ep_writer = (c_w socket)\<lparr>w_out := []\<rparr>,
      ep_reading = True, ep_reader = derp_reader_new (c_in socket)\<rparr>"

definition with_endpoint :: "role \<Rightarrow> conn \<Rightarrow> system \<Rightarrow> system" where
  "with_endpoint rl socket s = s\<lparr>sys_endpoints := sys_endpoints s @ [fresh_endpoint rl socket]\<rparr>"

lemma spawn_endpoint_eq:
  "spawn_endpoint rl socket s = Some (Ok (length (sys_endpoints s)), with_endpoint rl socket s)"
  by (simp add: spawn_endpoint_def with_endpoint_def fresh_endpoint_def)

lemma add_new_client_eq:
  "add_new_client peer_addr socket pk meshkey s =
     Some (case mesh_access (svc_meshkey (sys_service s)) meshkey pk of
       Ok can_mesh \<Rightarrow>
         if peer_addr
         then (Ok (), notify_all_mesh_peers pk (insert_peer pk (length (sys_endpoints s))
                 (with_endpoint (ClientRole pk can_mesh) socket s)))
         else (Err IoError, s)
     | Err e \<Rightarrow> (Err e, s)
     | Panic msg \<Rightarrow> (Panic msg, s))"
  by (simp add: add_new_client_def client_new_def client_run_def spawn_endpoint_eq bindM_def
      split: outcome.splits)

lemma add_new_client_cases:
  assumes "add_new_client peer_addr socket pk meshkey s = Some (r, s')"
  obtains "s' = s" and "r \<noteq> Ok ()"
  | can_mesh where "can_mesh = (svc_meshkey (sys_service s) \<noteq> None \<and> meshkey = svc_meshkey (sys_service s))"
      and "r = Ok ()"
      and "s' = notify_all_mesh_peers pk (insert_peer pk (length (sys_endpoints s))
            (with_endpoint (ClientRole pk can_mesh) socket s))"
proof (cases "mesh_access (svc_meshkey (sys_service s)) meshkey pk")
  case (Ok can_mesh)
  show thesis
  proof (cases peer_addr)
    case True
    with assms Ok show thesis by (intro that(2) [OF mesh_access_Ok [OF Ok]]) (simp_all add: add_new_client_eq)
  next
    case False
    with assms Ok show thesis by (intro that(1)) (auto simp: add_new_client_eq)
  qed
next
  case (Err e)
  with assms show thesis by (intro that(1)) (auto simp: add_new_client_eq)
next
  case (Panic msg)
  with assms show thesis by (intro that(1)) (auto simp: add_new_client_eq)
qed

lemma handle_client_cases:
  assumes "handle_client parse_request lib sk peer_addr socket s = Some (r, s')"
  obtains "s' = s"
  | pk can_mesh socket' where "valid_PublicKey pk" and "can_mesh \<longrightarrow> svc_meshkey (sys_service s) \<noteq> None"
      and "s' = notify_all_mesh_peers pk (insert_peer pk (length (sys_endpoints s))
            (with_endpoint (ClientRole pk can_mesh) socket' s))"
proof -
  consider "s' = s"
    | pk meshkey socket' where "handle_handshake parse_request lib sk socket = Some (Ok (pk, meshkey), socket')"
        "add_new_client peer_addr socket' pk meshkey s = Some (r, s')"
    using assms by (auto simp: handle_client_def split: option.splits outcome.splits prod.splits)
  then show thesis
  proof cases
    case (2 pk meshkey socket')
    note pk = handle_handshake_valid [OF 2(1)]
    show thesis
      using 2(2)
    proof (cases rule: add_new_client_cases)
      case 1
      show thesis by (rule that(1)) (rule 1(1))
    next
      case (2 can_mesh)
      show thesis by (rule that(2) [OF pk _ 2(3)]) (simp add: 2(1))
    qed
  qed (rule that(1))
qed

section \<open>Every step keeps the invariant\<close>

lemma endpoint_ok_fresh:
  assumes "\<And>pk can_mesh. rl = ClientRole pk can_mesh \<Longrightarrow> valid_PublicKey pk"
    and "rl = MeshRole \<or> (\<exists>pk. rl = ClientRole pk True) \<Longrightarrow> meshkey \<noteq> None"
  shows "endpoint_ok meshkey rl (fresh_endpoint rl socket)"
proof (cases rl)
  case (ClientRole pk can_mesh)
  have "private_to pk (fresh_endpoint rl socket)"
    by (auto simp: private_to_def fresh_endpoint_def packets_for_def intro: exI [of _ "[]"])
  then show ?thesis using assms ClientRole by (cases can_mesh) (simp_all add: fresh_endpoint_def)
qed (use assms in simp)

lemma sys_inv_mesh: "sys_inv s \<Longrightarrow> (k, i) \<in> set (mesh (sys_service s)) \<Longrightarrow> may_mesh s i"
  by (auto simp: sys_inv_def)

lemma inv_accept:
  assumes inv: "sys_inv s" and step: "handle_client parse_request lib sk peer_addr socket s = Some (r, s')"
  shows "sys_inv s'"
  using step
proof (cases rule: handle_client_cases)
  case (2 pk can_mesh socket')
  let ?e = "fresh_endpoint (ClientRole pk can_mesh) socket'"
  have eps: "sys_endpoints s' = sys_endpoints s @ [?e]"
    by (simp add: 2(3) notify_all_mesh_peers_def insert_peer_def with_endpoint_def)
  have ext: "extends s s'" using eps by (rule extends_append)
  show ?thesis
  proof (rule sys_invI [OF inv ext])
    show "endpoint_ok (svc_meshkey (sys_service s)) (ep_role e) e"
      if "e \<in> set (sys_endpoints s')" "e \<notin> set (sys_endpoints s)" for e
      using that eps 2(1,2) endpoint_ok_fresh [of "ClientRole pk can_mesh" "svc_meshkey (sys_service s)" socket']
      by (auto simp: fresh_endpoint_def)
    show "i < length (sys_endpoints s')"
      if "(k, i) \<in> set (peers_sinks (sys_service s'))" "(k, i) \<notin> set (peers_sinks (sys_service s))" for k i
      using that eps set_update_AList [of k i pk "length (sys_endpoints s)" "peers_sinks (sys_service s)"]
      by (auto simp: 2(3) notify_all_mesh_peers_def insert_peer_def with_endpoint_def)
    show "may_mesh s' i" if "task \<in> set (sys_tasks s')" "(i, k) \<in> set task"
        "\<not> (\<exists>task \<in> set (sys_tasks s). (i, k) \<in> set task)" for task i k
    proof (rule may_mesh_extends [OF ext])
      show "may_mesh s i"
        using that sys_inv_mesh [OF inv]
        by (auto simp: 2(3) notify_all_mesh_peers_def insert_peer_def with_endpoint_def)
    qed
  qed (simp_all add: 2(3) notify_all_mesh_peers_def insert_peer_def with_endpoint_def)
qed (use inv in simp)

lemma inv_mesh_peer:
  assumes inv: "sys_inv s" and key: "svc_meshkey (sys_service s) \<noteq> None"
    and step: "start_mesh_peer resolved started s = Some (r, s')"
  shows "sys_inv s'"
proof -
  have "s' = s \<or> (\<exists>socket k. s' = insert_mesh k (length (sys_endpoints s)) (with_endpoint MeshRole socket s))"
    using step
    by (auto simp: start_mesh_peer_def spawn_endpoint_eq elim!: bindM_cases
        split: outcome.splits prod.splits) blast
  then show ?thesis
  proof (elim disjE exE)
    fix socket k
    assume s': "s' = insert_mesh k (length (sys_endpoints s)) (with_endpoint MeshRole socket s)"
    have eps: "sys_endpoints s' = sys_endpoints s @ [fresh_endpoint MeshRole socket]"
      by (simp add: s' insert_mesh_def with_endpoint_def)
    show ?thesis
    proof (rule sys_invI [OF inv extends_append [OF eps]])
      show "endpoint_ok (svc_meshkey (sys_service s)) (ep_role e) e"
        if "e \<in> set (sys_endpoints s')" "e \<notin> set (sys_endpoints s)" for e
        using that eps key by (auto simp: fresh_endpoint_def)
      show "may_mesh s' i"
        if "(k', i) \<in> set (mesh (sys_service s'))" "(k', i) \<notin> set (mesh (sys_service s))" for k' i
        using that eps set_update_AList [of k' i k "length (sys_endpoints s)" "mesh (sys_service s)"]
        by (auto simp: s' insert_mesh_def with_endpoint_def may_mesh_def nth_append fresh_endpoint_def)
    qed (auto simp: s' insert_mesh_def with_endpoint_def)
  qed (use inv in simp)
qed

lemma update_endpoint_simps [simp]:
  "sys_service (update_endpoint i f s) = sys_service s"
  "sys_commands (update_endpoint i f s) = sys_commands s"
  "sys_loop (update_endpoint i f s) = sys_loop s"
  "sys_tasks (update_endpoint i f s) = sys_tasks s"
  "length (sys_endpoints (update_endpoint i f s)) = length (sys_endpoints s)"
  by (simp_all add: update_endpoint_def)

lemma update_endpoint_new:
  "e \<in> set (sys_endpoints (update_endpoint i f s)) \<Longrightarrow> e \<notin> set (sys_endpoints s) \<Longrightarrow>
   i < length (sys_endpoints s) \<and> e = f (sys_endpoints s ! i)"
  unfolding update_endpoint_def
  using set_update_subset_insert [of "sys_endpoints s" i "f (sys_endpoints s ! i)"]
  by (cases "i < length (sys_endpoints s)") (auto simp: list_update_beyond)

lemma command_from_ok:
  assumes "i < length (sys_endpoints s)" and "command_from (ep_role (sys_endpoints s ! i)) i c"
  shows "command_ok s c"
  using assms by (cases c; cases "ep_role (sys_endpoints s ! i)") auto

lemma inv_read:
  assumes inv: "sys_inv s" and i: "i < length (sys_endpoints s)"
    and step: "read_step_of (ep_role (sys_endpoints s ! i)) i (reader_state i s) = Some (r, t)"
  shows "sys_inv (update_endpoint i (\<lambda>e. e\<lparr>ep_reading := continues r, ep_reader := rs_reader t\<rparr>)
    (s\<lparr>sys_commands := rs_commands t\<rparr>))" (is "sys_inv ?s'")
proof (rule sys_invI [OF inv])
  show ext: "extends s ?s'"
    using extends_update [of "\<lambda>e. e\<lparr>ep_reading := continues r, ep_reader := rs_reader t\<rparr>"
        "s\<lparr>sys_commands := rs_commands t\<rparr>" i]
    by (simp add: extends_def)
  show "endpoint_ok (svc_meshkey (sys_service s)) (ep_role e) e"
    if "e \<in> set (sys_endpoints ?s')" "e \<notin> set (sys_endpoints s)" for e
  proof -
    let ?e = "sys_endpoints s ! i"
    have "endpoint_ok (svc_meshkey (sys_service s)) (ep_role ?e) ?e"
      using inv i unfolding sys_inv_def by simp
    moreover have "e = ?e\<lparr>ep_reading := continues r, ep_reader := rs_reader t\<rparr>"
      using update_endpoint_new [OF that(1)] that(2) by simp
    ultimately show ?thesis
      by (cases "(svc_meshkey (sys_service s), ep_role ?e, ?e)" rule: endpoint_ok.cases)
         (auto simp: private_to_def)
  qed
  show "command_ok ?s' c" if "c \<in> set (sys_commands ?s')" "c \<notin> set (sys_commands s)" for c
  proof (rule command_ok_extends [OF ext])
    have "command_from (ep_role (sys_endpoints s ! i)) i c"
      using that read_step_commands [OF step] by (auto simp: reader_state_def)
    then show "command_ok s c" by (rule command_from_ok [OF i])
  qed
qed auto


lemma inv_loop: "sys_inv s \<Longrightarrow> loop_ok s l \<Longrightarrow> sys_inv (s\<lparr>sys_loop := l\<rparr>)"
  by (rule sys_invI [of s]) (auto simp: extends_def intro: loop_ok_extends [of s])

lemma inv_insert_peer:
  assumes "sys_inv s" and "i < length (sys_endpoints s)"
  shows "sys_inv (insert_peer k i s)"
  by (rule sys_invI [OF assms(1)])
     (use assms(2) in \<open>auto simp: extends_def insert_peer_def dest: set_update_AList\<close>)

lemma inv_insert_mesh:
  assumes "sys_inv s" and "may_mesh s i"
  shows "sys_inv (insert_mesh k i s)"
  by (rule sys_invI [OF assms(1)])
     (use assms(2) in \<open>auto simp: extends_def insert_mesh_def may_mesh_def dest: set_update_AList\<close>)

lemma inv_tasks:
  assumes "sys_inv s" and "\<And>task i k. task \<in> set tasks \<Longrightarrow> (i, k) \<in> set task \<Longrightarrow>
    (\<exists>task \<in> set (sys_tasks s). (i, k) \<in> set task) \<or> may_mesh s i"
  shows "sys_inv (s\<lparr>sys_tasks := tasks\<rparr>)"
proof (rule sys_invI [OF assms(1)])
  show "may_mesh (s\<lparr>sys_tasks := tasks\<rparr>) i"
    if "task \<in> set (sys_tasks (s\<lparr>sys_tasks := tasks\<rparr>))" "(i, k) \<in> set task"
      "\<not> (\<exists>task \<in> set (sys_tasks s). (i, k) \<in> set task)" for task i k
  proof (rule may_mesh_extends [of s])
    show "may_mesh s i" using that assms(2) [of task i k] by simp
  qed (simp add: extends_def)
qed (simp_all add: extends_def)

lemma inv_commands:
  assumes "sys_inv s" and "\<And>c. c \<in> set commands \<Longrightarrow> c \<in> set (sys_commands s)"
  shows "sys_inv (s\<lparr>sys_commands := commands\<rparr>)"
  by (rule sys_invI [OF assms(1)]) (use assms(2) in \<open>auto simp: extends_def\<close>)

lemma inv_handle_command:
  assumes inv: "sys_inv s" and c: "command_ok s c"
  shows "sys_inv (handle_command c s)"
proof (cases c)
  case CStop
  then show ?thesis using inv_loop [OF inv, of Finished] by simp
next
  case (CSendPacket source target payload)
  show ?thesis
  proof (cases "map_of (peers_sinks (sys_service s)) target")
    case (Some i)
    then have "i < length (sys_endpoints s)" using inv map_of_SomeD unfolding sys_inv_def by fastforce
    then show ?thesis using inv_loop [OF inv] CSendPacket Some by simp
  qed (use inv CSendPacket in simp)
next
  case (CSubscribeForPeerChanges pk i)
  then have "may_mesh s i" using c by (simp add: may_mesh_def)
  then have "sys_inv (insert_mesh pk i s)" "may_mesh (insert_mesh pk i s) i"
    using inv_insert_mesh [OF inv] by (simp_all add: may_mesh_def insert_mesh_def)
  then have "sys_inv (notify_about_all_clients i ks (insert_mesh pk i s))" for ks
    unfolding notify_about_all_clients_def by (intro inv_tasks) auto
  then show ?thesis using CSubscribeForPeerChanges by (simp add: Let_def)
next
  case (CPeerPresent k i)
  then show ?thesis using inv c inv_insert_peer [OF inv, of i k] by (simp split: option.splits)
qed

lemma inv_recv:
  assumes inv: "sys_inv s" and step: "command_recv s = Some s'"
  shows "sys_inv s'"
proof -
  obtain c commands where c: "sys_commands s = c # commands" "s' = handle_command c (s\<lparr>sys_commands := commands\<rparr>)"
    using step by (auto simp: command_recv_def split: loop_state.splits list.splits)
  have "sys_inv (s\<lparr>sys_commands := commands\<rparr>)" using inv c(1) by (intro inv_commands) auto
  moreover have "command_ok (s\<lparr>sys_commands := commands\<rparr>) c"
    using inv c(1) command_ok_extends [OF extends_same, of "s\<lparr>sys_commands := commands\<rparr>" s c]
    by (simp add: sys_inv_def)
  ultimately show ?thesis unfolding c(2) by (rule inv_handle_command)
qed

lemma send_sink_cases:
  assumes "send_sink i c s = Some (r, s')"
  obtains "r = Err SendFailed" and "s' = s"
  | "r = Ok ()" and "i < length (sys_endpoints s)" and "ep_writing (sys_endpoints s ! i)"
      and "s' = update_endpoint i (\<lambda>e. e\<lparr>ep_queue := ep_queue e @ [c]\<rparr>) s"
  using assms by (auto simp: send_sink_def Let_def update_endpoint_def split: if_splits)

lemma inv_send_sink:
  assumes inv: "sys_inv s" and step: "send_sink i c s = Some (r, s')"
    and c: "(\<forall>k. c \<noteq> WPeerPresent k) \<or> may_mesh s i"
  shows "sys_inv s'"
  using step
proof (cases rule: send_sink_cases)
  case 2
  let ?e = "sys_endpoints s ! i"
  show ?thesis
    unfolding 2(4)
  proof (rule sys_invI [OF inv extends_update])
    show "endpoint_ok (svc_meshkey (sys_service s)) (ep_role e) e"
      if "e \<in> set (sys_endpoints (update_endpoint i (\<lambda>e. e\<lparr>ep_queue := ep_queue e @ [c]\<rparr>) s))"
        "e \<notin> set (sys_endpoints s)" for e
    proof -
      have "endpoint_ok (svc_meshkey (sys_service s)) (ep_role ?e) ?e"
        using inv 2(2) unfolding sys_inv_def by simp
      moreover have "e = ?e\<lparr>ep_queue := ep_queue ?e @ [c]\<rparr>" using update_endpoint_new [OF that] by blast
      ultimately show ?thesis
        using c by (cases "(svc_meshkey (sys_service s), ep_role ?e, ?e)" rule: endpoint_ok.cases)
          (auto simp: private_to_def may_mesh_def)
    qed
  qed auto
qed (use inv in simp)

lemma inv_send:
  assumes inv: "sys_inv s" and step: "command_send s = Some s'"
  shows "sys_inv s'"
proof -
  obtain i c r s1 where s1: "sys_loop s = Sending i c" "send_sink i c s = Some (r, s1)"
      "s' = s1\<lparr>sys_loop := Waiting\<rparr> \<or> s' = s1\<lparr>sys_loop := Finished\<rparr>"
    using step by (auto simp: command_send_def split: loop_state.splits option.splits prod.splits outcome.splits)
  have "sys_inv s1"
    using inv s1(1) by (intro inv_send_sink [OF inv s1(2)]) (auto simp: sys_inv_def)
  then show ?thesis using s1(3) by (auto intro: inv_loop)
qed

lemma inv_notify:
  assumes inv: "sys_inv s" and t: "t < length (sys_tasks s)" "(i, k) \<in> set (sys_tasks s ! t)"
    and step: "send_sink i (WPeerPresent k) s = Some (r, s')"
  shows "sys_inv (s'\<lparr>sys_tasks := (sys_tasks s)[t := remove1 (i, k) (sys_tasks s ! t)]\<rparr>)"
proof (rule inv_tasks)
  have "may_mesh s i" using inv t nth_mem [OF t(1)] unfolding sys_inv_def by fastforce
  then show "sys_inv s'" using inv_send_sink [OF inv step] by blast
  have tasks: "sys_tasks s' = sys_tasks s" using step by (cases rule: send_sink_cases) auto
  show "(\<exists>task \<in> set (sys_tasks s'). (j, k') \<in> set task) \<or> may_mesh s' j"
    if "task \<in> set ((sys_tasks s)[t := remove1 (i, k) (sys_tasks s ! t)])" "(j, k') \<in> set task" for task j k'
  proof -
    have "task \<in> set (sys_tasks s) \<or> task = remove1 (i, k) (sys_tasks s ! t)"
      using that(1) set_update_subset_insert [of "sys_tasks s" t] by blast
    then show ?thesis
      using that(2) tasks nth_mem [OF t(1)] set_remove1_subset [of "(i, k)" "sys_tasks s ! t"]
      by (metis subsetD)
  qed
qed

lemma inv_write:
  assumes inv: "sys_inv s" and i: "i < length (sys_endpoints s)" "ep_writing (sys_endpoints s ! i)"
      "ep_queue (sys_endpoints s ! i) = c # queue"
    and step: "write_command_of (ep_role (sys_endpoints s ! i)) c (ep_writer (sys_endpoints s ! i)) = Some (r, w)"
  shows "sys_inv (update_endpoint i (\<lambda>e. e\<lparr>ep_queue := queue, ep_writing := continues r, ep_writer := w\<rparr>) s)"
proof (rule sys_invI [OF inv extends_update])
  let ?e = "sys_endpoints s ! i"
  let ?f = "\<lambda>e. e\<lparr>ep_queue := queue, ep_writing := continues r, ep_writer := w\<rparr>"
  have ok: "endpoint_ok (svc_meshkey (sys_service s)) (ep_role ?e) ?e"
    using inv i(1) unfolding sys_inv_def by simp
  show "endpoint_ok (svc_meshkey (sys_service s)) (ep_role e) e"
    if "e \<in> set (sys_endpoints (update_endpoint i ?f s))" "e \<notin> set (sys_endpoints s)" for e
  proof -
    have e: "e = ?f ?e" using update_endpoint_new [OF that] by blast
    show ?thesis
    proof (cases "\<exists>pk. ep_role ?e = ClientRole pk False")
      case True
      then obtain pk where pk: "ep_role ?e = ClientRole pk False" by blast
      then obtain ps where "w_out (ep_writer ?e) = packets_for pk ps" "valid_PublicKey pk"
          "\<forall>k. WPeerPresent k \<notin> set (c # queue)"
        using ok i(2,3) by (auto simp: private_to_def)
      then have "\<exists>ps' n. w_out w = take n (packets_for pk ps') \<and> (r = Ok None \<longrightarrow> w_out w = packets_for pk ps')"
        using client_write_private [of pk c "ep_writer ?e" ps r w] step pk by (auto simp: write_command_of_def)
      then show ?thesis
        using ok i(3) pk e by (auto simp: private_to_def continues_def)
    next
      case False
      then show ?thesis
        using ok e by (cases "(svc_meshkey (sys_service s), ep_role ?e, ?e)" rule: endpoint_ok.cases) auto
    qed
  qed
qed auto

lemma inv_close:
  assumes inv: "sys_inv s" and i: "i < length (sys_endpoints s)"
  shows "sys_inv (update_endpoint i (\<lambda>e. e\<lparr>ep_writing := False\<rparr>) s)"
proof (rule sys_invI [OF inv extends_update])
  let ?e = "sys_endpoints s ! i"
  show "endpoint_ok (svc_meshkey (sys_service s)) (ep_role e) e"
    if "e \<in> set (sys_endpoints (update_endpoint i (\<lambda>e. e\<lparr>ep_writing := False\<rparr>) s))"
      "e \<notin> set (sys_endpoints s)" for e
  proof -
    have "endpoint_ok (svc_meshkey (sys_service s)) (ep_role ?e) ?e"
      using inv i unfolding sys_inv_def by simp
    moreover have "e = ?e\<lparr>ep_writing := False\<rparr>" using update_endpoint_new [OF that] by blast
    ultimately show ?thesis
      by (cases "(svc_meshkey (sys_service s), ep_role ?e, ?e)" rule: endpoint_ok.cases)
         (auto simp: private_to_def)
  qed
qed auto

lemma sys_step_inv: "sys_step parse_request lib s s' \<Longrightarrow> sys_inv s \<Longrightarrow> sys_inv s'"
  by (induction rule: sys_step.induct)
     (blast intro: inv_accept inv_mesh_peer inv_read inv_recv inv_send inv_notify inv_write inv_close)+

lemma sys_steps_inv: "sys_steps parse_request lib s s' \<Longrightarrow> sys_inv s \<Longrightarrow> sys_inv s'"
  by (induction rule: rtranclp_induct) (blast intro: sys_step_inv)+

lemma reachable_inv: "reachable parse_request lib meshkey s \<Longrightarrow> sys_inv s"
  unfolding reachable_def
  by (erule sys_steps_inv) (simp add: sys_inv_def empty_service_def)


section \<open>Start-up\<close>

lemma start_mesh_peers_steps:
  assumes "start_mesh_peers peers s = Some (r, s')" and "svc_meshkey (sys_service s) \<noteq> None"
  shows "sys_steps parse_request lib s s'"
  using assms
proof (induction peers arbitrary: s)
  case (Cons peer peers)
  obtain resolved started where peer: "peer = (resolved, started)" by (cases peer)
  from Cons.prems(1) show ?case
    unfolding peer start_mesh_peers.simps
  proof (cases rule: bindM_cases)
    case (1 u s1)
    have "sys_step parse_request lib s s1" using Cons.prems(2) 1(1) by (rule sys_step.mesh_peer)
    moreover have "svc_meshkey (sys_service s1) = svc_meshkey (sys_service s)"
      using 1(1) by (auto simp: start_mesh_peer_def spawn_endpoint_eq insert_mesh_def with_endpoint_def
          elim!: bindM_cases split: outcome.splits prod.splits)
    ultimately show ?thesis
      using Cons.IH [OF 1(2)] Cons.prems(2) by (simp add: converse_rtranclp_into_rtranclp)
  qed (use Cons.prems(2) in \<open>auto intro: sys_step.mesh_peer\<close>)
qed simp

section \<open>A client that stops the service\<close>

text \<open>One request of the client at endpoint \<open>i\<close> reaches the command channel.\<close>

definition listening :: "sink \<Rightarrow> PublicKey \<Rightarrow> Message list \<Rightarrow> system \<Rightarrow> bool" where
  "listening i pk ms s \<longleftrightarrow> i < length (sys_endpoints s) \<and> ep_reading (sys_endpoints s ! i) \<and>
     ep_role (sys_endpoints s ! i) = ClientRole pk False \<and> messages (ep_reader (sys_endpoints s ! i)) = ms"

lemma request_step:
  assumes s: "listening i pk (request_message q # ms) s" "sys_commands s = []" "sys_loop s \<noteq> Finished"
    and q: "valid_request q"
  obtains r where "sys_step parse_request lib s
      (update_endpoint i (\<lambda>e. e\<lparr>ep_reading := True, ep_reader := r\<rparr>)
        (s\<lparr>sys_commands := request_commands pk False i q\<rparr>))"
    and "messages r = ms"
proof -
  let ?s = "reader_state i s"
  obtain r where r: "receive ?s = Some (Ok (request_message q), ?s\<lparr>rs_reader := r\<rparr>)" "messages r = ms"
    by (rule receive_Cons [of ?s "request_message q" ms]) (use s(1) in \<open>auto simp: reader_state_def listening_def\<close>)
  have "client_message pk False i (request_message q) (?s\<lparr>rs_reader := r\<rparr>)
      = Some (Ok (), ?s\<lparr>rs_reader := r, rs_commands := request_commands pk False i q\<rparr>)"
    using client_message_request [OF q, of "?s\<lparr>rs_reader := r\<rparr>" pk False i] s(2,3) by (simp add: reader_state_def)
  then have "read_step_of (ep_role (sys_endpoints s ! i)) i ?s
      = Some (Ok None, ?s\<lparr>rs_reader := r, rs_commands := request_commands pk False i q\<rparr>)"
    using r(1) s(1) by (simp add: read_step_of_def client_read_step_def listening_def)
  from sys_step.read_one [OF _ _ _ this, of parse_request lib] show thesis
    using that [of r] r(2) s by (simp add: listening_def CHANNEL_SIZE_def continues_def)
qed

text \<open>A packet to a key that is routed to endpoint \<open>i\<close> reaches the command loop.\<close>

lemma packet_steps:
  assumes s: "listening i pk (request_message (Send p) # ms) s" "sys_commands s = []" "sys_loop s = Waiting"
    and p: "valid_request (Send p)" "map_of (peers_sinks (sys_service s)) (send_target p) = Some i"
  obtains s' where "sys_steps parse_request lib s s'" and "listening i pk ms s'" and "sys_commands s' = []"
    and "sys_loop s' = Sending i (WSendPacket pk (send_target p) (send_payload p))"
    and "sys_service s' = sys_service s"
    and "ep_queue (sys_endpoints s' ! i) = ep_queue (sys_endpoints s ! i)"
    and "ep_writing (sys_endpoints s' ! i) = ep_writing (sys_endpoints s ! i)"
proof -
  let ?c = "CSendPacket pk (send_target p) (send_payload p)"
  obtain r where r: "sys_step parse_request lib s
      (update_endpoint i (\<lambda>e. e\<lparr>ep_reading := True, ep_reader := r\<rparr>) (s\<lparr>sys_commands := [?c]\<rparr>))" "messages r = ms"
    using request_step [OF s(1,2) _ p(1), of parse_request lib] s(3) by auto
  let ?s1 = "update_endpoint i (\<lambda>e. e\<lparr>ep_reading := True, ep_reader := r\<rparr>) (s\<lparr>sys_commands := [?c]\<rparr>)"
  let ?s2 = "handle_command ?c (?s1\<lparr>sys_commands := []\<rparr>)"
  have "sys_step parse_request lib ?s1 ?s2"
    by (rule sys_step.recv) (simp add: command_recv_def s(3))
  with r(1) have "sys_steps parse_request lib s ?s2" by (meson converse_rtranclp_into_rtranclp r_into_rtranclp)
  moreover have "?s2 = ?s1\<lparr>sys_commands := [], sys_loop := Sending i (WSendPacket pk (send_target p) (send_payload p))\<rparr>"
    using p(2) by simp
  ultimately show thesis
    using s(1) r(2) by (intro that [of ?s2]) (simp_all add: listening_def update_endpoint_def)
qed

lemma announce_steps:
  assumes s: "listening i pk (request_message (Present k) # ms) s" "sys_commands s = []" "sys_loop s = Waiting"
    and k: "valid_PublicKey k" "map_of (peers_sinks (sys_service s)) k = None"
  obtains s' where "sys_steps parse_request lib s s'" and "listening i pk ms s'" and "sys_commands s' = []"
    and "sys_loop s' = Waiting" and "map_of (peers_sinks (sys_service s')) k = Some i"
    and "ep_queue (sys_endpoints s' ! i) = ep_queue (sys_endpoints s ! i)"
    and "ep_writing (sys_endpoints s' ! i) = ep_writing (sys_endpoints s ! i)"
proof -
  obtain r where r: "sys_step parse_request lib s
      (update_endpoint i (\<lambda>e. e\<lparr>ep_reading := True, ep_reader := r\<rparr>) (s\<lparr>sys_commands := [CPeerPresent k i]\<rparr>))"
      "messages r = ms"
    using request_step [OF s(1,2), of parse_request lib] s(3) k(1) by auto
  let ?s1 = "update_endpoint i (\<lambda>e. e\<lparr>ep_reading := True, ep_reader := r\<rparr>) (s\<lparr>sys_commands := [CPeerPresent k i]\<rparr>)"
  let ?s2 = "insert_peer k i (?s1\<lparr>sys_commands := []\<rparr>)"
  have "sys_step parse_request lib ?s1 ?s2"
    by (rule sys_step.recv) (use k(2) in \<open>simp add: command_recv_def s(3)\<close>)
  with r(1) have "sys_steps parse_request lib s ?s2" by (meson converse_rtranclp_into_rtranclp r_into_rtranclp)
  then show thesis
    using s r(2)
    by (intro that [of ?s2]) (simp_all add: listening_def update_endpoint_def insert_peer_def update_conv')
qed

lemma misrouted_steps:
  assumes s: "listening i pk ms s" "sys_loop s = Sending i (WSendPacket source k payload)" "k \<noteq> pk"
      "ep_writing (sys_endpoints s ! i)" "ep_queue (sys_endpoints s ! i) = []"
  obtains s' where "sys_steps parse_request lib s s'" and "listening i pk ms s'" and "sys_loop s' = Waiting"
    and "sys_commands s' = sys_commands s" and "sys_service s' = sys_service s"
    and "\<not> ep_writing (sys_endpoints s' ! i)"
proof -
  let ?c = "WSendPacket source k payload"
  let ?s1 = "(update_endpoint i (\<lambda>e. e\<lparr>ep_queue := [?c]\<rparr>) s)\<lparr>sys_loop := Waiting\<rparr>"
  let ?s2 = "update_endpoint i (\<lambda>e. e\<lparr>ep_queue := [], ep_writing := continues (Panic ''not yet implemented''),
    ep_writer := ep_writer (sys_endpoints ?s1 ! i)\<rparr>) ?s1"
  have i: "i < length (sys_endpoints s)" using s(1) by (simp add: listening_def)
  have "sys_step parse_request lib s ?s1"
    by (rule sys_step.send)
       (use s i in \<open>simp add: command_send_def send_sink_def CHANNEL_SIZE_def update_endpoint_def\<close>)
  moreover have "sys_step parse_request lib ?s1 ?s2"
    by (rule sys_step.write_one [where c = ?c])
       (use s i in \<open>simp_all add: update_endpoint_def write_command_of_def client_write_command_def listening_def\<close>)
  ultimately have "sys_steps parse_request lib s ?s2" by (meson converse_rtranclp_into_rtranclp r_into_rtranclp)
  then show thesis
    using s i by (intro that [of ?s2]) (simp_all add: listening_def update_endpoint_def continues_def)
qed

lemma finish_step:
  assumes "sys_loop s = Sending i c" and "\<not> ep_writing (sys_endpoints s ! i)"
  shows "sys_step parse_request lib s (s\<lparr>sys_loop := Finished\<rparr>)"
  by (rule sys_step.send) (use assms in \<open>simp add: command_send_def send_sink_def\<close>)

text \<open>The end of the command loop is final.\<close>

lemma finished_step: "sys_step parse_request lib s s' \<Longrightarrow> sys_loop s = Finished \<Longrightarrow> sys_loop s' = Finished"
proof (induction rule: sys_step.induct)
  case (accept sk peer_addr socket s r s')
  from accept(1) show ?case
    by (cases rule: handle_client_cases)
       (use accept(2) in \<open>simp_all add: notify_all_mesh_peers_def insert_peer_def with_endpoint_def\<close>)
next
  case (mesh_peer s resolved started r s')
  then show ?case
    by (auto simp: start_mesh_peer_def spawn_endpoint_eq insert_mesh_def with_endpoint_def
        elim!: bindM_cases split: outcome.splits prod.splits)
next
  case (notify t s sink k r s')
  from notify(3) show ?case by (cases rule: send_sink_cases) (use notify(4) in simp_all)
qed (simp_all add: command_recv_def command_send_def)

lemma finished_steps: "sys_steps parse_request lib s s' \<Longrightarrow> sys_loop s = Finished \<Longrightarrow> sys_loop s' = Finished"
  by (induction rule: rtranclp_induct) (simp_all add: finished_step)


section \<open>A reachable state with one client\<close>

definition joined_info :: ClientInfo where
  "joined_info = \<lparr>ci_public_key = PublicKey (replicate 32 2), ci_nonce = replicate 24 3,
     ci_cipher_text = replicate 16 0 @ client_info_json None\<rparr>"

definition joined :: "reads \<Rightarrow> system" where
  "joined reads = notify_all_mesh_peers (PublicKey (replicate 32 2)) (insert_peer (PublicKey (replicate 32 2)) 0
     (with_endpoint (ClientRole (PublicKey (replicate 32 2)) False)
       \<lparr>c_in = reads, c_w = \<lparr>w_out = [], w_events = []\<rparr>\<rparr> (empty_service None)))"

lemma joined_reachable: "reachable accept_request plain_library None (joined reads)"
proof -
  let ?info = "\<lparr>complete_public_key = PublicKey (replicate 32 2), complete_nonce = replicate 24 3,
    complete_payload = \<lparr>payload_version = 2, payload_meshkey = []\<rparr>\<rparr>"
  let ?req = "ascii ''GET /derp HTTP/1.1''"
  have x: "valid_ClientInfo joined_info" "length (client_info_bytes joined_info) \<le> CLIENT_INFO_SIZE"
    by (simp_all add: joined_info_def valid_ClientInfo_def valid_PublicKey_def KEY_SIZE_def
        length_client_info_bytes wire_ClientInfo_def length_client_info_json meshkey_sent_def CLIENT_INFO_SIZE_def)
  have info: "client_info_complete plain_library (SecretKey (replicate 32 1)) joined_info = Ok ?info"
    by (simp add: client_info_complete_def joined_info_def plain_library_def length_client_info_json meshkey_sent_def)
  have server: "valid_PublicKey (secret_key_public (box_public_key plain_library) (SecretKey (replicate 32 1)))"
    by (rule public_valid [OF plain_library_laws(1)]) (simp add: valid_SecretKey_def KEY_SIZE_def)
  have "\<exists>w. handle_handshake accept_request plain_library (SecretKey (replicate 32 1))
      \<lparr>c_in = Chunk ?req # Chunk (client_info_bytes joined_info) # reads, c_w = \<lparr>w_out = [], w_events = []\<rparr>\<rparr>
    = Some (Ok (PublicKey (replicate 32 2), None), \<lparr>c_in = reads, c_w = \<lparr>w_out = w, w_events = []\<rparr>\<rparr>)"
    using handle_handshake_accepts [OF _ _ _ _ accept_request_headers server x info,
        of ?req accept_request 18 reads]
    by (simp add: ascii_def UPGRADE_MSG_SIZE_def accept_request_def)
  then have "handle_client accept_request plain_library (SecretKey (replicate 32 1)) True
      \<lparr>c_in = Chunk ?req # Chunk (client_info_bytes joined_info) # reads, c_w = \<lparr>w_out = [], w_events = []\<rparr>\<rparr>
      (empty_service None) = Some (Ok (), joined reads)"
    by (auto simp: handle_client_def add_new_client_eq mesh_access_def joined_def empty_service_def
        with_endpoint_def fresh_endpoint_def)
  then show ?thesis unfolding reachable_def by (blast intro: sys_step.accept)
qed

lemma joined_endpoints:
  "sys_endpoints (joined reads) = [fresh_endpoint (ClientRole (PublicKey (replicate 32 2)) False)
     \<lparr>c_in = reads, c_w = \<lparr>w_out = [], w_events = []\<rparr>\<rparr>]"
  by (simp add: joined_def notify_all_mesh_peers_def insert_peer_def with_endpoint_def empty_service_def)

section \<open>Properties\<close>



text \<open>
  C2. Authorisation. In every reachable state the mesh table and every pending announcement name only
  endpoints that may mesh: connections the server itself opened to a configured peer, or clients
  admitted as mesh peers; and there are none at all on a server without a mesh key.
\<close>

theorem mesh_only_authorised:
  assumes "reachable parse_request lib meshkey s"
  shows "(\<forall>(k, i) \<in> set (mesh (sys_service s)). may_mesh s i \<and> svc_meshkey (sys_service s) \<noteq> None) \<and>
    (\<forall>task \<in> set (sys_tasks s). \<forall>(i, k) \<in> set task. may_mesh s i)"
proof -
  note inv = reachable_inv [OF assms]
  have "svc_meshkey (sys_service s) \<noteq> None" if "may_mesh s i" for i
  proof -
    let ?e = "sys_endpoints s ! i"
    have "endpoint_ok (svc_meshkey (sys_service s)) (ep_role ?e) ?e"
      using inv that by (simp add: sys_inv_def may_mesh_def)
    then show ?thesis
      using that by (cases "(svc_meshkey (sys_service s), ep_role ?e, ?e)" rule: endpoint_ok.cases)
        (auto simp: may_mesh_def)
  qed
  then show ?thesis using inv unfolding sys_inv_def by fast
qed

theorem mesh_only_authorised_witness:
  "\<exists>s. mesh (sys_service s) = [(PublicKey (replicate 32 5), 0)] \<and>
     (\<forall>(k, i) \<in> set (mesh (sys_service s)). may_mesh s i \<and> svc_meshkey (sys_service s) \<noteq> None)"
proof -
  let ?socket = "\<lparr>c_in = [], c_w = \<lparr>w_out = [], w_events = []\<rparr>\<rparr>"
  let ?s = "insert_mesh (PublicKey (replicate 32 5)) 0
    (with_endpoint MeshRole ?socket (empty_service (Some [1])))"
  have "start_mesh_peer (Ok \<lparr>mc_addr = [], mc_secret_key = SecretKey [], mc_meshkey = [1]\<rparr>)
      (Ok (?socket, PublicKey (replicate 32 5))) (empty_service (Some [1])) = Some (Ok (), ?s)"
    by (simp add: start_mesh_peer_def spawn_endpoint_eq bindM_def empty_service_def)
  then have "sys_step accept_request plain_library (empty_service (Some [1])) ?s"
    by (rule sys_step.mesh_peer [rotated]) (simp add: empty_service_def)
  then have "reachable accept_request plain_library (Some [1]) ?s" by (simp add: reachable_def)
  then show ?thesis
    using mesh_only_authorised [of accept_request plain_library "Some [1]" ?s]
    by (intro exI [of _ ?s]) (simp add: insert_mesh_def with_endpoint_def empty_service_def)
qed




text \<open>
  C16. Admission. A new client is taken in exactly when its socket is alive and it shows no mesh key or
  the server's own one; it may mesh exactly in the second case. Then its key is routed to a new
  endpoint, every other route stays, and every current mesh peer is going to be told about it.
  Otherwise nothing changes.
\<close>

theorem add_new_client_admission:
  "if peer_addr \<and> (meshkey = None \<or> meshkey = svc_meshkey (sys_service s))
   then \<exists>s'. add_new_client peer_addr socket pk meshkey s = Some (Ok (), s') \<and>
      map_of (peers_sinks (sys_service s')) = (map_of (peers_sinks (sys_service s)))(pk \<mapsto> length (sys_endpoints s)) \<and>
      map ep_role (sys_endpoints s') = map ep_role (sys_endpoints s) @ [ClientRole pk (meshkey \<noteq> None)] \<and>
      sys_tasks s' = sys_tasks s @ [map (\<lambda>(k, i). (i, pk)) (mesh (sys_service s))] \<and>
      mesh (sys_service s') = mesh (sys_service s)
   else \<exists>e. add_new_client peer_addr socket pk meshkey s = Some (Err e, s)"
  by (auto simp: add_new_client_eq mesh_access_def notify_all_mesh_peers_def insert_peer_def
      with_endpoint_def fresh_endpoint_def update_conv' split: option.splits)


text \<open>
  C18. Sources cannot be forged by clients. One iteration of the read loop of a client, on any input,
  adds at most one command; a packet carries the key of that client as its source, a subscription is
  for that client itself and only if it may mesh, an announcement names its own sink; and no client
  can stop the service with a command.
\<close>

theorem client_commands_authentic:
  assumes "client_read_step pk can_mesh i s = Some (r, t)"
  shows "rs_commands t = rs_commands s \<or>
    (\<exists>c. rs_commands t = rs_commands s @ [c] \<and>
       (case c of
          CSendPacket source target payload \<Rightarrow> source = pk
        | CSubscribeForPeerChanges k j \<Rightarrow> can_mesh \<and> k = pk \<and> j = i
        | CPeerPresent k j \<Rightarrow> j = i
        | CStop \<Rightarrow> False))"
proof -
  have "read_step_of (ClientRole pk can_mesh) i s = Some (r, t)"
    using assms by (simp add: read_step_of_def)
  then consider "rs_commands t = rs_commands s"
    | c where "rs_commands t = rs_commands s @ [c]" "command_from (ClientRole pk can_mesh) i c"
    using read_step_commands by blast
  then show ?thesis
  proof cases
    case (2 c)
    then show ?thesis by (intro disjI2 exI [of _ c]) (cases c, simp_all)
  qed simp
qed

theorem client_commands_authentic_witness:
  "\<exists>t. client_read_step (PublicKey (replicate 32 2)) False 0
      \<lparr>rs_reader = derp_reader_new [Chunk [16, 0, 0, 0, 0]], rs_commands = [], rs_room = None\<rparr> = Some (Ok None, t) \<and>
     (rs_commands t = [] \<or> (\<exists>c. rs_commands t = [] @ [c] \<and>
       (case c of
          CSendPacket source target payload \<Rightarrow> source = PublicKey (replicate 32 2)
        | CSubscribeForPeerChanges k j \<Rightarrow> False \<and> k = PublicKey (replicate 32 2) \<and> j = 0
        | CPeerPresent k j \<Rightarrow> j = 0
        | CStop \<Rightarrow> False)))"
proof -
  let ?s = "\<lparr>rs_reader = derp_reader_new [Chunk [16, 0, 0, 0, 0]], rs_commands = [], rs_room = None\<rparr>"
  have "next_frame (pending (rs_reader ?s)) = Some (\<lparr>msg_ty = WatchConns, msg_buffer = [16, 0, 0, 0, 0]\<rparr>, [])"
    by (simp add: pending_def derp_reader_new_def next_frame_def frame_length_def HEADER_SIZE_def
        get_frame_type_def decode_FrameType_def decode_u8_def fill_buf_def)
  then obtain r where "get_next_message (rs_reader ?s)
      = Some (Ok \<lparr>msg_ty = WatchConns, msg_buffer = [16, 0, 0, 0, 0]\<rparr>, r)"
    using get_next_message_delivers by blast
  then have "client_read_step (PublicKey (replicate 32 2)) False 0 ?s = Some (Ok None, ?s\<lparr>rs_reader := r\<rparr>)"
    by (simp add: client_read_step_def receive_def client_message_def)
  with client_commands_authentic [OF this] show ?thesis
    by (intro exI [of _ "?s\<lparr>rs_reader := r\<rparr>"]) simp
qed



end
