(* ===== verification/Key_Text.thy ===== *)
theory Key_Text
  imports Crypto
begin

text \<open>
  Keys as text and as bytes (dersp/src/crypto.rs): the conversions from and to the keys of crypto_box,
  and what the macro \<open>gen_common\<close> generates for each of the three key types, \<open>TryFrom\<close>, \<open>FromStr\<close>,
  \<open>Display\<close>, \<open>LowerHex\<close> and \<open>Debug\<close>.

  The macro is generic in the key type; here that is a record of what it uses of the type, the tuple
  constructor \<open>Self(..)\<close>, the function \<open>Self::new\<close> and the field. The keys of crypto_box are their bytes.
  The crates hex and base64 are parameters: decoding gives no value for a malformed text.
  \<open>base64::decode_config_slice\<close> and \<open>encode_config_slice\<close> fill a prefix of the buffer they are given and
  panic when it is too short, as documented; \<open>hex::decode_to_slice\<close> and \<open>encode_to_slice\<close> return an error
  unless the length fits exactly.
\<close>

section \<open>Conversions\<close>

definition secret_key_from_box :: "bytes \<Rightarrow> SecretKey" where
  "secret_key_from_box sk = SecretKey sk"

definition secret_key_to_box :: "SecretKey \<Rightarrow> bytes" where
  "secret_key_to_box sk = sk_bytes sk"

definition public_key_from_box :: "bytes \<Rightarrow> PublicKey" where
  "public_key_from_box pk = PublicKey pk"

definition public_key_to_box :: "PublicKey \<Rightarrow> bytes" where
  "public_key_to_box pk = pk_bytes pk"

definition public_key_from_secret :: "(bytes \<Rightarrow> bytes) \<Rightarrow> SecretKey \<Rightarrow> PublicKey" where
  "public_key_from_secret public_key sk = secret_key_public public_key sk"

section \<open>The three key types\<close>

record 'k key_type =
  kt_self :: "bytes \<Rightarrow> 'k"
  kt_new :: "bytes \<Rightarrow> 'k"
  kt_bytes :: "'k \<Rightarrow> bytes"

definition secret_key_type :: "SecretKey key_type" where
  "secret_key_type = \<lparr>kt_self = SecretKey, kt_new = secret_key_new, kt_bytes = sk_bytes\<rparr>"

definition public_key_type :: "PublicKey key_type" where
  "public_key_type = \<lparr>kt_self = PublicKey, kt_new = public_key_new, kt_bytes = pk_bytes\<rparr>"

definition preshared_key_type :: "PresharedKey key_type" where
  "preshared_key_type = \<lparr>kt_self = PresharedKey, kt_new = preshared_key_new, kt_bytes = psk_bytes\<rparr>"

text \<open>
  \<open>Deref\<close>, \<open>AsRef\<close> and \<open>DerefMut\<close>: a mutable reference is the change \<open>f\<close> its holder makes to the bytes of the
  key. It bypasses \<open>new\<close>, so a secret key changed through it need not be clamped.
\<close>

definition key_deref :: "'k key_type \<Rightarrow> 'k \<Rightarrow> bytes" where
  "key_deref T k = kt_bytes T k"

definition key_as_ref :: "'k key_type \<Rightarrow> 'k \<Rightarrow> bytes" where
  "key_as_ref T k = kt_bytes T k"

definition key_deref_mut :: "'k key_type \<Rightarrow> (bytes \<Rightarrow> bytes) \<Rightarrow> 'k \<Rightarrow> 'k" where
  "key_deref_mut T f k = kt_self T (f (kt_bytes T k))"

section \<open>Parsing\<close>

datatype KeyDecodeError = InvalidLength nat | Base64 | Hex

record text_library =
  hex_encode :: "bytes \<Rightarrow> bytes"
  hex_decode :: "bytes \<Rightarrow> bytes option"
  base64_encode :: "bytes \<Rightarrow> bytes"
  base64_decode :: "bytes \<Rightarrow> bytes option"

definition try_from_bytes :: "'k key_type \<Rightarrow> bytes \<Rightarrow> 'k option" where
  "try_from_bytes K bs = (if length bs = KEY_SIZE then Some (kt_self K bs) else None)"

definition from_str :: "text_library \<Rightarrow> 'k key_type \<Rightarrow> bytes \<Rightarrow> ('k, KeyDecodeError) outcome" where
  "from_str lib K s =
     (if length s = 64 then
        (case hex_decode lib s of
           None \<Rightarrow> Err Hex
         | Some key \<Rightarrow> if length key = KEY_SIZE then Ok (kt_new K key) else Err Hex)
      else if length s = 44 then
        (case base64_decode lib s of
           None \<Rightarrow> Err Base64
         | Some bs \<Rightarrow>
             if length bs \<le> KEY_SIZE then Ok (kt_new K (bs @ replicate (KEY_SIZE - length bs) 0))
             else Panic ''index out of range'')
      else Err (InvalidLength (length s)))"

section \<open>Printing\<close>

text \<open>\<open>fmt::Error\<close> carries nothing, hence \<open>unit\<close>.\<close>

definition display :: "text_library \<Rightarrow> 'k key_type \<Rightarrow> 'k \<Rightarrow> (bytes, unit) outcome" where
  "display lib K k =
     (let enc = base64_encode lib (kt_bytes K k)
      in if length enc \<le> 44
         then let buf = enc @ replicate (44 - length enc) 0
              in if utf8_valid buf then Ok buf else Err ()
         else Panic ''index out of range'')"

definition lower_hex :: "text_library \<Rightarrow> 'k key_type \<Rightarrow> 'k \<Rightarrow> (bytes, unit) outcome" where
  "lower_hex lib K k =
     (let buf = hex_encode lib (kt_bytes K k)
      in if length buf = 64 then if utf8_valid buf then Ok buf else Err () else Err ())"

text \<open>Quoted: the first four characters, three dots, the last four.\<close>

definition debug_key :: "text_library \<Rightarrow> 'k key_type \<Rightarrow> 'k \<Rightarrow> (bytes, unit) outcome" where
  "debug_key lib K k =
     (let buf = base64_encode lib (kt_bytes K k)
      in if length buf < 4 then Panic ''attempt to subtract with overflow''
         else Ok ([34] @ take 4 buf @ [46, 46, 46] @ drop (length buf - 4) buf @ [34]))"

section \<open>The interface of a key type\<close>

text \<open>
  \<open>normal k\<close>: the keys that \<open>Self::new\<close> leaves as they are. All keys of a type without clamping, the
  clamped keys of the type of secret keys.
\<close>

locale key_kind =
  fixes K :: "'k key_type" and normal :: "'k \<Rightarrow> bool"
  assumes self_bytes: "kt_self K (kt_bytes K k) = k"
    and bytes_self: "kt_bytes K (kt_self K bs) = bs"
    and new_normal: "length (kt_bytes K k) = KEY_SIZE \<Longrightarrow> kt_new K (kt_bytes K k) = k \<longleftrightarrow> normal k"
begin

lemma try_from_roundtrip: "length (kt_bytes K k) = KEY_SIZE \<Longrightarrow> try_from_bytes K (kt_bytes K k) = Some k"
  by (simp add: try_from_bytes_def self_bytes)

lemma deref_of_mut: "key_deref K (key_deref_mut K f k) = f (key_as_ref K k)"
  by (simp add: key_deref_def key_deref_mut_def key_as_ref_def bytes_self)

end

lemma u8_all: "b AND 255 = (b :: u8)"
proof -
  have "(255 :: u8) = - 1" by simp
  then show ?thesis by (metis and.right_neutral)
qed

lemma clamped_first: "b AND 7 = 0 \<longleftrightarrow> b AND 248 = (b :: u8)"
proof -
  have "b = (b AND 248) OR (b AND 7)"
    using u8_all [of b] by (simp flip: bit.conj_disj_distrib)
  then show ?thesis by (metis u8_and_248_7 or.right_neutral)
qed

lemma clamped_last: "b AND 192 = 64 \<longleftrightarrow> b AND 127 OR 64 = (b :: u8)"
proof
  assume b: "b AND 192 = 64"
  have "b AND 64 = (b AND 192) AND 64" by (simp add: and.assoc)
  also have "\<dots> = 64" by (simp add: b)
  finally have 64: "b AND 64 = 64" .
  have "b AND 127 = (b AND 63) OR (b AND 64)" by (simp flip: bit.conj_disj_distrib)
  then have "b AND 127 OR 64 = (b AND 63) OR 64" by (simp add: 64 or.assoc)
  also have "\<dots> = (b AND 63) OR (b AND 192)" by (simp add: b)
  also have "\<dots> = b" using u8_all [of b] by (simp flip: bit.conj_disj_distrib)
  finally show "b AND 127 OR 64 = b" .
next
  assume "b AND 127 OR 64 = b"
  then show "b AND 192 = 64" using u8_clamp_last [of b] by simp
qed

lemma secret_key_new_normal:
  assumes "length (sk_bytes k) = KEY_SIZE"
  shows "secret_key_new (sk_bytes k) = k \<longleftrightarrow> clamped k"
proof
  assume "secret_key_new (sk_bytes k) = k"
  then show "clamped k"
    using clamped_update [OF assms] sk_bytes_new [OF assms] by (metis SecretKey.collapse)
next
  assume "clamped k"
  then have "sk_bytes (secret_key_new (sk_bytes k)) = sk_bytes k"
    unfolding sk_bytes_new [OF assms] using clamped_first clamped_last by (simp add: clamped_def list_update_same_conv)
  then show "secret_key_new (sk_bytes k) = k" by (rule SecretKey.expand)
qed

interpretation kt_sk: key_kind secret_key_type clamped
  by unfold_locales (simp_all add: secret_key_type_def secret_key_new_normal)

interpretation kt_pk: key_kind public_key_type "\<lambda>k. True"
  by unfold_locales (simp_all add: public_key_type_def public_key_new_def)

interpretation kt_psk: key_kind preshared_key_type "\<lambda>k. True"
  by unfold_locales (simp_all add: preshared_key_type_def preshared_key_new_def)


section \<open>What is relied on of base64 and hex\<close>

text \<open>For one key: the text has the documented length and is ASCII, and decoding it gives the key.\<close>

definition text_law :: "text_library \<Rightarrow> bytes \<Rightarrow> bool" where
  "text_law lib bs \<longleftrightarrow>
     length (base64_encode lib bs) = 44 \<and> (\<forall>b \<in> set (base64_encode lib bs). b \<le> 0x7F) \<and>
     base64_decode lib (base64_encode lib bs) = Some bs \<and>
     length (hex_encode lib bs) = 64 \<and> (\<forall>b \<in> set (hex_encode lib bs). b \<le> 0x7F) \<and>
     hex_decode lib (hex_encode lib bs) = Some bs"

lemma utf8_ascii: "\<forall>b \<in> set bs. b \<le> 0x7F \<Longrightarrow> utf8_valid bs"
  by (induction bs) simp_all

context key_kind
begin

lemma text_roundtrip:
  assumes "text_law lib (kt_bytes K k)" and "length (kt_bytes K k) = KEY_SIZE"
  shows "display lib K k = Ok (base64_encode lib (kt_bytes K k))"
    and "lower_hex lib K k = Ok (hex_encode lib (kt_bytes K k))"
    and "from_str lib K (base64_encode lib (kt_bytes K k)) = Ok (kt_new K (kt_bytes K k))"
    and "from_str lib K (hex_encode lib (kt_bytes K k)) = Ok (kt_new K (kt_bytes K k))"
  using assms utf8_ascii
  by (simp_all add: text_law_def display_def lower_hex_def from_str_def)

lemma prints_and_parses:
  assumes "text_law lib (kt_bytes K k)" and "length (kt_bytes K k) = KEY_SIZE"
  shows "\<exists>b64 hex. display lib K k = Ok b64 \<and> lower_hex lib K k = Ok hex \<and>
    (from_str lib K b64 = Ok k \<longleftrightarrow> normal k) \<and> (from_str lib K hex = Ok k \<longleftrightarrow> normal k)"
  using text_roundtrip [OF assms] new_normal [OF assms(2)] by auto

end

section \<open>Properties\<close>

text \<open>
  C28. Keys survive being printed and parsed. A public key printed in base64 or in hex is parsed to the
  same key. A secret key is parsed to the same key exactly when it is clamped: parsing clamps, while
  \<open>TryFrom\<close> and the conversion from crypto_box take any 32 bytes.
\<close>

theorem keys_print_and_parse:
  assumes "text_law lib (pk_bytes pk)" and "valid_PublicKey pk"
    and "text_law lib (sk_bytes sk)" and "valid_SecretKey sk"
  shows "(\<exists>b64 hex. display lib public_key_type pk = Ok b64 \<and> lower_hex lib public_key_type pk = Ok hex \<and>
      from_str lib public_key_type b64 = Ok pk \<and> from_str lib public_key_type hex = Ok pk) \<and>
    (\<exists>b64 hex. display lib secret_key_type sk = Ok b64 \<and> lower_hex lib secret_key_type sk = Ok hex \<and>
      (from_str lib secret_key_type b64 = Ok sk \<longleftrightarrow> clamped sk) \<and>
      (from_str lib secret_key_type hex = Ok sk \<longleftrightarrow> clamped sk)) \<and>
    try_from_bytes secret_key_type (sk_bytes sk) = Some sk"
proof -
  have pk: "kt_bytes public_key_type pk = pk_bytes pk" by (simp add: public_key_type_def)
  have sk: "kt_bytes secret_key_type sk = sk_bytes sk" by (simp add: secret_key_type_def)
  show ?thesis
    using kt_pk.prints_and_parses [of lib pk] kt_sk.prints_and_parses [of lib sk]
      kt_sk.try_from_roundtrip [of sk] assms
    unfolding pk sk valid_PublicKey_def valid_SecretKey_def by simp
qed

theorem keys_print_and_parse_witness:
  "\<exists>lib b64. display lib secret_key_type (SecretKey (replicate 32 255)) = Ok b64 \<and>
     from_str lib secret_key_type b64 \<noteq> Ok (SecretKey (replicate 32 255))"
proof -
  let ?k = "replicate 32 255 :: bytes"
  let ?lib = "\<lparr>hex_encode = (\<lambda>_. replicate 64 102), hex_decode = (\<lambda>_. Some ?k),
    base64_encode = (\<lambda>_. replicate 44 47), base64_decode = (\<lambda>_. Some ?k)\<rparr>"
  have "text_law ?lib ?k" by (simp add: text_law_def)
  then have "\<exists>b64 hex. display ?lib secret_key_type (SecretKey ?k) = Ok b64 \<and>
      lower_hex ?lib secret_key_type (SecretKey ?k) = Ok hex \<and>
      (from_str ?lib secret_key_type b64 = Ok (SecretKey ?k) \<longleftrightarrow> clamped (SecretKey ?k)) \<and>
      (from_str ?lib secret_key_type hex = Ok (SecretKey ?k) \<longleftrightarrow> clamped (SecretKey ?k))"
    using keys_print_and_parse [of ?lib "PublicKey ?k" "SecretKey ?k"]
    by (simp add: valid_PublicKey_def valid_SecretKey_def KEY_SIZE_def)
  moreover have "\<not> clamped (SecretKey ?k)" by (simp add: clamped_def)
  ultimately show ?thesis by blast
qed



end
