(* ===== verification/Derive_Attr.thy ===== *)
theory Derive_Attr
  imports Prelude
begin

text \<open>
  The attributes of the derive macros (codec-derive/src/attr.rs): reading \<open>#[tag(..)]\<close> and
  \<open>#[unknown]\<close> off variants and fields, and the converter off the type.

  The syntax trees are those of the crate syn, with the parts the macros look at; spans are left out.
  The parsers of syn are parameters, in the record \<open>syn\<close>: \<open>parenthesized!\<close>, \<open>Expr::parse\<close> and
  \<open>ExprPath::parse\<close> take the tokens of a stream and return what they read and what they leave. A
  \<open>syn::Error\<close> is its message; \<open>Result<T>\<close> is \<open>error + T\<close>.
\<close>

section \<open>Results\<close>

type_synonym 'a syn_result = "string + 'a"

text \<open>The \<open>?\<close> operator, \<open>Result::map\<close>, \<open>Result::unwrap_or\<close> and \<open>collect::<Result<Vec<_>>>\<close> of a mapped iterator.\<close>

definition bindE :: "'a syn_result \<Rightarrow> ('a \<Rightarrow> 'b syn_result) \<Rightarrow> 'b syn_result" where
  "bindE r f = (case r of Inl e \<Rightarrow> Inl e | Inr x \<Rightarrow> f x)"

definition result_map :: "('a \<Rightarrow> 'b) \<Rightarrow> 'a syn_result \<Rightarrow> 'b syn_result" where
  "result_map f r = bindE r (\<lambda>x. Inr (f x))"

definition unwrap_or :: "'a syn_result \<Rightarrow> 'a \<Rightarrow> 'a" where
  "unwrap_or r d = (case r of Inl _ \<Rightarrow> d | Inr x \<Rightarrow> x)"

fun collect_map :: "('a \<Rightarrow> 'b syn_result) \<Rightarrow> 'a list \<Rightarrow> 'b list syn_result" where
  "collect_map f [] = Inr []"
| "collect_map f (x # xs) = bindE (f x) (\<lambda>y. bindE (collect_map f xs) (\<lambda>ys. Inr (y # ys)))"

named_theorems return_iff \<open>when a fallible step of the macros succeeds\<close>

lemma bindE_simps [simp]: "bindE (Inl e) f = Inl e" "bindE (Inr x) f = f x"
  by (simp_all add: bindE_def)

lemma bindE_Inr_iff [return_iff]: "bindE r f = Inr y \<longleftrightarrow> (\<exists>x. r = Inr x \<and> f x = Inr y)"
  by (cases r) simp_all

lemma bindE_Inl_iff: "bindE r f = Inl e \<longleftrightarrow> r = Inl e \<or> (\<exists>x. r = Inr x \<and> f x = Inl e)"
  by (cases r) simp_all

lemma result_map_simps [simp]: "result_map f (Inl e) = Inl e" "result_map f (Inr x) = Inr (f x)"
  by (simp_all add: result_map_def)

lemma result_map_Inr_iff [return_iff]: "result_map f r = Inr y \<longleftrightarrow> (\<exists>x. r = Inr x \<and> y = f x)"
  by (auto simp: result_map_def bindE_Inr_iff)

lemma unwrap_or_simps [simp]: "unwrap_or (Inl e) d = d" "unwrap_or (Inr x) d = x"
  by (simp_all add: unwrap_or_def)

lemma collect_map_Inr_iff [return_iff]:
  "collect_map f xs = Inr ys \<longleftrightarrow> list_all2 (\<lambda>x y. f x = Inr y) xs ys"
  by (induction xs arbitrary: ys) (auto simp: bindE_Inr_iff list_all2_Cons1)

lemma collect_map_fails_iff:
  "(\<exists>e. collect_map f xs = Inl e) \<longleftrightarrow> (\<exists>x \<in> set xs. \<exists>e. f x = Inl e)"
proof (induction xs)
  case (Cons a xs)
  then show ?case by (cases "f a"; cases "collect_map f xs") auto
qed simp

lemma collect_map_total: "(\<And>x. x \<in> set xs \<Longrightarrow> f x = Inr (g x)) \<Longrightarrow> collect_map f xs = Inr (map g xs)"
  by (induction xs) simp_all

section \<open>Syntax trees\<close>

datatype Delimiter = Parenthesis | Brace | Bracket

datatype TokenTree = Group Delimiter "TokenTree list" | Ident string | Punct char | Literal string

type_synonym TokenStream = "TokenTree list"
type_synonym ident = string
type_synonym path = "ident list"
type_synonym ty = string

record Attribute =
  attr_path :: path
  attr_tokens :: TokenStream

record Field =
  field_attrs :: "Attribute list"
  field_ident :: ident
  field_ty :: ty

datatype Fields = Named "Field list" | Unnamed "Field list" | Unit

record Variant =
  variant_attrs :: "Attribute list"
  variant_ident :: ident
  variant_fields :: Fields

datatype Data = Struct Fields | Enum "Variant list" | Union

datatype GenericParam = Type ident "path list" | Lifetime ident | Const ident ty

record DeriveInput =
  input_attrs :: "Attribute list"
  input_ident :: ident
  input_generics :: "GenericParam list"
  input_data :: Data

record 'x syn =
  parenthesized :: "TokenStream \<Rightarrow> (TokenStream \<times> TokenStream) syn_result"
  Expr_parse :: "TokenStream \<Rightarrow> ('x \<times> TokenStream) syn_result"
  ExprPath_parse :: "TokenStream \<Rightarrow> (path \<times> TokenStream) syn_result"

text \<open>
  \<open>Parser::parse2\<close>: runs a parser on a token stream and refuses the stream unless every token of it
  was read. A parser returns what it left of each stream it opened.
\<close>

definition parse2 :: "(TokenStream \<Rightarrow> ('a \<times> TokenStream) syn_result) \<Rightarrow> TokenStream \<Rightarrow> 'a syn_result" where
  "parse2 parser tokens =
     bindE (parser tokens) (\<lambda>(node, left). if left = [] then Inr node else Inl ''unexpected token'')"

section \<open>The attributes\<close>

datatype 'x CodecMeta = Unknown | Tag 'x

datatype Converter = Converter path

definition parse_with_ident :: "'x syn \<Rightarrow> ident \<Rightarrow> TokenStream \<Rightarrow> ('x CodecMeta \<times> TokenStream) syn_result" where
  "parse_with_ident syn ident stream =
     (if ident = ''unknown'' then Inr (Unknown, stream)
      else bindE (parenthesized syn stream) (\<lambda>(content, stream).
           result_map (\<lambda>(expr, content). (Tag expr, content @ stream)) (Expr_parse syn content)))"

fun meta_is_unknown :: "'x CodecMeta \<Rightarrow> bool" where
  "meta_is_unknown Unknown = True"
| "meta_is_unknown (Tag _) = False"

fun opt_unknown :: "'x CodecMeta \<Rightarrow> 'x CodecMeta option" where
  "opt_unknown Unknown = Some Unknown"
| "opt_unknown (Tag _) = None"

text \<open>What a \<open>CodecMeta\<close> is spliced into the generated code as: a name or an expression.\<close>

datatype 'x code_term = Name ident | Expression 'x

fun to_tokens :: "'x CodecMeta \<Rightarrow> 'x code_term" where
  "to_tokens Unknown = Name ''_unknown''"
| "to_tokens (Tag expr) = Expression expr"

definition converter_parse :: "'x syn \<Rightarrow> TokenStream \<Rightarrow> (Converter \<times> TokenStream) syn_result" where
  "converter_parse syn stream =
     bindE (parenthesized syn stream) (\<lambda>(content, stream).
     result_map (\<lambda>(path, content). (Converter path, content @ stream)) (ExprPath_parse syn content))"

definition is_codec_attr :: "Attribute \<Rightarrow> bool" where
  "is_codec_attr attr \<longleftrightarrow>
     length (attr_path attr) = 1 \<and> (attr_path attr ! 0 = ''tag'' \<or> attr_path attr ! 0 = ''unknown'')"

fun find_codec_attr :: "Attribute option \<Rightarrow> Attribute list \<Rightarrow> Attribute option syn_result" where
  "find_codec_attr codec_attr [] = Inr codec_attr"
| "find_codec_attr codec_attr (attr # attrs) =
     (if is_codec_attr attr then
        (if codec_attr = None then find_codec_attr (Some attr) attrs
         else Inl ''only one instance of either `tag` or `unknown` is permitted'')
      else find_codec_attr codec_attr attrs)"

definition extract_codec_meta :: "'x syn \<Rightarrow> Attribute list \<Rightarrow> 'x CodecMeta option syn_result" where
  "extract_codec_meta syn attributes =
     bindE (find_codec_attr None attributes) (\<lambda>codec_attr.
       case codec_attr of
         None \<Rightarrow> Inr None
       | Some attr \<Rightarrow>
           result_map Some (parse2 (parse_with_ident syn (attr_path attr ! 0)) (attr_tokens attr)))"

definition get_variant_tag :: "'x syn \<Rightarrow> Variant \<Rightarrow> 'x CodecMeta syn_result" where
  "get_variant_tag syn variant =
     bindE (extract_codec_meta syn (variant_attrs variant)) (\<lambda>meta.
       case meta of
         None \<Rightarrow> Inl ''Missing `tag` or `unknown` attribute''
       | Some meta \<Rightarrow> Inr meta)"

definition is_unknown :: "'x syn \<Rightarrow> Field \<Rightarrow> bool syn_result" where
  "is_unknown syn field =
     bindE (extract_codec_meta syn (field_attrs field)) (\<lambda>meta.
       case meta of
         Some Unknown \<Rightarrow> Inr True
       | Some (Tag _) \<Rightarrow> Inl ''Invalid use of `tag` here''
       | None \<Rightarrow> Inr False)"

fun find_converter :: "Attribute option \<Rightarrow> Attribute list \<Rightarrow> Attribute option syn_result" where
  "find_converter converter [] = Inr converter"
| "find_converter converter (attr # attrs) =
     (if length (attr_path attr) \<noteq> 1 \<or> attr_path attr ! 0 \<noteq> ''tag'' then find_converter converter attrs
      else if converter = None then find_converter (Some attr) attrs
      else Inl ''only one instance of encode is allowed on the struct'')"

definition extract_converter :: "'x syn \<Rightarrow> DeriveInput \<Rightarrow> Converter option syn_result" where
  "extract_converter syn input =
     bindE (find_converter None (input_attrs input)) (\<lambda>converter.
       case converter of
         None \<Rightarrow> Inr None
       | Some attr \<Rightarrow> result_map Some (parse2 (converter_parse syn) (attr_tokens attr)))"

section \<open>What the attributes say\<close>

lemma find_codec_attr_spec:
  "find_codec_attr c attrs =
     (case filter is_codec_attr attrs of
        [] \<Rightarrow> Inr c
      | a # as \<Rightarrow>
          if c = None \<and> as = [] then Inr (Some a)
          else Inl ''only one instance of either `tag` or `unknown` is permitted'')"
  by (induction c attrs rule: find_codec_attr.induct) (auto split: list.splits)

lemma find_converter_spec:
  "find_converter c attrs =
     (case filter (\<lambda>a. length (attr_path a) = 1 \<and> attr_path a ! 0 = ''tag'') attrs of
        [] \<Rightarrow> Inr c
      | a # as \<Rightarrow>
          if c = None \<and> as = [] then Inr (Some a)
          else Inl ''only one instance of encode is allowed on the struct'')"
  by (induction c attrs rule: find_converter.induct) (auto split: list.splits)

lemma opt_unknown_eq: "opt_unknown m = (if meta_is_unknown m then Some Unknown else None)"
  by (cases m) simp_all

lemma meta_is_unknown_iff [simp]: "meta_is_unknown m \<longleftrightarrow> m = Unknown"
  by (cases m) simp_all

text \<open>
  Tokens that syn parses the way it documents: a parenthesised group is opened, and a literal is an
  expression.
\<close>

definition syn_law :: "'x syn \<Rightarrow> (string \<Rightarrow> 'x) \<Rightarrow> bool" where
  "syn_law syn lit \<longleftrightarrow>
     (\<forall>content stream. parenthesized syn (Group Parenthesis content # stream) = Inr (content, stream)) \<and>
     (\<forall>l. Expr_parse syn [Literal l] = Inr (lit l, []))"

definition tag_attr :: "string \<Rightarrow> Attribute" where
  "tag_attr l = \<lparr>attr_path = [''tag''], attr_tokens = [Group Parenthesis [Literal l]]\<rparr>"

definition unknown_attr :: Attribute where
  "unknown_attr = \<lparr>attr_path = [''unknown''], attr_tokens = []\<rparr>"

lemma extract_codec_meta_Nil [simp]: "extract_codec_meta syn [] = Inr None"
  by (simp add: extract_codec_meta_def)

lemma extract_codec_meta_unknown [simp]: "extract_codec_meta syn [unknown_attr] = Inr (Some Unknown)"
  by (simp add: extract_codec_meta_def is_codec_attr_def unknown_attr_def parse2_def parse_with_ident_def)

lemma extract_codec_meta_tag [simp]:
  "syn_law syn lit \<Longrightarrow> extract_codec_meta syn [tag_attr l] = Inr (Some (Tag (lit l)))"
  by (simp add: extract_codec_meta_def is_codec_attr_def tag_attr_def parse2_def parse_with_ident_def syn_law_def)

text \<open>A syn that parses literals, and nothing else, as expressions.\<close>

definition literal_syn :: "string syn" where
  "literal_syn =
     \<lparr>parenthesized = (\<lambda>ts. case ts of Group Parenthesis content # stream \<Rightarrow> Inr (content, stream)
        | _ \<Rightarrow> Inl ''expected parentheses''),
      Expr_parse = (\<lambda>ts. case ts of Literal l # left \<Rightarrow> Inr (l, left) | _ \<Rightarrow> Inl ''expected expression''),
      ExprPath_parse = (\<lambda>ts. case ts of Ident i # left \<Rightarrow> Inr ([i], left) | _ \<Rightarrow> Inl ''expected identifier'')\<rparr>"

lemma syn_law_literal: "syn_law literal_syn (\<lambda>l. l)"
  by (simp add: syn_law_def literal_syn_def)

end
