(* ===== verification/Derive_Macro.thy ===== *)
theory Derive_Macro
  imports Derive_Attr
begin

text \<open>
  The derive macros \<open>Decode\<close> and \<open>Encode\<close> (codec-derive/src/lib.rs), as compilers from the syntax
  tree of a type to the code of its implementation.

  The generated code is a datatype with one constructor for each \<open>quote!\<close> template: what a template
  fixes is the constructor, what it splices in are the arguments. A macro that fails expands to its
  error message, \<open>CompileError\<close>.
\<close>

section \<open>Generated code\<close>

text \<open>\<open><ty as Decode>::decode(read_buffer)?\<close> or a spliced \<open>CodecMeta\<close>, and \<open>Ok(name { .. })\<close> around them.\<close>

datatype 'x field_init = DecodeCall ty | Splice "'x code_term"

datatype 'x construct =
    MakeNamed path "(ident \<times> 'x field_init) list"
  | MakeUnnamed path "'x field_init list"
  | MakeUnit path

text \<open>\<open>const name: converter = converter::const_from(tag);\<close>\<close>

datatype 'x tag_constant = TagConstant ident path "'x code_term"

datatype 'x decode_impl =
    DecodeStruct "'x construct"
  | DecodeEnum "'x tag_constant option list" "('x code_term \<times> 'x construct) list"

text \<open>The patterns \<open>{ a, b, .. }\<close>, \<open>( _0, _1 )\<close>, \<open>{ .. }\<close> and none, behind the path of a variant.\<close>

datatype pattern = FieldsPattern "ident list" | TuplePattern "ident list" | RestPattern | NoPattern

datatype operand = SelfField ident | SelfIndex nat | Var ident

text \<open>The terms of the sum \<open>0 + ..\<close>: \<open>0\<close> or \<open>Encode::encode(operand, write_buffer)?\<close>.\<close>

datatype summand = Zero | EncodeCall operand

datatype 'x tag_expr = Plain 'x | ConstFrom path 'x

datatype 'x tag_body = CloneOf ident | PanicWith string | Block "'x tag_expr"

datatype 'x encode_impl =
    EncodeStruct "summand list"
  | EncodeEnum "(path \<times> pattern \<times> 'x tag_body) list" "(path \<times> pattern \<times> summand list) list"

datatype 'i expansion = Impl path "GenericParam list" ident 'i | CompileError string

section \<open>Identifiers\<close>

text \<open>\<open>format!("_{}", index)\<close>.\<close>

fun decimal :: "nat \<Rightarrow> string" where
  "decimal n = (if n < 10 then [char_of (48 + n)] else decimal (n div 10) @ [char_of (48 + n mod 10)])"

declare decimal.simps [simp del]

definition index_ident :: "nat \<Rightarrow> ident" where
  "index_ident index = ''_'' @ decimal index"

section \<open>Decode\<close>

definition decode_field :: "'x syn \<Rightarrow> 'x CodecMeta option \<Rightarrow> Field \<Rightarrow> 'x field_init syn_result" where
  "decode_field syn unknown field =
     bindE (is_unknown syn field) (\<lambda>u.
       case (u, unknown) of
         (True, Some meta) \<Rightarrow> Inr (Splice (to_tokens meta))
       | (True, None) \<Rightarrow> Inl ''`unknown` can not be used here''
       | (False, _) \<Rightarrow> Inr (DecodeCall (field_ty field)))"

fun decode_fields :: "'x syn \<Rightarrow> path \<Rightarrow> Fields \<Rightarrow> 'x CodecMeta option \<Rightarrow> 'x construct syn_result" where
  "decode_fields syn name (Named named) unknown =
     bindE (collect_map (\<lambda>field.
        result_map (Pair (field_ident field)) (decode_field syn unknown field)) named)
     (\<lambda>impl_fields. Inr (MakeNamed name impl_fields))"
| "decode_fields syn name (Unnamed unnamed) unknown =
     bindE (collect_map (decode_field syn unknown) unnamed)
     (\<lambda>impl_fields. Inr (MakeUnnamed name impl_fields))"
| "decode_fields syn name Unit unknown = Inr (MakeUnit name)"

definition tag_constant :: "'x syn \<Rightarrow> path \<Rightarrow> nat \<times> Variant \<Rightarrow> 'x tag_constant option syn_result" where
  "tag_constant syn converter = (\<lambda>(index, variant).
     bindE (get_variant_tag syn variant) (\<lambda>current_tag.
       if meta_is_unknown current_tag then Inr None
       else Inr (Some (TagConstant (index_ident index) converter (to_tokens current_tag)))))"

definition decode_arm ::
  "'x syn \<Rightarrow> ident \<Rightarrow> Converter option \<Rightarrow> nat \<times> Variant \<Rightarrow> ('x code_term \<times> 'x construct) syn_result" where
  "decode_arm syn name converter = (\<lambda>(index, variant).
     bindE (get_variant_tag syn variant) (\<lambda>current_tag.
     bindE (decode_fields syn [name, variant_ident variant] (variant_fields variant) (opt_unknown current_tag))
       (\<lambda>decode_variant.
          if converter \<noteq> None \<and> \<not> meta_is_unknown current_tag
          then Inr (Name (index_ident index), decode_variant)
          else Inr (to_tokens current_tag, decode_variant))))"

fun decode_data :: "'x syn \<Rightarrow> ident \<Rightarrow> Data \<Rightarrow> Converter option \<Rightarrow> 'x decode_impl syn_result" where
  "decode_data syn name (Struct flds) converter =
     result_map DecodeStruct (decode_fields syn [name] flds None)"
| "decode_data syn name (Enum variants) converter =
     bindE (case converter of
              Some (Converter path) \<Rightarrow> collect_map (tag_constant syn path) (List.enumerate 0 variants)
            | None \<Rightarrow> Inr [])
     (\<lambda>tag_constants.
     bindE (collect_map (decode_arm syn name converter) (List.enumerate 0 variants))
     (\<lambda>impl_variants. Inr (DecodeEnum tag_constants impl_variants)))"
| "decode_data syn name Union converter = Inl ''Decode is not implemented for `union`''"

section \<open>Encode\<close>

definition unknown_or_false :: "'x syn \<Rightarrow> Field \<Rightarrow> bool" where
  "unknown_or_false syn field = unwrap_or (is_unknown syn field) False"

fun extract_unknown :: "'x syn \<Rightarrow> Fields \<Rightarrow> (pattern \<times> ident) option" where
  "extract_unknown syn (Named named) =
     map_option (\<lambda>field. (FieldsPattern [field_ident field], field_ident field))
       (List.find (unknown_or_false syn) named)"
| "extract_unknown syn (Unnamed unnamed) =
     (let fields = map (\<lambda>(index, field). (index_ident index, field)) (List.enumerate 0 unnamed);
          the_one = List.find (\<lambda>(span, field). unknown_or_false syn field) fields
      in map_option (\<lambda>(the_one, _). (TuplePattern (map fst fields), the_one)) the_one)"
| "extract_unknown syn Unit = None"

fun field_list :: "'x syn \<Rightarrow> Fields \<Rightarrow> pattern" where
  "field_list syn (Named named) =
     FieldsPattern (map field_ident (filter (\<lambda>field. \<not> unknown_or_false syn field) named))"
| "field_list syn (Unnamed unnamed) =
     TuplePattern (map (\<lambda>(index, field).
       if unknown_or_false syn field then ''_'' else index_ident index) (List.enumerate 0 unnamed))"
| "field_list syn Unit = NoPattern"

fun encode_fields :: "'x syn \<Rightarrow> bool \<Rightarrow> Fields \<Rightarrow> summand list" where
  "encode_fields syn with_self (Named named) =
     map (\<lambda>field.
       if unknown_or_false syn field then Zero
       else EncodeCall (if with_self then SelfField (field_ident field) else Var (field_ident field))) named"
| "encode_fields syn with_self (Unnamed unnamed) =
     map (\<lambda>(index, field).
       if unknown_or_false syn field then Zero
       else EncodeCall (if with_self then SelfIndex index else Var (index_ident index)))
       (List.enumerate 0 unnamed)"
| "encode_fields syn with_self Unit = []"

fun call_converter :: "Converter option \<Rightarrow> 'x \<Rightarrow> 'x tag_expr" where
  "call_converter (Some (Converter path)) expr = ConstFrom path expr"
| "call_converter None expr = Plain expr"

definition tag_arm ::
  "'x syn \<Rightarrow> ident \<Rightarrow> Converter option \<Rightarrow> Variant \<Rightarrow> (path \<times> pattern \<times> 'x tag_body) syn_result" where
  "tag_arm syn name converter variant =
     bindE (get_variant_tag syn variant) (\<lambda>current_tag.
       let path = [name, variant_ident variant];
           msg = ''Tag unknown for '' @ name @ ''::'' @ variant_ident variant
       in case current_tag of
            Unknown \<Rightarrow>
              (case extract_unknown syn (variant_fields variant) of
                 Some (pat, the_one) \<Rightarrow> Inr (path, pat, CloneOf the_one)
               | None \<Rightarrow> Inr (path, RestPattern, PanicWith msg))
          | Tag expr \<Rightarrow> Inr (path, RestPattern, Block (call_converter converter expr)))"

definition encode_arm :: "'x syn \<Rightarrow> ident \<Rightarrow> Variant \<Rightarrow> path \<times> pattern \<times> summand list" where
  "encode_arm syn name variant =
     ([name, variant_ident variant], field_list syn (variant_fields variant),
      encode_fields syn False (variant_fields variant))"

fun encode_data :: "'x syn \<Rightarrow> ident \<Rightarrow> Data \<Rightarrow> Converter option \<Rightarrow> 'x encode_impl syn_result" where
  "encode_data syn name (Struct flds) converter = Inr (EncodeStruct (encode_fields syn True flds))"
| "encode_data syn name (Enum variants) converter =
     bindE (collect_map (tag_arm syn name converter) variants) (\<lambda>tag_variants.
     Inr (EncodeEnum tag_variants (map (encode_arm syn name) variants)))"
| "encode_data syn name Union converter = Inl ''Encode is not implemented for `union`''"

section \<open>The macros\<close>

definition add_trait_bounds :: "path \<Rightarrow> GenericParam list \<Rightarrow> GenericParam list" where
  "add_trait_bounds bound =
     map (\<lambda>param. case param of Type ident bounds \<Rightarrow> Type ident (bounds @ [bound]) | _ \<Rightarrow> param)"

definition decode_derive :: "'x syn \<Rightarrow> DeriveInput \<Rightarrow> 'x decode_impl expansion" where
  "decode_derive syn input =
     (let generics = add_trait_bounds [''codec'', ''Decode''] (input_generics input)
      in case extract_converter syn input of
           Inl err \<Rightarrow> CompileError err
         | Inr converter \<Rightarrow>
             (case decode_data syn (input_ident input) (input_data input) converter of
                Inr impl_decode \<Rightarrow> Impl [''codec'', ''Decode''] generics (input_ident input) impl_decode
              | Inl err \<Rightarrow> CompileError err))"

definition encode_derive :: "'x syn \<Rightarrow> DeriveInput \<Rightarrow> 'x encode_impl expansion" where
  "encode_derive syn input =
     (let generics = add_trait_bounds [''codec'', ''Encode''] (input_generics input)
      in case extract_converter syn input of
           Inl err \<Rightarrow> CompileError err
         | Inr converter \<Rightarrow>
             (case encode_data syn (input_ident input) (input_data input) converter of
                Inr impl_encode \<Rightarrow> Impl [''codec'', ''Encode''] generics (input_ident input) impl_encode
              | Inl err \<Rightarrow> CompileError err))"

end
