(* ===== verification/Derive_Code.thy ===== *)
theory Derive_Code
  imports Derive_Macro Codec_Laws
begin

text \<open>
  What the code generated by the derive macros does when it runs, and that it is what the attributes
  of the type ask for.

  A value of a derived type is an \<open>obj\<close>: the path of its struct or variant and its fields. The values
  of the fields are a type parameter, and so is what the compiler finds for the names in the code: the
  decoder of a field type, the type it infers for the tag, the value of a literal and \<open>const_from\<close> of
  the converter, in the record \<open>runtime\<close>. Code the compiler refuses has no result (\<open>None\<close>): a \<open>match\<close>
  without a matching arm, an unbound name, a pattern that is not one.
\<close>

section \<open>Running the code\<close>

record ('x, 'v) runtime =
  decode_ty :: "ty \<Rightarrow> 'v decoder"
  tag_ty :: ty
  lit :: "'x \<Rightarrow> 'v"
  const_from :: "path \<Rightarrow> 'v \<Rightarrow> 'v"

datatype 'v obj = ObjNamed path "(ident \<times> 'v) list" | ObjTuple path "'v list" | ObjUnit path

fun obj_path :: "'v obj \<Rightarrow> path" where
  "obj_path (ObjNamed p fs) = p"
| "obj_path (ObjTuple p vs) = p"
| "obj_path (ObjUnit p) = p"

definition stuck :: "('s, 'a, 'e) proc" where
  "stuck s = None"

fun seqM :: "('s, 'a, 'e) proc list \<Rightarrow> ('s, 'a list, 'e) proc" where
  "seqM [] = retM []"
| "seqM (m # ms) = bindM m (\<lambda>x. bindM (seqM ms) (\<lambda>xs. retM (x # xs)))"

fun term_value :: "('x, 'v) runtime \<Rightarrow> (ident \<rightharpoonup> 'v) \<Rightarrow> 'x code_term \<Rightarrow> 'v option" where
  "term_value R env (Name x) = env x"
| "term_value R env (Expression e) = Some (lit R e)"

fun run_init :: "('x, 'v) runtime \<Rightarrow> (ident \<rightharpoonup> 'v) \<Rightarrow> 'x field_init \<Rightarrow> 'v decoder" where
  "run_init R env (DecodeCall t) = decode_ty R t"
| "run_init R env (Splice t) = (case term_value R env t of Some v \<Rightarrow> retM v | None \<Rightarrow> stuck)"

fun run_construct :: "('x, 'v) runtime \<Rightarrow> (ident \<rightharpoonup> 'v) \<Rightarrow> 'x construct \<Rightarrow> 'v obj decoder" where
  "run_construct R env (MakeNamed p inits) =
     bindM (seqM (map (run_init R env) (map snd inits))) (\<lambda>vs. retM (ObjNamed p (zip (map fst inits) vs)))"
| "run_construct R env (MakeUnnamed p inits) =
     bindM (seqM (map (run_init R env) inits)) (\<lambda>vs. retM (ObjTuple p vs))"
| "run_construct R env (MakeUnit p) = retM (ObjUnit p)"

text \<open>A name in a pattern is the constant of that name if there is one; otherwise it binds the value.\<close>

fun match_tag :: "('x, 'v) runtime \<Rightarrow> (ident \<rightharpoonup> 'v) \<Rightarrow> 'x code_term \<Rightarrow> 'v \<Rightarrow> (ident \<rightharpoonup> 'v) option" where
  "match_tag R cenv (Name x) v =
     (case cenv x of
        Some c \<Rightarrow> if v = c then Some Map.empty else None
      | None \<Rightarrow> Some [x \<mapsto> v])"
| "match_tag R cenv (Expression e) v = (if v = lit R e then Some Map.empty else None)"

fun run_arms ::
  "('x, 'v) runtime \<Rightarrow> (ident \<rightharpoonup> 'v) \<Rightarrow> ('x code_term \<times> 'x construct) list \<Rightarrow> 'v \<Rightarrow> 'v obj decoder" where
  "run_arms R cenv [] v = stuck"
| "run_arms R cenv ((t, c) # arms) v =
     (case match_tag R cenv t v of
        Some env \<Rightarrow> run_construct R env c
      | None \<Rightarrow> run_arms R cenv arms v)"

fun const_binding :: "('x, 'v) runtime \<Rightarrow> 'x tag_constant option \<Rightarrow> (ident \<times> 'v) list" where
  "const_binding R None = []"
| "const_binding R (Some (TagConstant x p t)) =
     (case term_value R Map.empty t of Some v \<Rightarrow> [(x, const_from R p v)] | None \<Rightarrow> [])"

definition const_env :: "('x, 'v) runtime \<Rightarrow> 'x tag_constant option list \<Rightarrow> (ident \<rightharpoonup> 'v)" where
  "const_env R constants = map_of (concat (map (const_binding R) constants))"

fun run_decode :: "('x, 'v) runtime \<Rightarrow> 'x decode_impl \<Rightarrow> 'v obj decoder" where
  "run_decode R (DecodeStruct c) = run_construct R Map.empty c"
| "run_decode R (DecodeEnum constants arms) =
     bindM (decode_ty R (tag_ty R)) (\<lambda>tag. run_arms R (const_env R constants) arms tag)"

text \<open>\<open>FieldsPattern []\<close> is \<open>{ , .. }\<close>, which is not a pattern.\<close>

fun match_pattern :: "pattern \<Rightarrow> 'v obj \<Rightarrow> (ident \<rightharpoonup> 'v) option" where
  "match_pattern RestPattern x = Some Map.empty"
| "match_pattern (FieldsPattern xs) (ObjNamed p fs) =
     (if xs \<noteq> [] \<and> set xs \<subseteq> fst ` set fs then Some (map_of fs |` set xs) else None)"
| "match_pattern (TuplePattern xs) (ObjTuple p vs) =
     (if length xs = length vs then Some (map_of (filter (\<lambda>(x, v). x \<noteq> ''_'') (zip xs vs))) else None)"
| "match_pattern NoPattern (ObjUnit p) = Some Map.empty"
| "match_pattern _ _ = None"

fun operand_value :: "'v obj \<Rightarrow> (ident \<rightharpoonup> 'v) \<Rightarrow> operand \<Rightarrow> 'v option" where
  "operand_value (ObjNamed p fs) env (SelfField x) = map_of fs x"
| "operand_value (ObjTuple p vs) env (SelfIndex i) = (if i < length vs then Some (vs ! i) else None)"
| "operand_value x env (Var y) = env y"
| "operand_value _ _ _ = None"

fun run_sum :: "('w, 'v, 'e) encoder \<Rightarrow> (operand \<Rightarrow> 'v option) \<Rightarrow> nat \<Rightarrow> summand list \<Rightarrow> ('w, nat, 'e) proc" where
  "run_sum enc look tot [] = retM tot"
| "run_sum enc look tot (Zero # ss) = run_sum enc look (tot + 0) ss"
| "run_sum enc look tot (EncodeCall x # ss) =
     (case look x of
        Some v \<Rightarrow> bindM (enc v) (\<lambda>n. run_sum enc look (tot + n) ss)
      | None \<Rightarrow> stuck)"

fun tag_expr_value :: "('x, 'v) runtime \<Rightarrow> 'x tag_expr \<Rightarrow> 'v" where
  "tag_expr_value R (Plain e) = lit R e"
| "tag_expr_value R (ConstFrom p e) = const_from R p (lit R e)"

fun run_tag_body :: "('x, 'v) runtime \<Rightarrow> (ident \<rightharpoonup> 'v) \<Rightarrow> 'x tag_body \<Rightarrow> ('w, 'v, 'e) proc" where
  "run_tag_body R env (CloneOf x) = (case env x of Some v \<Rightarrow> retM v | None \<Rightarrow> stuck)"
| "run_tag_body R env (PanicWith msg) = panicM msg"
| "run_tag_body R env (Block e) = retM (tag_expr_value R e)"

text \<open>The first arm whose path and pattern match.\<close>

fun match_self :: "(path \<times> pattern \<times> 'b) list \<Rightarrow> 'v obj \<Rightarrow> ((ident \<rightharpoonup> 'v) \<times> 'b) option" where
  "match_self [] x = None"
| "match_self ((p, pat, body) # arms) x =
     (if obj_path x = p then
        (case match_pattern pat x of Some env \<Rightarrow> Some (env, body) | None \<Rightarrow> match_self arms x)
      else match_self arms x)"

fun run_encode :: "('x, 'v) runtime \<Rightarrow> ('w, 'v, 'e) encoder \<Rightarrow> 'x encode_impl \<Rightarrow> ('w, 'v obj, 'e) encoder" where
  "run_encode R enc (EncodeStruct ss) x = run_sum enc (operand_value x Map.empty) 0 ss"
| "run_encode R enc (EncodeEnum tag_variants impl_variants) x =
     bindM (case match_self tag_variants x of
              Some (env, body) \<Rightarrow> run_tag_body R env body
            | None \<Rightarrow> stuck)
     (\<lambda>tag. bindM (enc tag) (\<lambda>n.
      bindM (case match_self impl_variants x of
               Some (env, ss) \<Rightarrow> run_sum enc (operand_value x env) 0 ss
             | None \<Rightarrow> stuck)
      (\<lambda>m. retM (n + m))))"

section \<open>What the code is meant to do\<close>

fun fields_of :: "Fields \<Rightarrow> Field list" where
  "fields_of (Named fs) = fs"
| "fields_of (Unnamed fs) = fs"
| "fields_of Unit = []"

fun make_obj :: "path \<Rightarrow> Fields \<Rightarrow> 'v list \<Rightarrow> 'v obj" where
  "make_obj p (Named fs) vs = ObjNamed p (zip (map field_ident fs) vs)"
| "make_obj p (Unnamed fs) vs = ObjTuple p vs"
| "make_obj p Unit vs = ObjUnit p"

text \<open>A field is the tag if it is marked unknown, and is decoded by its type otherwise.\<close>

definition field_decoder :: "('x, 'v) runtime \<Rightarrow> 'x syn \<Rightarrow> 'v option \<Rightarrow> Field \<Rightarrow> 'v decoder" where
  "field_decoder R syn tag f =
     (if unknown_or_false syn f then (case tag of Some v \<Rightarrow> retM v | None \<Rightarrow> stuck)
      else decode_ty R (field_ty f))"

definition fields_decoder ::
  "('x, 'v) runtime \<Rightarrow> 'x syn \<Rightarrow> path \<Rightarrow> Fields \<Rightarrow> 'v option \<Rightarrow> 'v obj decoder" where
  "fields_decoder R syn p flds tag =
     bindM (seqM (map (field_decoder R syn tag) (fields_of flds))) (\<lambda>vs. retM (make_obj p flds vs))"

fun tag_value :: "('x, 'v) runtime \<Rightarrow> Converter option \<Rightarrow> 'x \<Rightarrow> 'v" where
  "tag_value R None e = lit R e"
| "tag_value R (Some (Converter p)) e = const_from R p (lit R e)"

text \<open>The first variant with the tag that was read, an unknown one taking any tag.\<close>

fun select_variant ::
  "('x, 'v) runtime \<Rightarrow> 'x syn \<Rightarrow> Converter option \<Rightarrow> Variant list \<Rightarrow> 'v \<Rightarrow> (Variant \<times> 'v option) option" where
  "select_variant R syn conv [] v = None"
| "select_variant R syn conv (variant # variants) v =
     (case get_variant_tag syn variant of
        Inl _ \<Rightarrow> None
      | Inr Unknown \<Rightarrow> Some (variant, Some v)
      | Inr (Tag e) \<Rightarrow>
          if v = tag_value R conv e then Some (variant, None)
          else select_variant R syn conv variants v)"

definition enum_decoder ::
  "('x, 'v) runtime \<Rightarrow> 'x syn \<Rightarrow> ident \<Rightarrow> Variant list \<Rightarrow> Converter option \<Rightarrow> 'v obj decoder" where
  "enum_decoder R syn name variants conv =
     bindM (decode_ty R (tag_ty R)) (\<lambda>tag.
       case select_variant R syn conv variants tag of
         Some (variant, unknown) \<Rightarrow>
           fields_decoder R syn [name, variant_ident variant] (variant_fields variant) unknown
       | None \<Rightarrow> stuck)"

section \<open>Identifiers\<close>

fun undecimal :: "string \<Rightarrow> nat" where
  "undecimal s = foldl (\<lambda>a c. a * 10 + (of_char c - 48)) 0 s"

lemma undecimal_decimal: "undecimal (decimal n) = n"
proof (induction n rule: decimal.induct)
  case (1 n)
  show ?case
  proof (cases "n < 10")
    case True
    then show ?thesis by (simp add: decimal.simps [of n])
  next
    case False
    then have "undecimal (decimal n) = n div 10 * 10 + n mod 10"
      using 1 by (simp add: decimal.simps [of n])
    then show ?thesis by simp
  qed
qed

lemma index_ident_inj [simp]: "index_ident i = index_ident j \<longleftrightarrow> i = j"
  using undecimal_decimal by (metis index_ident_def same_append_eq)

lemma decimal_digits: "c \<in> set (decimal n) \<Longrightarrow> of_char c < (58 :: nat)"
proof (induction n rule: decimal.induct)
  case (1 n)
  have "n mod 10 < 10" by simp
  then show ?case using 1 decimal.simps [of n] by (auto split: if_splits)
qed

lemma decimal_nonempty [simp]: "decimal n \<noteq> []"
  by (simp add: decimal.simps [of n])

lemma index_ident_not_underscore [simp]: "index_ident i \<noteq> ''_''"
  by (simp add: index_ident_def)

lemma index_ident_not_unknown [simp]: "index_ident i \<noteq> ''_unknown''"
proof
  assume "index_ident i = ''_unknown''"
  then have "CHR ''u'' \<in> set (decimal i)" by (simp add: index_ident_def)
  then show False using decimal_digits by force
qed

section \<open>The generated decoder\<close>

definition unknown_env :: "'v option \<Rightarrow> (ident \<rightharpoonup> 'v)" where
  "unknown_env tag = (case tag of Some v \<Rightarrow> [''_unknown'' \<mapsto> v] | None \<Rightarrow> Map.empty)"

lemma decode_field_run:
  assumes "decode_field syn (map_option (\<lambda>_. Unknown) tag) f = Inr i"
  shows "run_init R (unknown_env tag) i = field_decoder R syn tag f"
  using assms
  by (cases "is_unknown syn f"; cases tag)
     (auto simp: decode_field_def field_decoder_def unknown_or_false_def unknown_env_def split: bool.splits)

lemma decode_fields_run:
  assumes "decode_fields syn p flds (map_option (\<lambda>_. Unknown) tag) = Inr c"
  shows "run_construct R (unknown_env tag) c = fields_decoder R syn p flds tag"
proof (cases flds)
  case (Named fs)
  then obtain inits where c: "c = MakeNamed p inits"
    and all: "list_all2 (\<lambda>f init. result_map (Pair (field_ident f))
      (decode_field syn (map_option (\<lambda>_. Unknown) tag) f) = Inr init) fs inits"
    using assms by (auto simp: return_iff)
  from all have "map fst inits = map field_ident fs \<and>
      map (run_init R (unknown_env tag)) (map snd inits) = map (field_decoder R syn tag) fs"
    by (induction rule: list_all2_induct) (auto simp: return_iff decode_field_run)
  then show ?thesis using Named c by (simp add: fields_decoder_def)
next
  case (Unnamed fs)
  then obtain inits where c: "c = MakeUnnamed p inits"
    and all: "list_all2 (\<lambda>f i. decode_field syn (map_option (\<lambda>_. Unknown) tag) f = Inr i) fs inits"
    using assms by (auto simp: return_iff)
  from all have "map (run_init R (unknown_env tag)) inits = map (field_decoder R syn tag) fs"
    by (induction rule: list_all2_induct) (auto simp: decode_field_run)
  then show ?thesis using Unnamed c by (simp add: fields_decoder_def)
next
  case Unit
  then show ?thesis using assms by (auto simp: fields_decoder_def)
qed

text \<open>The constants of an enum with a converter: one for each tagged variant.\<close>


lemma const_env_step:
  assumes "tag_constant syn p (n, variant) = Inr c"
  shows "const_binding R c = (case get_variant_tag syn variant of
     Inr (Tag e) \<Rightarrow> [(index_ident n, const_from R p (lit R e))] | _ \<Rightarrow> [])"
  using assms by (auto simp: tag_constant_def return_iff split: if_splits CodecMeta.splits)

lemma const_env_dom:
  assumes "list_all2 (\<lambda>iv c. tag_constant syn p iv = Inr c) (List.enumerate n variants) cs"
    and "const_env R cs x = Some v"
  shows "\<exists>i \<ge> n. x = index_ident i"
  using assms
proof (induction variants arbitrary: n cs v)
  case Nil
  then show ?case by (simp add: const_env_def)
next
  case (Cons variant variants)
  then obtain c cs' where cs: "cs = c # cs'" "tag_constant syn p (n, variant) = Inr c"
    "list_all2 (\<lambda>iv c. tag_constant syn p iv = Inr c) (List.enumerate (Suc n) variants) cs'"
    by (auto simp: list_all2_Cons1)
  show ?case
  proof (cases "const_env R cs' x")
    case None
    then show ?thesis
      using Cons.prems(2) const_env_step [OF cs(2), of R] cs(1)
      by (auto simp: const_env_def map_add_def split: sum.splits CodecMeta.splits if_splits)
  next
    case (Some w)
    then show ?thesis using Cons.IH [OF cs(3) Some] Suc_leD by blast
  qed
qed

lemma const_env_tag:
  assumes "list_all2 (\<lambda>iv c. tag_constant syn p iv = Inr c) (List.enumerate n variants) cs"
    and "(i, variant) \<in> set (List.enumerate n variants)" and "get_variant_tag syn variant = Inr (Tag e)"
  shows "const_env R cs (index_ident i) = Some (const_from R p (lit R e))"
  using assms
proof (induction variants arbitrary: n cs)
  case (Cons v variants)
  then obtain c cs' where cs: "cs = c # cs'" "tag_constant syn p (n, v) = Inr c"
    "list_all2 (\<lambda>iv c. tag_constant syn p iv = Inr c) (List.enumerate (Suc n) variants) cs'"
    by (auto simp: list_all2_Cons1)
  show ?case
  proof (cases "i = n")
    case True
    have "v = variant" using Cons.prems(2) True by (auto simp: in_set_enumerate_eq)
    then show ?thesis
      using const_env_step [OF cs(2), of R] Cons.prems(3) True by (simp add: const_env_def cs(1))
  next
    case False
    then have "const_env R cs' (index_ident i) = Some (const_from R p (lit R e))"
      using Cons.IH [OF cs(3) _ Cons.prems(3)] Cons.prems(2) by simp
    then show ?thesis
      using const_env_step [OF cs(2), of R] False
      by (auto simp: const_env_def cs(1) map_add_def split: sum.splits CodecMeta.splits)
  qed
qed simp

text \<open>The \<open>match\<close> on the tag selects a variant.\<close>

lemma run_arms_select:
  assumes "list_all2 (\<lambda>iv arm. decode_arm syn name conv iv = Inr arm) (List.enumerate n variants) arms"
    and "cenv ''_unknown'' = None"
    and "\<And>i variant e. (i, variant) \<in> set (List.enumerate n variants) \<Longrightarrow> conv \<noteq> None \<Longrightarrow>
      get_variant_tag syn variant = Inr (Tag e) \<Longrightarrow> cenv (index_ident i) = Some (tag_value R conv e)"
  shows "run_arms R cenv arms v =
    (case select_variant R syn conv variants v of
       Some (variant, unknown) \<Rightarrow>
         fields_decoder R syn [name, variant_ident variant] (variant_fields variant) unknown
     | None \<Rightarrow> stuck)"
  using assms
proof (induction variants arbitrary: n arms)
  case (Cons variant variants)
  then obtain arm arms' where arms: "arms = arm # arms'" "decode_arm syn name conv (n, variant) = Inr arm"
    "list_all2 (\<lambda>iv arm. decode_arm syn name conv iv = Inr arm) (List.enumerate (Suc n) variants) arms'"
    by (auto simp: list_all2_Cons1)
  obtain m c where m: "get_variant_tag syn variant = Inr m"
    and c: "decode_fields syn [name, variant_ident variant] (variant_fields variant) (opt_unknown m) = Inr c"
    and arm: "arm = (if conv \<noteq> None \<and> m \<noteq> Unknown then Name (index_ident n) else to_tokens m, c)"
    using arms(2) by (auto simp: decode_arm_def return_iff split: if_splits)
  have IH: "run_arms R cenv arms' v =
    (case select_variant R syn conv variants v of
       Some (variant, unknown) \<Rightarrow>
         fields_decoder R syn [name, variant_ident variant] (variant_fields variant) unknown
     | None \<Rightarrow> stuck)"
    using arms(3) Cons.prems(2,3) by (intro Cons.IH) auto
  show ?case
  proof (cases m)
    case Unknown
    then show ?thesis
      using decode_fields_run [of syn _ _ "Some v" c R] c m arm arms(1) Cons.prems(2)
      by (simp add: unknown_env_def)
  next
    case (Tag e)
    have "run_construct R Map.empty c
        = fields_decoder R syn [name, variant_ident variant] (variant_fields variant) None"
      using decode_fields_run [of syn _ _ None c R] c Tag by (simp add: unknown_env_def)
    moreover have "match_tag R cenv (fst arm) v = (if v = tag_value R conv e then Some Map.empty else None)"
      using Cons.prems(3) [of n variant e] m Tag arm by (cases conv) auto
    moreover have "arms = (fst arm, c) # arms'" using arm arms(1) by simp
    ultimately show ?thesis using m Tag IH by simp
  qed
qed simp

lemma decode_enum_run:
  assumes "decode_data syn name (Enum variants) conv = Inr code"
  shows "run_decode R code = enum_decoder R syn name variants conv"
proof -
  obtain cs arms where code: "code = DecodeEnum cs arms"
    and cs: "(case conv of Some (Converter path) \<Rightarrow> collect_map (tag_constant syn path) (List.enumerate 0 variants)
            | None \<Rightarrow> Inr []) = Inr cs"
    and arms: "list_all2 (\<lambda>iv arm. decode_arm syn name conv iv = Inr arm) (List.enumerate 0 variants) arms"
    using assms by (auto simp: return_iff)
  have unknown: "const_env R cs ''_unknown'' = None"
  proof (cases conv)
    case None
    then show ?thesis using cs by (simp add: const_env_def)
  next
    case (Some c)
    then show ?thesis
      using cs const_env_dom [of syn _ 0 variants cs R "''_unknown''"]
      by (cases c; cases "const_env R cs ''_unknown''") (auto simp: return_iff index_ident_not_unknown [symmetric])
  qed
  have tags: "const_env R cs (index_ident i) = Some (tag_value R conv e)"
    if "(i, variant) \<in> set (List.enumerate 0 variants)" "conv \<noteq> None" "get_variant_tag syn variant = Inr (Tag e)"
    for i variant e
  proof -
    note prems = that
    obtain p where p: "conv = Some (Converter p)" using prems(2) by (metis Converter.exhaust option.exhaust)
    then show ?thesis using cs const_env_tag [OF _ prems(1,3), of p cs R] by (simp add: return_iff)
  qed
  have "run_arms R (const_env R cs) arms = (\<lambda>v.
    case select_variant R syn conv variants v of
       Some (variant, unknown) \<Rightarrow>
         fields_decoder R syn [name, variant_ident variant] (variant_fields variant) unknown
     | None \<Rightarrow> stuck)"
    by (rule ext, rule run_arms_select [OF arms, where cenv = "const_env R cs"], rule unknown) (rule tags)
  then show ?thesis using code by (simp add: enum_decoder_def)
qed

lemma decode_struct_run:
  assumes "decode_data syn name (Struct flds) conv = Inr code"
  shows "run_decode R code = fields_decoder R syn [name] flds None"
  using assms decode_fields_run [of syn "[name]" flds None _ R]
  by (auto simp: return_iff unknown_env_def)

section \<open>The generated encoder\<close>

fun wf_fields :: "Fields \<Rightarrow> bool" where
  "wf_fields (Named fs) \<longleftrightarrow> distinct (map field_ident fs)"
| "wf_fields _ \<longleftrightarrow> True"

text \<open>A variant with named fields whose pattern \<open>field_list\<close> is a pattern.\<close>

fun bindable :: "'x syn \<Rightarrow> Fields \<Rightarrow> bool" where
  "bindable syn (Named fs) \<longleftrightarrow> (\<exists>f \<in> set fs. \<not> unknown_or_false syn f)"
| "bindable syn _ \<longleftrightarrow> True"

definition known_values :: "'x syn \<Rightarrow> Fields \<Rightarrow> 'v list \<Rightarrow> 'v list" where
  "known_values syn flds vs = map snd (filter (\<lambda>(f, v). \<not> unknown_or_false syn f) (zip (fields_of flds) vs))"

definition first_unknown :: "'x syn \<Rightarrow> Fields \<Rightarrow> 'v list \<Rightarrow> 'v option" where
  "first_unknown syn flds vs =
     map_option snd (List.find (\<lambda>(f, v). unknown_or_false syn f) (zip (fields_of flds) vs))"

definition variant_tag ::
  "('x, 'v) runtime \<Rightarrow> 'x syn \<Rightarrow> ident \<Rightarrow> Converter option \<Rightarrow> Variant \<Rightarrow> 'v list \<Rightarrow> ('w, 'v, 'e) proc" where
  "variant_tag R syn name conv variant vs =
     (case get_variant_tag syn variant of
        Inr (Tag e) \<Rightarrow> retM (tag_value R conv e)
      | Inr Unknown \<Rightarrow>
          (case first_unknown syn (variant_fields variant) vs of
             Some v \<Rightarrow> retM v
           | None \<Rightarrow> panicM (''Tag unknown for '' @ name @ ''::'' @ variant_ident variant))
      | Inl _ \<Rightarrow> stuck)"

definition enum_encoder ::
  "('x, 'v) runtime \<Rightarrow> ('w, 'v, 'e) encoder \<Rightarrow> 'x syn \<Rightarrow> ident \<Rightarrow> Converter option \<Rightarrow> Variant \<Rightarrow> 'v list \<Rightarrow> ('w, nat, 'e) proc" where
  "enum_encoder R enc syn name conv variant vs =
     bindM (variant_tag R syn name conv variant vs) (\<lambda>tag. bindM (enc tag) (\<lambda>n.
     bindM (encode_Vec enc (known_values syn (variant_fields variant) vs)) (\<lambda>m. retM (n + m))))"

lemma obj_path_make [simp]: "obj_path (make_obj p flds vs) = p"
  by (cases flds) simp_all

lemma run_sum_values:
  assumes "list_all2 (\<lambda>s (f, v). if unknown_or_false syn f then s = Zero else \<exists>x. s = EncodeCall x \<and> look x = Some v)
    ss fvs"
  shows "run_sum enc look tot ss
    = encode_Vec_loop enc tot (map snd (filter (\<lambda>(f, v). \<not> unknown_or_false syn f) fvs))"
  using assms
proof (induction arbitrary: tot rule: list_all2_induct)
  case (Cons s ss fv fvs)
  obtain f v where "fv = (f, v)" by (cases fv)
  then show ?case using Cons by (cases "unknown_or_false syn f") auto
qed simp

lemma run_sum_fields:
  assumes "length vs = length (fields_of flds)"
    and "length ss = length vs"
    and "\<And>i. i < length vs \<Longrightarrow> unknown_or_false syn (fields_of flds ! i) \<Longrightarrow> ss ! i = Zero"
    and "\<And>i. i < length vs \<Longrightarrow> \<not> unknown_or_false syn (fields_of flds ! i) \<Longrightarrow>
      \<exists>x. ss ! i = EncodeCall x \<and> look x = Some (vs ! i)"
  shows "run_sum enc look 0 ss = encode_Vec enc (known_values syn flds vs)"
  unfolding encode_Vec_def known_values_def
  using assms by (intro run_sum_values) (auto simp: list_all2_conv_all_nth)

lemma field_lookup:
  assumes "distinct (map field_ident fs)" and "length vs = length fs" and "i < length fs"
  shows "map_of (zip (map field_ident fs) vs) (field_ident (fs ! i)) = Some (vs ! i)"
  using assms map_of_zip_nth [of "map field_ident fs" vs i] by simp

lemma encode_struct_run:
  assumes "encode_data syn name (Struct flds) conv = Inr code"
    and "wf_fields flds" and "length vs = length (fields_of flds)"
  shows "run_encode R enc code (make_obj p flds vs) = encode_Vec enc (known_values syn flds vs)"
proof -
  have "run_sum enc (operand_value (make_obj p flds vs) Map.empty) 0 (encode_fields syn True flds)
      = encode_Vec enc (known_values syn flds vs)"
  proof (rule run_sum_fields [OF assms(3)])
    fix i assume "i < length vs" "\<not> unknown_or_false syn (fields_of flds ! i)"
    then show "\<exists>x. encode_fields syn True flds ! i = EncodeCall x \<and>
        operand_value (make_obj p flds vs) Map.empty x = Some (vs ! i)"
      using assms(2,3) by (cases flds) (simp_all add: nth_enumerate_eq field_lookup del: map_of_eq_Some_iff)
  qed (use assms(3) in \<open>cases flds; auto simp: nth_enumerate_eq\<close>)+
  then show ?thesis using assms(1) by auto
qed

text \<open>The names a tuple pattern binds.\<close>

lemma tuple_env:
  assumes "length vs = length fs" and "i < length fs" and "\<not> P (fs ! i)"
  shows "map_of (filter (\<lambda>(x, v). x \<noteq> ''_'')
      (zip (map (\<lambda>(j, f). if P f then ''_'' else index_ident j) (List.enumerate n fs)) vs)) (index_ident (n + i))
    = Some (vs ! i)"
  using assms
proof (induction fs arbitrary: vs n i)
  case (Cons f fs)
  obtain v vs' where vs: "vs = v # vs'" using Cons.prems(1) by (cases vs) auto
  show ?case
  proof (cases i)
    case 0
    then show ?thesis using Cons.prems(3) vs by simp
  next
    case (Suc k)
    then show ?thesis using Cons.IH [of vs' k "Suc n"] Cons.prems vs by simp
  qed
qed simp

lemma field_list_run:
  assumes "wf_fields flds" and "length vs = length (fields_of flds)" and "bindable syn flds"
  shows "\<exists>env. match_pattern (field_list syn flds) (make_obj p flds vs) = Some env \<and>
    run_sum enc (operand_value (make_obj p flds vs) env) 0 (encode_fields syn False flds)
      = encode_Vec enc (known_values syn flds vs)"
proof (cases flds)
  case (Named fs)
  define xs where "xs = map field_ident (filter (\<lambda>f. \<not> unknown_or_false syn f) fs)"
  define l where "l = zip (map field_ident fs) vs"
  have "xs \<noteq> []" using assms(3) Named by (auto simp: xs_def filter_empty_conv)
  moreover have "set xs \<subseteq> fst ` set l"
    using assms(2) Named by (force simp: xs_def l_def set_zip in_set_conv_nth image_iff)
  ultimately have "match_pattern (field_list syn flds) (make_obj p flds vs) = Some (map_of l |` set xs)"
    by (simp add: Named xs_def l_def)
  moreover have "run_sum enc (operand_value (make_obj p flds vs) (map_of l |` set xs)) 0 (encode_fields syn False flds)
      = encode_Vec enc (known_values syn flds vs)"
  proof (rule run_sum_fields [OF assms(2)])
    fix i assume i: "i < length vs" "\<not> unknown_or_false syn (fields_of flds ! i)"
    then have "field_ident (fs ! i) \<in> set xs" using assms(2) Named by (auto simp: xs_def)
    moreover have "map_of l (field_ident (fs ! i)) = Some (vs ! i)"
      using assms Named i field_lookup [of fs vs i] by (simp add: l_def)
    ultimately show "\<exists>x. encode_fields syn False flds ! i = EncodeCall x \<and>
        operand_value (make_obj p flds vs) (map_of l |` set xs) x = Some (vs ! i)"
      using assms(2) Named i by simp
  qed (use assms(2) Named in auto)
  ultimately show ?thesis by blast
next
  case (Unnamed fs)
  define xs where "xs = map (\<lambda>(j, f). if unknown_or_false syn f then ''_'' else index_ident j) (List.enumerate 0 fs)"
  define env where "env = map_of (filter (\<lambda>(x, v). x \<noteq> ''_'') (zip xs vs))"
  have "match_pattern (field_list syn flds) (make_obj p flds vs) = Some env"
    using assms(2) Unnamed by (simp add: env_def xs_def)
  moreover have "run_sum enc (operand_value (make_obj p flds vs) env) 0 (encode_fields syn False flds)
      = encode_Vec enc (known_values syn flds vs)"
  proof (rule run_sum_fields [OF assms(2)])
    fix i assume i: "i < length vs" "\<not> unknown_or_false syn (fields_of flds ! i)"
    then have "env (index_ident i) = Some (vs ! i)"
      using tuple_env [of vs fs i "unknown_or_false syn" 0] assms(2) Unnamed by (simp add: env_def xs_def)
    then show "\<exists>x. encode_fields syn False flds ! i = EncodeCall x \<and>
        operand_value (make_obj p flds vs) env x = Some (vs ! i)"
      using assms(2) Unnamed i by (simp add: nth_enumerate_eq)
  qed (use assms(2) Unnamed in \<open>auto simp: nth_enumerate_eq\<close>)
  ultimately show ?thesis by blast
next
  case Unit
  then show ?thesis by (simp add: known_values_def encode_Vec_def)
qed

text \<open>Named fields that are all unknown leave the pattern \<open>{ , .. }\<close>, which no value matches.\<close>

lemma not_bindable_pattern:
  "\<not> bindable syn flds \<Longrightarrow> field_list syn flds = FieldsPattern [] \<and> match_pattern (field_list syn flds) x = None"
  by (cases flds; cases x) auto

lemma find_map: "List.find P (map f xs) = map_option f (List.find (\<lambda>x. P (f x)) xs)"
  by (induction xs) simp_all

lemma find_fields_index:
  assumes "length vs = length fs"
  shows "map_option snd (List.find (\<lambda>(f, v). P f) (zip fs vs)) = map_option (\<lambda>(i, f). vs ! i) (List.find (\<lambda>(i, f). P f) (List.enumerate 0 fs))"
proof -
  have "zip fs vs = map (\<lambda>(i, f). (f, vs ! i)) (List.enumerate 0 fs)"
    using assms by (simp add: list_eq_iff_nth_eq nth_enumerate_eq)
  then show ?thesis by (simp add: find_map comp_def case_prod_unfold option.map_comp)
qed

lemma extract_unknown_named:
  assumes "wf_fields (Named fs)" and "length vs = length fs"
  shows "(case extract_unknown syn (Named fs) of
       Some (pat, x) \<Rightarrow> (\<exists>env. match_pattern pat (make_obj p (Named fs) vs) = Some env \<and> env x \<noteq> None \<and>
         first_unknown syn (Named fs) vs = env x)
     | None \<Rightarrow> first_unknown syn (Named fs) vs = None)"
proof -
  show ?thesis
  proof (cases "List.find (unknown_or_false syn) fs")
    case None
    then have "first_unknown syn (Named fs) vs = None"
      by (auto simp: first_unknown_def find_None_iff dest: set_zip_leftD)
    then show ?thesis using None by simp
  next
    case (Some f)
    then obtain i where i: "i < length fs" "fs ! i = f" "unknown_or_false syn f"
      "\<And>j. j < i \<Longrightarrow> \<not> unknown_or_false syn (fs ! j)"
      by (auto simp: find_Some_iff)
    have "List.find (\<lambda>(f, v). unknown_or_false syn f) (zip fs vs) = Some (fs ! i, vs ! i)"
      unfolding find_Some_iff using assms(2) i by (intro exI [of _ i]) auto
    then have "first_unknown syn (Named fs) vs = Some (vs ! i)" by (simp add: first_unknown_def)
    moreover have "map_of (zip (map field_ident fs) vs) (field_ident f) = Some (vs ! i)"
      using field_lookup [of fs vs i] assms i by simp
    moreover have "field_ident f \<in> fst ` set (zip (map field_ident fs) vs)"
      using calculation(2) by (metis domI dom_map_of_conv_image_fst)
    ultimately show ?thesis using Some by simp
  qed
qed

lemma extract_unknown_unnamed:
  assumes "length vs = length fs"
  shows "(case extract_unknown syn (Unnamed fs) of
       Some (pat, x) \<Rightarrow> (\<exists>env. match_pattern pat (make_obj p (Unnamed fs) vs) = Some env \<and> env x \<noteq> None \<and>
         first_unknown syn (Unnamed fs) vs = env x)
     | None \<Rightarrow> first_unknown syn (Unnamed fs) vs = None)"
proof -
  define xs where "xs = map (\<lambda>(j, f). index_ident j) (List.enumerate 0 fs)"
  have fst: "map fst (map (\<lambda>(index, field). (index_ident index, field)) (List.enumerate 0 fs)) = xs"
    by (simp add: xs_def case_prod_unfold comp_def)
  have first: "first_unknown syn (Unnamed fs) vs =
      map_option (\<lambda>(i, f). vs ! i) (List.find (\<lambda>(i, f). unknown_or_false syn f) (List.enumerate 0 fs))"
    using find_fields_index [of vs fs "unknown_or_false syn"] assms by (simp add: first_unknown_def)
  have env: "map_of (filter (\<lambda>(x, v). x \<noteq> ''_'') (zip xs vs)) (index_ident i) = Some (vs ! i)" if "i < length fs" for i
    using tuple_env [of vs fs i "\<lambda>f. False" 0] assms that by (simp add: xs_def)
  have pat: "match_pattern (TuplePattern xs) (make_obj p (Unnamed fs) vs)
      = Some (map_of (filter (\<lambda>(x, v). x \<noteq> ''_'') (zip xs vs)))"
    using assms by (simp add: xs_def)
  show ?thesis
  proof (cases "List.find (\<lambda>(i, f). unknown_or_false syn f) (List.enumerate 0 fs)")
    case None
    then show ?thesis using first by (simp add: find_map comp_def case_prod_unfold Let_def)
  next
    case (Some jf)
    then obtain i where i: "i < length fs" "jf = (i, fs ! i)"
      by (auto simp: find_Some_iff nth_enumerate_eq)
    have eq: "extract_unknown syn (Unnamed fs) = Some (TuplePattern xs, index_ident i)"
      using Some i fst by (simp add: find_map comp_def case_prod_unfold Let_def)
    show ?thesis
      unfolding eq option.case prod.case using first Some i env [OF i(1)] pat
      by (intro exI [of _ "map_of (filter (\<lambda>(x, v). x \<noteq> ''_'') (zip xs vs))"]) simp
  qed
qed

lemma extract_unknown_run:
  assumes "wf_fields flds" and "length vs = length (fields_of flds)"
  shows "(case extract_unknown syn flds of
       Some (pat, x) \<Rightarrow> (\<exists>env. match_pattern pat (make_obj p flds vs) = Some env \<and> env x \<noteq> None \<and>
         first_unknown syn flds vs = env x)
     | None \<Rightarrow> first_unknown syn flds vs = None)"
proof (cases flds)
  case (Named fs)
  show ?thesis unfolding Named by (rule extract_unknown_named) (use assms Named in simp_all)
next
  case (Unnamed fs)
  show ?thesis unfolding Unnamed by (rule extract_unknown_unnamed) (use assms(2) Unnamed in simp)
next
  case Unit
  then show ?thesis by (simp add: first_unknown_def)
qed

lemma match_self_nth:
  assumes "list_all2 (\<lambda>var arm. fst arm = [name, variant_ident var]) variants arms"
    and "distinct (map variant_ident variants)" and "i < length variants"
    and "obj_path x = [name, variant_ident (variants ! i)]"
    and "match_pattern (fst (snd (arms ! i))) x = Some env"
  shows "match_self arms x = Some (env, snd (snd (arms ! i)))"
  using assms
proof (induction arbitrary: i rule: list_all2_induct)
  case (Cons var variants arm arms)
  obtain p pat body where arm: "arm = (p, pat, body)" by (cases arm)
  show ?case
  proof (cases i)
    case 0
    then show ?thesis using Cons.prems Cons.hyps arm by simp
  next
    case (Suc k)
    then have "variant_ident (variants ! k) \<noteq> variant_ident var"
      using Cons.prems(1,2) by (metis distinct.simps(2) list.simps(9) length_map nth_map nth_mem length_Cons Suc_less_eq)
    then show ?thesis using Cons.IH [of k] Cons.prems Cons.hyps Suc arm by simp
  qed
qed simp

lemma tag_arm_path: "tag_arm syn name conv variant = Inr arm \<Longrightarrow> fst arm = [name, variant_ident variant]"
  by (cases "get_variant_tag syn variant")
     (auto simp: tag_arm_def Let_def split: CodecMeta.split_asm option.split_asm)

lemma tag_arm_run:
  assumes "tag_arm syn name conv variant = Inr arm"
    and "wf_fields (variant_fields variant)" and "length vs = length (fields_of (variant_fields variant))"
  shows "\<exists>env. match_pattern (fst (snd arm)) (make_obj p (variant_fields variant) vs) = Some env \<and>
    run_tag_body R env (snd (snd arm)) = variant_tag R syn name conv variant vs"
proof -
  obtain m where m: "get_variant_tag syn variant = Inr m" using assms(1) by (auto simp: tag_arm_def return_iff)
  show ?thesis
  proof (cases m)
    case Unknown
    then show ?thesis
      using extract_unknown_run [OF assms(2,3), of syn p] assms(1) m
      by (auto simp: tag_arm_def variant_tag_def Let_def split: option.splits)
  next
    case (Tag e)
    have "tag_expr_value R (call_converter conv e) = tag_value R conv e"
      by (cases "(conv, e)" rule: call_converter.cases) auto
    then show ?thesis using assms(1) m Tag by (auto simp: tag_arm_def variant_tag_def Let_def)
  qed
qed

lemma encode_enum_run:
  fixes enc :: "('w, 'v, 'e) encoder"
  assumes "encode_data syn name (Enum variants) conv = Inr code"
    and "variant \<in> set variants" and "distinct (map variant_ident variants)"
    and "wf_fields (variant_fields variant)" and "length vs = length (fields_of (variant_fields variant))"
    and "bindable syn (variant_fields variant)"
  shows "run_encode R enc code (make_obj [name, variant_ident variant] (variant_fields variant) vs)
    = enum_encoder R enc syn name conv variant vs"
proof -
  let ?x = "make_obj [name, variant_ident variant] (variant_fields variant) vs"
  obtain tags where code: "code = EncodeEnum tags (map (encode_arm syn name) variants)"
    and tags: "list_all2 (\<lambda>v a. tag_arm syn name conv v = Inr a) variants tags"
    using assms(1) by (auto simp: return_iff)
  obtain i where i: "i < length variants" "variants ! i = variant"
    using assms(2) by (auto simp: in_set_conv_nth)
  have arm: "tag_arm syn name conv variant = Inr (tags ! i)" using tags i list_all2_nthD by fastforce
  have paths: "list_all2 (\<lambda>v a. fst a = [name, variant_ident v]) variants tags"
    using tags by (rule list_all2_mono) (rule tag_arm_path)
  obtain env where env: "match_pattern (fst (snd (tags ! i))) ?x = Some env"
    "(run_tag_body R env (snd (snd (tags ! i))) :: ('w, 'v, 'e) proc) = variant_tag R syn name conv variant vs"
    using tag_arm_run [OF arm assms(4,5), of "[name, variant_ident variant]" R] by blast
  have 1: "match_self tags ?x = Some (env, snd (snd (tags ! i)))"
    using match_self_nth [OF paths assms(3) i(1) _ env(1)] i(2) by simp
  obtain env' where env': "match_pattern (field_list syn (variant_fields variant)) ?x = Some env'"
    "run_sum enc (operand_value ?x env') 0 (encode_fields syn False (variant_fields variant))
      = encode_Vec enc (known_values syn (variant_fields variant) vs)"
    using field_list_run [OF assms(4,5,6), of "[name, variant_ident variant]" enc] by blast
  have 2: "match_self (map (encode_arm syn name) variants) ?x
      = Some (env', encode_fields syn False (variant_fields variant))"
    using match_self_nth [of name variants "map (encode_arm syn name) variants" i ?x env'] assms(3) i env'(1)
    by (simp add: list_all2_conv_all_nth encode_arm_def)
  show ?thesis by (simp add: code 1 2 env(2) env'(2) enum_encoder_def)
qed

end
