(* ===== verification/Derive_Laws.thy ===== *)
theory Derive_Laws
  imports Derive_Code
begin

text \<open>
  Properties of the generated code for every type the derive macros accept: which inputs they refuse,
  that a generated decoder always answers and builds values of the type, and that it takes off again
  what the generated encoder of the same type has written.

  The locale \<open>derive_runtime\<close> is what a derived implementation relies on: the implementations of
  \<open>Decode\<close> and \<open>Encode\<close> for the types of the fields and of the tag.
\<close>

section \<open>Values of a derived type\<close>

fun obj_values :: "'v obj \<Rightarrow> 'v list" where
  "obj_values (ObjNamed p fs) = map snd fs"
| "obj_values (ObjTuple p vs) = vs"
| "obj_values (ObjUnit p) = []"

definition typed_obj :: "('v \<Rightarrow> ty \<Rightarrow> bool) \<Rightarrow> path \<Rightarrow> Fields \<Rightarrow> 'v obj \<Rightarrow> bool" where
  "typed_obj has_type p flds x \<longleftrightarrow>
     x = make_obj p flds (obj_values x) \<and>
     list_all2 (\<lambda>f v. has_type v (field_ty f)) (fields_of flds) (obj_values x)"

fun inhabits :: "('v \<Rightarrow> ty \<Rightarrow> bool) \<Rightarrow> ident \<Rightarrow> Data \<Rightarrow> 'v obj \<Rightarrow> bool" where
  "inhabits has_type name (Struct flds) x \<longleftrightarrow> typed_obj has_type [name] flds x"
| "inhabits has_type name (Enum variants) x \<longleftrightarrow>
     (\<exists>variant \<in> set variants. typed_obj has_type [name, variant_ident variant] (variant_fields variant) x)"
| "inhabits has_type name Union x \<longleftrightarrow> False"

lemma obj_values_make: "length vs = length (fields_of flds) \<Longrightarrow> obj_values (make_obj p flds vs) = vs"
  by (cases flds) auto

lemma typed_make:
  "list_all2 (\<lambda>f v. has_type v (field_ty f)) (fields_of flds) vs \<Longrightarrow> typed_obj has_type p flds (make_obj p flds vs)"
  using obj_values_make [of vs flds p] by (simp add: typed_obj_def list_all2_lengthD)

text \<open>What the compiler checks of the generated \<open>match\<close>: the unknown fields have the type of the tag, and every tag has an arm.\<close>

fun unknown_typed :: "('x, 'v) runtime \<Rightarrow> 'x syn \<Rightarrow> Data \<Rightarrow> bool" where
  "unknown_typed R syn (Enum variants) \<longleftrightarrow>
     (\<forall>variant \<in> set variants. \<forall>f \<in> set (fields_of (variant_fields variant)).
        unknown_or_false syn f \<longrightarrow> field_ty f = tag_ty R)"
| "unknown_typed R syn _ \<longleftrightarrow> True"

fun exhaustive :: "('x, 'v) runtime \<Rightarrow> ('v \<Rightarrow> ty \<Rightarrow> bool) \<Rightarrow> 'x syn \<Rightarrow> Converter option \<Rightarrow> Data \<Rightarrow> bool" where
  "exhaustive R has_type syn conv (Enum variants) \<longleftrightarrow>
     (\<exists>variant \<in> set variants. get_variant_tag syn variant = Inr Unknown) \<or>
     (\<forall>v. has_type v (tag_ty R) \<longrightarrow>
        (\<exists>variant \<in> set variants. \<exists>e. get_variant_tag syn variant = Inr (Tag e) \<and> v = tag_value R conv e))"
| "exhaustive R has_type syn conv _ \<longleftrightarrow> True"

text \<open>
  The layout of a value on the wire: every encoded field but the last announces its own end, and so does
  the last unless nothing follows.
\<close>

definition known_types :: "'x syn \<Rightarrow> Field list \<Rightarrow> ty list" where
  "known_types syn fs = map field_ty (filter (\<lambda>f. \<not> unknown_or_false syn f) fs)"

definition readable :: "(ty \<Rightarrow> bool) \<Rightarrow> ty list \<Rightarrow> bytes \<Rightarrow> bool" where
  "readable delimited tys rest \<longleftrightarrow>
     (\<forall>t \<in> set (butlast tys). delimited t) \<and> (tys \<noteq> [] \<longrightarrow> delimited (last tys) \<or> rest = [])"

text \<open>Tags that tell the variants apart: no two are equal, and an unknown variant comes last.\<close>

fun variant_key :: "('x, 'v) runtime \<Rightarrow> 'x syn \<Rightarrow> Converter option \<Rightarrow> Variant \<Rightarrow> 'v option" where
  "variant_key R syn conv variant =
     (case get_variant_tag syn variant of Inr (Tag e) \<Rightarrow> Some (tag_value R conv e) | _ \<Rightarrow> None)"

definition well_tagged :: "('x, 'v) runtime \<Rightarrow> 'x syn \<Rightarrow> Converter option \<Rightarrow> Variant list \<Rightarrow> bool" where
  "well_tagged R syn conv variants \<longleftrightarrow>
     distinct (map (variant_key R syn conv) variants) \<and>
     (\<forall>variant \<in> set (butlast variants). variant_key R syn conv variant \<noteq> None)"

text \<open>The tag a value is written with, if the unknown fields agree on it.\<close>

definition value_tag ::
  "('x, 'v) runtime \<Rightarrow> 'x syn \<Rightarrow> Converter option \<Rightarrow> Variant \<Rightarrow> 'v list \<Rightarrow> 'v option" where
  "value_tag R syn conv variant vs =
     (case variant_key R syn conv variant of
        Some t \<Rightarrow> Some t
      | None \<Rightarrow>
          (case first_unknown syn (variant_fields variant) vs of
             None \<Rightarrow> None
           | Some t \<Rightarrow>
               if list_all (\<lambda>(f, v). unknown_or_false syn f \<longrightarrow> v = t) (zip (fields_of (variant_fields variant)) vs)
               then Some t else None))"

fun sendable ::
  "('x, 'v) runtime \<Rightarrow> ('v \<Rightarrow> ty \<Rightarrow> bool) \<Rightarrow> (ty \<Rightarrow> bool) \<Rightarrow> 'x syn \<Rightarrow> Converter option \<Rightarrow> ident \<Rightarrow> Data \<Rightarrow> 'v obj \<Rightarrow> bytes \<Rightarrow> bool" where
  "sendable R has_type delimited syn conv name (Struct flds) x rest \<longleftrightarrow>
     wf_fields flds \<and> typed_obj has_type [name] flds x \<and> readable delimited (known_types syn (fields_of flds)) rest"
| "sendable R has_type delimited syn conv name (Enum variants) x rest \<longleftrightarrow>
     distinct (map variant_ident variants) \<and> well_tagged R syn conv variants \<and> delimited (tag_ty R) \<and>
     (\<exists>variant \<in> set variants.
        wf_fields (variant_fields variant) \<and> bindable syn (variant_fields variant) \<and>
        typed_obj has_type [name, variant_ident variant] (variant_fields variant) x \<and>
        readable delimited (known_types syn (fields_of (variant_fields variant))) rest \<and>
        (case value_tag R syn conv variant (obj_values x) of
           None \<Rightarrow> False
         | Some t \<Rightarrow> has_type t (tag_ty R) \<and>
             (variant_key R syn conv variant = None \<longrightarrow> Some t \<notin> variant_key R syn conv ` set variants)))"
| "sendable R has_type delimited syn conv name Union x rest \<longleftrightarrow> False"

section \<open>What the macros refuse\<close>

fun decode_refuses :: "'x syn \<Rightarrow> Data \<Rightarrow> bool" where
  "decode_refuses syn (Struct flds) \<longleftrightarrow> (\<exists>f \<in> set (fields_of flds). is_unknown syn f \<noteq> Inr False)"
| "decode_refuses syn (Enum variants) \<longleftrightarrow>
     (\<exists>variant \<in> set variants.
        (case get_variant_tag syn variant of
           Inl _ \<Rightarrow> True
         | Inr Unknown \<Rightarrow> (\<exists>f \<in> set (fields_of (variant_fields variant)). \<exists>e. is_unknown syn f = Inl e)
         | Inr (Tag _) \<Rightarrow> (\<exists>f \<in> set (fields_of (variant_fields variant)). is_unknown syn f \<noteq> Inr False)))"
| "decode_refuses syn Union \<longleftrightarrow> True"

fun encode_refuses :: "'x syn \<Rightarrow> Data \<Rightarrow> bool" where
  "encode_refuses syn (Struct flds) \<longleftrightarrow> False"
| "encode_refuses syn (Enum variants) \<longleftrightarrow> (\<exists>variant \<in> set variants. \<exists>e. get_variant_tag syn variant = Inl e)"
| "encode_refuses syn Union \<longleftrightarrow> True"

lemma result_map_fails: "(\<exists>e. result_map f r = Inl e) \<longleftrightarrow> (\<exists>e. r = Inl e)"
  by (cases r) simp_all

lemma bind_ret_fails: "(\<exists>e. bindE r (\<lambda>x. Inr (f x)) = Inl e) \<longleftrightarrow> (\<exists>e. r = Inl e)"
  by (cases r) simp_all

lemma decode_field_fails:
  "(\<exists>e. decode_field syn unknown f = Inl e) \<longleftrightarrow>
     (\<exists>e. is_unknown syn f = Inl e) \<or> is_unknown syn f = Inr True \<and> unknown = None"
  by (cases "is_unknown syn f"; cases unknown) (auto simp: decode_field_def split: bool.splits)

lemma decode_fields_fails:
  "(\<exists>e. decode_fields syn p flds unknown = Inl e) \<longleftrightarrow>
     (\<exists>f \<in> set (fields_of flds). (\<exists>e. is_unknown syn f = Inl e) \<or> is_unknown syn f = Inr True \<and> unknown = None)"
  by (cases flds) (simp_all add: bind_ret_fails collect_map_fails_iff result_map_fails decode_field_fails)

lemma decode_arm_fails:
  "(\<exists>e. decode_arm syn name conv (i, variant) = Inl e) \<longleftrightarrow>
     (case get_variant_tag syn variant of
        Inl _ \<Rightarrow> True
      | Inr m \<Rightarrow> (\<exists>e. decode_fields syn [name, variant_ident variant] (variant_fields variant) (opt_unknown m) = Inl e))"
proof (cases "get_variant_tag syn variant")
  case (Inr m)
  then show ?thesis
    by (cases "decode_fields syn [name, variant_ident variant] (variant_fields variant) (opt_unknown m)")
       (auto simp: decode_arm_def)
qed (simp add: decode_arm_def)

lemma is_unknown_cases: "(\<exists>e. is_unknown syn f = Inl e) \<or> is_unknown syn f = Inr True \<longleftrightarrow> is_unknown syn f \<noteq> Inr False"
  by (cases "is_unknown syn f") auto

lemma decode_enum_fails:
  "(\<exists>e. decode_data syn name (Enum variants) conv = Inl e) \<longleftrightarrow>
     (\<exists>variant \<in> set variants. case get_variant_tag syn variant of
        Inl _ \<Rightarrow> True
      | Inr m \<Rightarrow> (\<exists>e. decode_fields syn [name, variant_ident variant] (variant_fields variant) (opt_unknown m) = Inl e))"
    (is "_ \<longleftrightarrow> (\<exists>variant \<in> set variants. ?bad variant)")
proof -
  have snd: "(\<exists>iv \<in> set (List.enumerate 0 variants). P (snd iv)) \<longleftrightarrow> (\<exists>variant \<in> set variants. P variant)" for P
    by (metis (no_types, lifting) image_iff list.set_map map_snd_enumerate)
  have arm: "(\<exists>e. decode_arm syn name conv iv = Inl e) \<longleftrightarrow> ?bad (snd iv)" for iv
    using decode_arm_fails [of syn name conv "fst iv" "snd iv"] by simp
  have arms: "(\<exists>e. collect_map (decode_arm syn name conv) (List.enumerate 0 variants) = Inl e) \<longleftrightarrow>
      (\<exists>variant \<in> set variants. ?bad variant)"
    by (simp only: collect_map_fails_iff arm snd [of ?bad])
  show ?thesis
  proof (cases "case conv of Some (Converter path) \<Rightarrow> collect_map (tag_constant syn path) (List.enumerate 0 variants)
            | None \<Rightarrow> Inr []")
    case (Inr cs)
    then show ?thesis using arms by (simp add: bind_ret_fails)
  next
    case (Inl e)
    then obtain path where "\<exists>e. collect_map (tag_constant syn path) (List.enumerate 0 variants) = Inl e"
      by (auto split: option.splits Converter.splits)
    then obtain iv where iv: "iv \<in> set (List.enumerate 0 variants)" "\<exists>e. tag_constant syn path iv = Inl e"
      unfolding collect_map_fails_iff by (elim bexE)
    have "?bad (snd iv)"
      using iv(2) by (cases "get_variant_tag syn (snd iv)") (auto simp: tag_constant_def case_prod_unfold split: if_splits)
    then have "\<exists>variant \<in> set variants. ?bad variant" using iv(1) snd [of ?bad] by blast
    then show ?thesis using Inl by simp
  qed
qed

lemma decode_data_fails: "(\<exists>e. decode_data syn name data conv = Inl e) \<longleftrightarrow> decode_refuses syn data"
proof (cases data)
  case (Struct flds)
  then show ?thesis
    by (simp add: result_map_fails decode_fields_fails is_unknown_cases)
next
  case (Enum variants)
  show ?thesis
    unfolding Enum decode_enum_fails decode_refuses.simps
  proof (intro bex_cong refl)
    fix variant
    show "(case get_variant_tag syn variant of
        Inl _ \<Rightarrow> True
      | Inr m \<Rightarrow> (\<exists>e. decode_fields syn [name, variant_ident variant] (variant_fields variant) (opt_unknown m) = Inl e)) \<longleftrightarrow>
      (case get_variant_tag syn variant of
           Inl _ \<Rightarrow> True
         | Inr Unknown \<Rightarrow> (\<exists>f \<in> set (fields_of (variant_fields variant)). \<exists>e. is_unknown syn f = Inl e)
         | Inr (Tag _) \<Rightarrow> (\<exists>f \<in> set (fields_of (variant_fields variant)). is_unknown syn f \<noteq> Inr False))"
      by (cases "get_variant_tag syn variant")
         (auto simp: decode_fields_fails is_unknown_cases split: CodecMeta.splits)
  qed
qed simp

lemma tag_arm_fails: "(\<exists>e. tag_arm syn name conv variant = Inl e) \<longleftrightarrow> (\<exists>e. get_variant_tag syn variant = Inl e)"
  by (cases "get_variant_tag syn variant") (auto simp: tag_arm_def Let_def split: CodecMeta.splits option.splits)

lemma encode_data_fails: "(\<exists>e. encode_data syn name data conv = Inl e) \<longleftrightarrow> encode_refuses syn data"
  by (cases data) (simp_all add: bind_ret_fails collect_map_fails_iff tag_arm_fails)

lemma decode_derive_Impl:
  assumes "decode_derive syn input = Impl tr generics name code"
  obtains conv where "extract_converter syn input = Inr conv" and "name = input_ident input"
    and "decode_data syn name (input_data input) conv = Inr code"
  using assms by (auto simp: decode_derive_def Let_def split: sum.splits)

lemma encode_derive_Impl:
  assumes "encode_derive syn input = Impl tr generics name code"
  obtains conv where "extract_converter syn input = Inr conv" and "name = input_ident input"
    and "encode_data syn name (input_data input) conv = Inr code"
  using assms by (auto simp: encode_derive_def Let_def split: sum.splits)

text \<open>In an accepted type only unknown variants have unknown fields.\<close>

lemma decode_struct_known:
  assumes "decode_data syn name (Struct flds) conv = Inr code" and "f \<in> set (fields_of flds)"
  shows "\<not> unknown_or_false syn f"
  using decode_data_fails [of syn name "Struct flds" conv] assms by (auto simp: unknown_or_false_def)

lemma decode_enum_known:
  assumes "decode_data syn name (Enum variants) conv = Inr code" and "variant \<in> set variants"
  shows "\<exists>m. get_variant_tag syn variant = Inr m \<and>
    (m \<noteq> Unknown \<longrightarrow> (\<forall>f \<in> set (fields_of (variant_fields variant)). \<not> unknown_or_false syn f))"
proof -
  have no: "\<not> decode_refuses syn (Enum variants)"
    using assms(1) decode_data_fails [of syn name "Enum variants" conv] by (metis sum.distinct(1))
  then obtain m where m: "get_variant_tag syn variant = Inr m"
    using assms(2) by (cases "get_variant_tag syn variant") (auto dest: bspec)
  then show ?thesis
    using no assms(2) by (cases m) (auto simp: unknown_or_false_def)
qed

section \<open>What a derived implementation relies on\<close>

fun types_of :: "('x, 'v) runtime \<Rightarrow> Data \<Rightarrow> ty list" where
  "types_of R (Struct flds) = map field_ty (fields_of flds)"
| "types_of R (Enum variants) =
     tag_ty R # concat (map (\<lambda>variant. map field_ty (fields_of (variant_fields variant))) variants)"
| "types_of R Union = []"

text \<open>A tag that selects a variant as unknown is kept for its unknown fields.\<close>

lemma select_variant_Some:
  assumes "select_variant R syn conv variants v = Some (variant, unknown)"
  shows "variant \<in> set variants \<and>
    (get_variant_tag syn variant = Inr Unknown \<and> unknown = Some v \<or>
     (\<exists>e. get_variant_tag syn variant = Inr (Tag e)) \<and> unknown = None)"
  using assms
  by (induction variants) (auto split: sum.splits CodecMeta.splits if_splits)

lemma select_variant_exhaustive:
  assumes "\<forall>variant \<in> set variants. \<exists>m. get_variant_tag syn variant = Inr m"
    and "exhaustive R has_type syn conv (Enum variants)" and "has_type v (tag_ty R)"
  shows "select_variant R syn conv variants v \<noteq> None"
proof -
  have "select_variant R syn conv variants v \<noteq> None"
    if "\<exists>variant \<in> set variants. get_variant_tag syn variant = Inr Unknown \<or>
      (\<exists>e. get_variant_tag syn variant = Inr (Tag e) \<and> v = tag_value R conv e)"
    using assms(1) that
    by (induction variants) (auto split: sum.splits CodecMeta.splits)
  moreover have "\<exists>variant \<in> set variants. get_variant_tag syn variant = Inr Unknown \<or>
      (\<exists>e. get_variant_tag syn variant = Inr (Tag e) \<and> v = tag_value R conv e)"
    using assms(2,3) unfolding exhaustive.simps by blast
  ultimately show ?thesis by blast
qed

locale derive_runtime =
  fixes R :: "('x, 'v) runtime" and has_type :: "'v \<Rightarrow> ty \<Rightarrow> bool" and delimited :: "ty \<Rightarrow> bool"
    and wire :: "'v \<Rightarrow> bytes" and enc :: "'v \<Rightarrow> (bytes, nat, 'e) proc" and tys :: "ty set"
  assumes decodes: "t \<in> tys \<Longrightarrow> has_type v t \<Longrightarrow> delimited t \<or> rest = [] \<Longrightarrow>
      decode_ty R t (wire v @ rest) = Some (Ok v, rest)"
    and typed: "t \<in> tys \<Longrightarrow> decode_ty R t bs = Some (Ok v, rest) \<Longrightarrow> has_type v t"
    and ty_answers: "t \<in> tys \<Longrightarrow> answers (decode_ty R t)"
    and encodes: "t \<in> tys \<Longrightarrow> has_type v t \<Longrightarrow> enc v buf = Some (Ok (length (wire v)), buf @ wire v)"
begin

lemma seqM_sound:
  assumes "\<And>f. f \<in> set fs \<Longrightarrow> answers (d f)"
    and "\<And>f bs v rest. f \<in> set fs \<Longrightarrow> d f bs = Some (Ok v, rest) \<Longrightarrow> has_type v (field_ty f)"
  shows "answers (seqM (map d fs)) \<and>
    (\<forall>bs vs rest. seqM (map d fs) bs = Some (Ok vs, rest) \<longrightarrow> list_all2 (\<lambda>f v. has_type v (field_ty f)) fs vs)"
  using assms
proof (induction fs)
  case Nil
  then show ?case by (simp add: answers_def)
next
  case (Cons f fs)
  then have "answers (d f)" "answers (seqM (map d fs))" by auto
  then have "answers (seqM (map d (f # fs)))" unfolding list.map seqM.simps by (intro answers_bind answers_ret)
  then show ?case using Cons by (fastforce simp: bindM_Ok_iff)
qed

lemma fields_decoder_sound:
  assumes "\<And>f. f \<in> set (fields_of flds) \<Longrightarrow> \<not> unknown_or_false syn f \<Longrightarrow> field_ty f \<in> tys"
    and "\<And>f. f \<in> set (fields_of flds) \<Longrightarrow> unknown_or_false syn f \<Longrightarrow> \<exists>v. tag = Some v \<and> has_type v (field_ty f)"
  shows "answers (fields_decoder R syn p flds tag) \<and>
    (\<forall>bs x rest. fields_decoder R syn p flds tag bs = Some (Ok x, rest) \<longrightarrow> typed_obj has_type p flds x)"
proof -
  have "answers (seqM (map (field_decoder R syn tag) (fields_of flds))) \<and>
    (\<forall>bs vs rest. seqM (map (field_decoder R syn tag) (fields_of flds)) bs = Some (Ok vs, rest) \<longrightarrow>
      list_all2 (\<lambda>f v. has_type v (field_ty f)) (fields_of flds) vs)"
  proof (rule seqM_sound)
    fix f assume f: "f \<in> set (fields_of flds)"
    show "answers (field_decoder R syn tag f)"
      using assms [OF f] ty_answers by (auto simp: field_decoder_def answers_ret)
    show "has_type v (field_ty f)" if "field_decoder R syn tag f bs = Some (Ok v, rest)" for bs v rest
      using that assms [OF f] typed by (cases "unknown_or_false syn f") (auto simp: field_decoder_def)
  qed
  then show ?thesis
    unfolding fields_decoder_def by (auto simp: bindM_Ok_iff intro!: answers_bind answers_ret typed_make)
qed

lemma answers_bind_typed:
  assumes t: "t \<in> tys" and k: "\<And>v. has_type v t \<Longrightarrow> answers (k v)"
  shows "answers (bindM (decode_ty R t) k)"
  unfolding answers_def
proof
  fix bs
  show "\<exists>r rest. bindM (decode_ty R t) k bs = Some (r, rest) \<and> (\<forall>msg. r \<noteq> Panic msg)"
  proof (cases rule: answersE [OF ty_answers [OF t], of bs])
    case (1 v rest)
    then show ?thesis using k [OF typed [OF t 1]] by (simp add: answers_def)
  qed simp
qed

lemma decoder_sound:
  assumes code: "decode_data syn name data conv = Inr code" and tys: "set (types_of R data) \<subseteq> tys"
    and "unknown_typed R syn data" and "exhaustive R has_type syn conv data"
  shows "answers (run_decode R code) \<and>
    (\<forall>bs x rest. run_decode R code bs = Some (Ok x, rest) \<longrightarrow> inhabits has_type name data x)"
proof (cases data)
  case (Struct flds)
  then show ?thesis
    using fields_decoder_sound [of flds syn None "[name]"] decode_struct_run [of syn name flds conv code R]
      decode_struct_known [of syn name flds conv code] code tys by auto
next
  case (Enum variants)
  note known = decode_enum_known [OF code [unfolded Enum]]
  have run: "run_decode R code = enum_decoder R syn name variants conv"
    using code Enum decode_enum_run by blast
  let ?k = "\<lambda>tag. case select_variant R syn conv variants tag of
         Some (variant, unknown) \<Rightarrow>
           fields_decoder R syn [name, variant_ident variant] (variant_fields variant) unknown
       | None \<Rightarrow> stuck"
  have k: "answers (?k t) \<and> (\<forall>bs x rest. ?k t bs = Some (Ok x, rest) \<longrightarrow> inhabits has_type name data x)"
    if t: "has_type t (tag_ty R)" for t
  proof -
    have "select_variant R syn conv variants t \<noteq> None"
      using select_variant_exhaustive [OF _ assms(4) [unfolded Enum] t] known by blast
    then obtain variant unknown where sel: "select_variant R syn conv variants t = Some (variant, unknown)" by auto
    note v = select_variant_Some [OF sel]
    have "answers (fields_decoder R syn [name, variant_ident variant] (variant_fields variant) unknown) \<and>
      (\<forall>bs x rest. fields_decoder R syn [name, variant_ident variant] (variant_fields variant) unknown bs
         = Some (Ok x, rest) \<longrightarrow> typed_obj has_type [name, variant_ident variant] (variant_fields variant) x)"
    proof (rule fields_decoder_sound)
      fix f assume f: "f \<in> set (fields_of (variant_fields variant))"
      show "field_ty f \<in> tys" if "\<not> unknown_or_false syn f"
        using tys v f Enum by auto
      show "\<exists>u. unknown = Some u \<and> has_type u (field_ty f)" if "unknown_or_false syn f"
        using known [of variant] v f that t assms(3) Enum by auto
    qed
    then show ?thesis using sel v Enum by auto
  qed
  have tag: "tag_ty R \<in> tys" using tys Enum by simp
  have "answers (bindM (decode_ty R (tag_ty R)) ?k)"
    using k by (intro answers_bind_typed [OF tag]) blast
  moreover have "inhabits has_type name data x" if "bindM (decode_ty R (tag_ty R)) ?k bs = Some (Ok x, rest)" for bs x rest
    using that k typed [OF tag] unfolding bindM_Ok_iff by blast
  ultimately show ?thesis unfolding run enum_decoder_def by blast
next
  case Union
  then show ?thesis using code by simp
qed

end

section \<open>Encoding and decoding again\<close>

lemma select_tagged:
  assumes "well_tagged R syn conv variants" and "variant \<in> set variants"
    and "get_variant_tag syn variant = Inr (Tag e)" and "\<forall>v \<in> set variants. \<exists>m. get_variant_tag syn v = Inr m"
  shows "select_variant R syn conv variants (tag_value R conv e) = Some (variant, None)"
  using assms
proof (induction variants)
  case (Cons v variants)
  show ?case
  proof (cases "v = variant")
    case True
    then show ?thesis using Cons.prems by simp
  next
    case False
    then have mem: "variant \<in> set variants" using Cons.prems(2) by simp
    then obtain e' where e': "get_variant_tag syn v = Inr (Tag e')"
      using Cons.prems(1) by (auto simp: well_tagged_def split: sum.splits CodecMeta.splits if_splits)
    have "variant_key R syn conv v \<noteq> variant_key R syn conv variant"
      using Cons.prems(1) mem by (auto simp: well_tagged_def)
    moreover have "well_tagged R syn conv variants"
      using Cons.prems(1) mem by (auto simp: well_tagged_def split: if_splits)
    ultimately show ?thesis using Cons mem e' by simp
  qed
qed simp

lemma select_unknown:
  assumes "well_tagged R syn conv variants" and "variant \<in> set variants"
    and "get_variant_tag syn variant = Inr Unknown" and "Some t \<notin> variant_key R syn conv ` set variants"
    and "\<forall>v \<in> set variants. \<exists>m. get_variant_tag syn v = Inr m"
  shows "select_variant R syn conv variants t = Some (variant, Some t)"
  using assms
proof (induction variants)
  case (Cons v variants)
  show ?case
  proof (cases "v = variant")
    case True
    then show ?thesis using Cons.prems by simp
  next
    case False
    then have mem: "variant \<in> set variants" using Cons.prems(2) by simp
    then obtain e' where e': "get_variant_tag syn v = Inr (Tag e')"
      using Cons.prems(1) by (auto simp: well_tagged_def split: sum.splits CodecMeta.splits if_splits)
    have "well_tagged R syn conv variants"
      using Cons.prems(1) mem by (auto simp: well_tagged_def split: if_splits)
    then show ?thesis using Cons mem e' by (auto simp: image_iff)
  qed
qed simp

text \<open>The tag of a value selects the variant of the value, with the tag itself in its unknown fields.\<close>

lemma select_value:
  assumes known: "\<And>v. v \<in> set variants \<Longrightarrow> \<exists>m. get_variant_tag syn v = Inr m \<and>
      (m \<noteq> Unknown \<longrightarrow> (\<forall>f \<in> set (fields_of (variant_fields v)). \<not> unknown_or_false syn f))"
    and v: "variant \<in> set variants" "well_tagged R syn conv variants" "value_tag R syn conv variant vs = Some t"
      "variant_key R syn conv variant = None \<longrightarrow> Some t \<notin> variant_key R syn conv ` set variants"
  obtains u where "select_variant R syn conv variants t = Some (variant, u)"
    and "\<And>f v. (f, v) \<in> set (zip (fields_of (variant_fields variant)) vs) \<Longrightarrow> unknown_or_false syn f \<Longrightarrow> u = Some v"
    and "variant_tag R syn name conv variant vs = (retM t :: ('w, 'v, 'e) proc)"
proof -
  note prems = that
  obtain m where m: "get_variant_tag syn variant = Inr m"
      "m \<noteq> Unknown \<longrightarrow> (\<forall>f \<in> set (fields_of (variant_fields variant)). \<not> unknown_or_false syn f)"
    using known [OF v(1)] by blast
  have all: "\<forall>v \<in> set variants. \<exists>m. get_variant_tag syn v = Inr m" using known by blast
  show thesis
  proof (cases m)
    case (Tag e)
    then have t: "t = tag_value R conv e" using v(3) m(1) by (simp add: value_tag_def)
    then have "select_variant R syn conv variants t = Some (variant, None)"
      using select_tagged [OF v(2,1) _ all] m(1) Tag by simp
    then show ?thesis using prems [of None] m Tag t by (auto simp: variant_tag_def dest: set_zip_leftD)
  next
    case Unknown
    then have t: "first_unknown syn (variant_fields variant) vs = Some t"
      "list_all (\<lambda>(f, v). unknown_or_false syn f \<longrightarrow> v = t) (zip (fields_of (variant_fields variant)) vs)"
      using v(3) m(1) by (auto simp: value_tag_def split: option.splits if_splits)
    have "select_variant R syn conv variants t = Some (variant, Some t)"
      using select_unknown [OF v(2,1) _ _ all] m(1) Unknown v(4) by simp
    moreover have "v = t" if "(f, v) \<in> set (zip (fields_of (variant_fields variant)) vs)" "unknown_or_false syn f" for f v
      using t(2) that by (auto simp: list_all_iff)
    ultimately show ?thesis using prems [of "Some t"] t(1) m(1) Unknown by (auto simp: variant_tag_def)
  qed
qed

context derive_runtime
begin

lemma encode_Vec_typed:
  assumes "\<forall>v \<in> set vs. \<exists>t \<in> tys. has_type v t"
  shows "encode_Vec_loop enc tot vs buf = Some (Ok (tot + length (concat (map wire vs))), buf @ concat (map wire vs))"
  using assms
proof (induction vs arbitrary: tot buf)
  case (Cons v vs)
  then obtain t where "t \<in> tys" "has_type v t" by auto
  then show ?case using Cons encodes [of t v buf] by simp
qed simp

lemma fields_decoder_inverts:
  assumes "list_all2 (\<lambda>f v. has_type v (field_ty f)) fs vs"
    and "\<And>f. f \<in> set fs \<Longrightarrow> \<not> unknown_or_false syn f \<Longrightarrow> field_ty f \<in> tys"
    and "\<And>f v. (f, v) \<in> set (zip fs vs) \<Longrightarrow> unknown_or_false syn f \<Longrightarrow> tag = Some v"
    and "readable delimited (known_types syn fs) rest"
  shows "seqM (map (field_decoder R syn tag) fs)
      (concat (map wire (map snd (filter (\<lambda>(f, v). \<not> unknown_or_false syn f) (zip fs vs)))) @ rest) = Some (Ok vs, rest)"
  using assms
proof (induction rule: list_all2_induct)
  case (Cons f fs v vs)
  let ?w = "concat (map wire (map snd (filter (\<lambda>(f, v). \<not> unknown_or_false syn f) (zip fs vs))))"
  have rd: "readable delimited (known_types syn fs) rest"
    using Cons.prems(3) by (auto simp: readable_def known_types_def split: if_splits)
  have IH: "seqM (map (field_decoder R syn tag) fs) (?w @ rest) = Some (Ok vs, rest)"
    using Cons.prems rd by (intro Cons.IH) auto
  show ?case
  proof (cases "unknown_or_false syn f")
    case True
    then have "tag = Some v" by (intro Cons.prems(2)) simp_all
    then have "field_decoder R syn tag f = retM v" using True by (simp add: field_decoder_def)
    then show ?thesis using True IH by simp
  next
    case False
    have "delimited (field_ty f) \<or> ?w @ rest = []"
    proof (cases "known_types syn fs = []")
      case True
      then have "?w = []" by (auto simp: known_types_def filter_empty_conv dest: set_zip_leftD)
      then show ?thesis using Cons.prems(3) False True by (simp add: readable_def known_types_def)
    next
      case ne: False
      then show ?thesis using Cons.prems(3) False by (simp add: readable_def known_types_def)
    qed
    then have "decode_ty R (field_ty f) (wire v @ ?w @ rest) = Some (Ok v, ?w @ rest)"
      using Cons.prems(1) Cons.hyps(1) False by (intro decodes) auto
    moreover have "field_decoder R syn tag f = decode_ty R (field_ty f)" using False by (simp add: field_decoder_def)
    ultimately show ?thesis using False IH by simp
  qed
qed simp

lemma object_roundtrip:
  assumes x: "typed_obj has_type p flds x" and tys: "set (map field_ty (fields_of flds)) \<subseteq> tys"
    and "\<And>f v. (f, v) \<in> set (zip (fields_of flds) (obj_values x)) \<Longrightarrow> unknown_or_false syn f \<Longrightarrow> tag = Some v"
    and "readable delimited (known_types syn (fields_of flds)) rest"
  shows "\<exists>bs. (\<forall>buf. encode_Vec enc (known_values syn flds (obj_values x)) buf = Some (Ok (length bs), buf @ bs)) \<and>
    fields_decoder R syn p flds tag (bs @ rest) = Some (Ok x, rest)"
proof -
  have vs: "list_all2 (\<lambda>f v. has_type v (field_ty f)) (fields_of flds) (obj_values x)"
    "x = make_obj p flds (obj_values x)" using x by (auto simp: typed_obj_def)
  let ?bs = "concat (map wire (known_values syn flds (obj_values x)))"
  have "\<exists>t \<in> tys. has_type v t" if "v \<in> set (known_values syn flds (obj_values x))" for v
    using that vs(1) tys by (force simp: known_values_def list_all2_iff dest: set_zip_leftD)
  then have "encode_Vec enc (known_values syn flds (obj_values x)) buf = Some (Ok (length ?bs), buf @ ?bs)" for buf
    using encode_Vec_typed [of "known_values syn flds (obj_values x)" 0] by (simp add: encode_Vec_def)
  moreover have "seqM (map (field_decoder R syn tag) (fields_of flds)) (?bs @ rest) = Some (Ok (obj_values x), rest)"
    unfolding known_values_def using tys assms(3,4) by (intro fields_decoder_inverts vs) auto
  ultimately show ?thesis using vs(2) by (intro exI [of _ ?bs]) (simp add: fields_decoder_def)
qed

lemma derived_roundtrip:
  assumes dec: "decode_data syn name data conv = Inr dcode" and en: "encode_data syn name data conv = Inr ecode"
    and tys: "set (types_of R data) \<subseteq> tys" and x: "sendable R has_type delimited syn conv name data x rest"
  shows "\<exists>bs. run_encode R enc ecode x [] = Some (Ok (length bs), bs) \<and> run_decode R dcode (bs @ rest) = Some (Ok x, rest)"
proof (cases data)
  case (Struct flds)
  have x: "wf_fields flds" "typed_obj has_type [name] flds x"
      "readable delimited (known_types syn (fields_of flds)) rest" using x Struct by auto
  then have vs: "x = make_obj [name] flds (obj_values x)" "length (obj_values x) = length (fields_of flds)"
    by (auto simp: typed_obj_def list_all2_lengthD)
  have "\<exists>bs. (\<forall>buf. encode_Vec enc (known_values syn flds (obj_values x)) buf = Some (Ok (length bs), buf @ bs)) \<and>
    fields_decoder R syn [name] flds None (bs @ rest) = Some (Ok x, rest)"
    using x tys Struct decode_struct_known [OF dec [unfolded Struct]]
    by (intro object_roundtrip) (auto dest: set_zip_leftD)
  then show ?thesis
    using encode_struct_run [OF en [unfolded Struct] x(1) vs(2), of R enc "[name]"] vs(1)
      decode_struct_run [OF dec [unfolded Struct], of R] by auto
next
  case (Enum variants)
  note known = decode_enum_known [OF dec [unfolded Enum]]
  obtain variant t where v: "variant \<in> set variants" "distinct (map variant_ident variants)"
      "well_tagged R syn conv variants" "delimited (tag_ty R)" "wf_fields (variant_fields variant)"
      "bindable syn (variant_fields variant)"
      "typed_obj has_type [name, variant_ident variant] (variant_fields variant) x"
      "readable delimited (known_types syn (fields_of (variant_fields variant))) rest"
      "value_tag R syn conv variant (obj_values x) = Some t" "has_type t (tag_ty R)"
      "variant_key R syn conv variant = None \<longrightarrow> Some t \<notin> variant_key R syn conv ` set variants"
    using x Enum by (auto split: option.splits)
  have vs: "x = make_obj [name, variant_ident variant] (variant_fields variant) (obj_values x)"
      "length (obj_values x) = length (fields_of (variant_fields variant))"
    using v(7) by (auto simp: typed_obj_def list_all2_lengthD)
  obtain u where sel: "select_variant R syn conv variants t = Some (variant, u)"
    and unk: "\<And>f v. (f, v) \<in> set (zip (fields_of (variant_fields variant)) (obj_values x)) \<Longrightarrow>
      unknown_or_false syn f \<Longrightarrow> u = Some v"
    and tag: "variant_tag R syn name conv variant (obj_values x) = (retM t :: (bytes, 'v, 'e) proc)"
    by (rule select_value [where name = name, OF known v(1,3,9,11)], assumption) (rule that)
  have tagty: "tag_ty R \<in> tys" and fields: "set (map field_ty (fields_of (variant_fields variant))) \<subseteq> tys"
    using tys Enum v(1) by auto
  have "\<exists>bs. (\<forall>buf. encode_Vec enc (known_values syn (variant_fields variant) (obj_values x)) buf
        = Some (Ok (length bs), buf @ bs)) \<and>
      fields_decoder R syn [name, variant_ident variant] (variant_fields variant) u (bs @ rest) = Some (Ok x, rest)"
    by (rule object_roundtrip [OF v(7) fields _ v(8)]) (rule unk)
  then obtain bs where bs: "\<And>buf. encode_Vec enc (known_values syn (variant_fields variant) (obj_values x)) buf
        = Some (Ok (length bs), buf @ bs)"
    "fields_decoder R syn [name, variant_ident variant] (variant_fields variant) u (bs @ rest) = Some (Ok x, rest)"
    by blast
  have "run_encode R enc ecode x [] = Some (Ok (length (wire t @ bs)), wire t @ bs)"
    using encode_enum_run [OF en [unfolded Enum] v(1,2,5) vs(2) v(6), of R enc] vs(1) tag bs(1)
      encodes [OF tagty v(10), of "[]"] by (simp add: enum_encoder_def)
  moreover have "run_decode R dcode ((wire t @ bs) @ rest) = Some (Ok x, rest)"
    using decode_enum_run [OF dec [unfolded Enum], of R] decodes [OF tagty v(10), of "bs @ rest"] v(4) sel bs(2)
    by (simp add: enum_decoder_def)
  ultimately show ?thesis by blast
qed (use dec in simp)

end

section \<open>Properties\<close>

text \<open>
  C38. What the macros refuse. \<open>Decode\<close> is a compile error exactly for a faulty converter, a union, a variant
  without a readable \<open>tag\<close> or \<open>unknown\<close>, a field with an unreadable attribute or a \<open>tag\<close>, and an \<open>unknown\<close> field
  anywhere but in an unknown variant. \<open>Encode\<close> is one exactly for a faulty converter, a union and such a
  variant: it never reports the attributes of a field.
\<close>

theorem derive_refusals:
  "((\<exists>e. decode_derive syn input = CompileError e) \<longleftrightarrow>
      (\<exists>e. extract_converter syn input = Inl e) \<or> decode_refuses syn (input_data input)) \<and>
   ((\<exists>e. encode_derive syn input = CompileError e) \<longleftrightarrow>
      (\<exists>e. extract_converter syn input = Inl e) \<or> encode_refuses syn (input_data input))"
proof (cases "extract_converter syn input")
  case (Inl e)
  then show ?thesis by (simp add: decode_derive_def encode_derive_def Let_def)
next
  case (Inr conv)
  show ?thesis
    using Inr decode_data_fails [of syn "input_ident input" "input_data input" conv]
      encode_data_fails [of syn "input_ident input" "input_data input" conv]
    by (cases "decode_data syn (input_ident input) (input_data input) conv";
        cases "encode_data syn (input_ident input) (input_data input) conv")
       (simp_all add: decode_derive_def encode_derive_def Let_def)
qed

text \<open>
  C39. A field of a struct marked \<open>unknown\<close> is a compile error for \<open>Decode\<close>, but \<open>Encode\<close> accepts it and generates
  an encoder that leaves the field out: it writes the other fields, whatever the value of this one.
\<close>

theorem unknown_struct_field_dropped:
  assumes "input_data input = Struct flds" and "f \<in> set (fields_of flds)" and "is_unknown syn f = Inr True"
    and "extract_converter syn input = Inr conv" and "wf_fields flds" and "length vs = length (fields_of flds)"
  shows "(\<exists>e. decode_derive syn input = CompileError e) \<and>
    (\<exists>tr gen code. encode_derive syn input = Impl tr gen (input_ident input) code \<and>
       run_encode R enc code (make_obj [input_ident input] flds vs) = encode_Vec enc (known_values syn flds vs) \<and>
       length (known_values syn flds vs) < length vs)"
proof -
  obtain e where "decode_data syn (input_ident input) (Struct flds) conv = Inl e"
    using decode_data_fails [of syn "input_ident input" "Struct flds" conv] assms(2,3) by auto
  moreover have "run_encode R enc (EncodeStruct (encode_fields syn True flds)) (make_obj [input_ident input] flds vs)
      = encode_Vec enc (known_values syn flds vs)"
    by (rule encode_struct_run [of syn "input_ident input" flds conv]) (simp_all add: assms)
  moreover obtain i where i: "i < length vs" "fields_of flds ! i = f"
    using assms(2,6) by (auto simp: in_set_conv_nth)
  have "length (filter (\<lambda>(f, v). \<not> unknown_or_false syn f) (zip (fields_of flds) vs)) < length (zip (fields_of flds) vs)"
    using i assms(3,6) by (intro length_filter_less [of "(f, vs ! i)"]) (auto simp: set_zip unknown_or_false_def)
  then have "length (known_values syn flds vs) < length vs" using assms(6) by (simp add: known_values_def)
  ultimately show ?thesis
    using assms(1,4) by (simp add: decode_derive_def encode_derive_def Let_def)
qed

definition marked_struct :: DeriveInput where
  "marked_struct =
     \<lparr>input_attrs = [], input_ident = ''S'', input_generics = [],
      input_data = Struct (Named
        [\<lparr>field_attrs = [unknown_attr], field_ident = ''a'', field_ty = ''u8''\<rparr>,
         \<lparr>field_attrs = [], field_ident = ''b'', field_ty = ''u8''\<rparr>])\<rparr>"

definition u8_runtime :: "(string, u8) runtime" where
  "u8_runtime = \<lparr>decode_ty = (\<lambda>t. decode_u8), tag_ty = ''u8'', lit = (\<lambda>l. of_nat (length l)), const_from = (\<lambda>p v. v)\<rparr>"

theorem unknown_struct_field_dropped_witness:
  "(\<exists>e. decode_derive literal_syn marked_struct = CompileError e) \<and>
    (\<exists>tr gen code. encode_derive literal_syn marked_struct = Impl tr gen ''S'' code \<and>
       run_encode u8_runtime (encode_u8 vec_buffer :: (bytes, u8, BufferOverflow) encoder) code
         (ObjNamed [''S''] [(''a'', 1), (''b'', 2)]) = encode_Vec (encode_u8 vec_buffer) [2])"
  using unknown_struct_field_dropped [of marked_struct
      "Named [\<lparr>field_attrs = [unknown_attr], field_ident = ''a'', field_ty = ''u8''\<rparr>,
         \<lparr>field_attrs = [], field_ident = ''b'', field_ty = ''u8''\<rparr>]"
      "\<lparr>field_attrs = [unknown_attr], field_ident = ''a'', field_ty = ''u8''\<rparr>" literal_syn None "[1, 2]" u8_runtime
      "encode_u8 vec_buffer :: (bytes, u8, BufferOverflow) encoder"]
  by (auto simp: marked_struct_def extract_converter_def is_unknown_def known_values_def unknown_or_false_def)

end
