(* ===== verification/Derive_Types.thy ===== *)
theory Derive_Types
  imports Derive_Laws Proto_Data
begin

text \<open>
  The derive macros on the types of dersp: the declarations of proto/data.rs and crypto.rs as the macros
  see them, and that the code generated for them is the codec the rest of the development uses.

  A doc comment reaches a macro as an attribute; its text is left out. Types are their source text.
\<close>

section \<open>The declarations\<close>

definition doc_attr :: Attribute where
  "doc_attr = \<lparr>attr_path = [''doc''], attr_tokens = [Punct (CHR ''=''), Literal []]\<rparr>"

definition plain_field :: "ident \<Rightarrow> ty \<Rightarrow> Field" where
  "plain_field x t = \<lparr>field_attrs = [], field_ident = x, field_ty = t\<rparr>"

definition tagged_variant :: "nat \<Rightarrow> string \<Rightarrow> ident \<Rightarrow> Variant" where
  "tagged_variant docs tag x =
     \<lparr>variant_attrs = replicate docs doc_attr @ [tag_attr tag], variant_ident = x, variant_fields = Unit\<rparr>"

definition plain_struct :: "nat \<Rightarrow> ident \<Rightarrow> GenericParam list \<Rightarrow> Fields \<Rightarrow> DeriveInput" where
  "plain_struct docs x generics flds =
     \<lparr>input_attrs = replicate docs doc_attr, input_ident = x, input_generics = generics, input_data = Struct flds\<rparr>"

definition FrameType_variants :: "Variant list" where
  "FrameType_variants =
    [tagged_variant 1 ''0x01u8'' ''ServerKey'',
     tagged_variant 1 ''0x02'' ''ClientInfo'',
     tagged_variant 1 ''0x03'' ''ServerInfo'',
     tagged_variant 1 ''0x04'' ''SendPacket'',
     tagged_variant 1 ''0x05'' ''RecvPacket'',
     tagged_variant 1 ''0x06'' ''KeepAlive'',
     tagged_variant 1 ''0x07'' ''NotePreferred'',
     tagged_variant 6 ''0x08'' ''PeerGone'',
     tagged_variant 3 ''0x09'' ''PeerPresent'',
     tagged_variant 1 ''0x0A'' ''ForwardPacket'',
     tagged_variant 6 ''0x10'' ''WatchConns'',
     tagged_variant 5 ''0x11'' ''ClosePeer'',
     tagged_variant 1 ''0x12'' ''Ping'',
     tagged_variant 1 ''0x13'' ''Pong'',
     tagged_variant 2 ''0x14'' ''ControlMessage'',
     \<lparr>variant_attrs = [unknown_attr], variant_ident = ''Unkonow'',
       variant_fields = Unnamed [\<lparr>field_attrs = [unknown_attr], field_ident = [], field_ty = ''u8''\<rparr>]\<rparr>]"

definition FrameType_item :: DeriveInput where
  "FrameType_item =
     \<lparr>input_attrs = [], input_ident = ''FrameType'', input_generics = [], input_data = Enum FrameType_variants\<rparr>"

definition PublicKey_item :: DeriveInput where
  "PublicKey_item = plain_struct 1 ''PublicKey'' [] (Unnamed [plain_field [] ''[u8; KEY_SIZE]''])"

definition Frame_item :: DeriveInput where
  "Frame_item = plain_struct 0 ''Frame'' [Type ''T'' []] (Named [plain_field ''frame_type'' ''FrameType'', plain_field ''inner'' ''SizeWrapper<u32, T>''])"

definition ServerKey_item :: DeriveInput where
  "ServerKey_item = plain_struct 0 ''ServerKey'' [] (Named [plain_field ''magic'' ''[u8; 8]'', plain_field ''public_key'' ''PublicKey''])"

definition ClientInfo_item :: DeriveInput where
  "ClientInfo_item = plain_struct 0 ''ClientInfo'' [] (Named [plain_field ''public_key'' ''PublicKey'', plain_field ''nonce'' ''[u8; 24]'', plain_field ''cipher_text'' ''Vec<u8>''])"

definition ServerInfo_item :: DeriveInput where
  "ServerInfo_item = plain_struct 0 ''ServerInfo'' [] (Named [plain_field ''data'' ''Vec<u8>''])"

definition SendPacket_item :: DeriveInput where
  "SendPacket_item = plain_struct 0 ''SendPacket'' [] (Named [plain_field ''target'' ''PublicKey'', plain_field ''payload'' ''Vec<u8>''])"

definition RecvPacket_item :: DeriveInput where
  "RecvPacket_item = plain_struct 0 ''RecvPacket'' [] (Named [plain_field ''target'' ''PublicKey'', plain_field ''payload'' ''Vec<u8>''])"

definition ForwardPacket_item :: DeriveInput where
  "ForwardPacket_item = plain_struct 0 ''ForwardPacket'' [] (Named [plain_field ''source'' ''PublicKey'', plain_field ''target'' ''PublicKey'', plain_field ''payload'' ''Vec<u8>''])"

definition PeerPresent_item :: DeriveInput where
  "PeerPresent_item = plain_struct 0 ''PeerPresent'' [] (Named [plain_field ''public_key'' ''PublicKey''])"

definition WatchConns_item :: DeriveInput where
  "WatchConns_item = plain_struct 0 ''WatchConns'' [] (Named [plain_field ''data'' ''Vec<u8>''])"

definition Header_item :: DeriveInput where
  "Header_item = plain_struct 0 ''Header'' [] (Named [plain_field ''frame_type'' ''FrameType'', plain_field ''size'' ''u32''])"

section \<open>Their values\<close>

datatype 't val =
    VU8 u8
  | VU32 u32
  | VArray nat bytes
  | VVec bytes
  | VKey PublicKey
  | VFrameType FrameType
  | VSized "(u32, 't) SizeWrapper"

definition fmapM :: "('a \<Rightarrow> 'b) \<Rightarrow> ('s, 'a, 'e) proc \<Rightarrow> ('s, 'b, 'e) proc" where
  "fmapM f m = bindM m (\<lambda>x. retM (f x))"

text \<open>The value of an unsigned hexadecimal literal, with or without the suffix \<open>u8\<close>.\<close>

fun hex_digit :: "char \<Rightarrow> u8" where
  "hex_digit c =
     (let n = of_char c :: nat in of_nat (if n < 58 then n - 48 else if n < 71 then n - 55 else n - 87))"

definition literal_u8 :: "string \<Rightarrow> u8" where
  "literal_u8 l = foldl (\<lambda>a c. a * 16 + hex_digit c) 0 (takeWhile (\<lambda>c. c \<noteq> CHR ''u'') (drop 2 l))"

text \<open>
  What the names in the generated code stand for: the implementations of the traits for the types of the
  fields, with \<open>dec\<close> for the type parameter of \<open>Frame<T>\<close>. The tag of \<open>FrameType\<close> is a \<open>u8\<close>, by the suffix of its
  first literal. No type of dersp has a converter.
\<close>

definition dersp_decode :: "'t decoder \<Rightarrow> ty \<Rightarrow> 't val decoder" where
  "dersp_decode dec t =
     (if t = ''u8'' then fmapM VU8 decode_u8
      else if t = ''u32'' then fmapM VU32 decode_u32
      else if t = ''[u8; 8]'' then fmapM (VArray 8) (decode_array 8)
      else if t = ''[u8; 24]'' then fmapM (VArray 24) (decode_array 24)
      else if t = ''[u8; KEY_SIZE]'' then fmapM (VArray KEY_SIZE) (decode_array KEY_SIZE)
      else if t = ''Vec<u8>'' then fmapM VVec (decode_Vec decode_u8)
      else if t = ''PublicKey'' then fmapM VKey decode_PublicKey
      else if t = ''FrameType'' then fmapM VFrameType decode_FrameType
      else if t = ''SizeWrapper<u32, T>'' then fmapM VSized (decode_SizeWrapper decode_u32 try_into_usize dec)
      else stuck)"

fun dersp_encode :: "('w, 'e) WriteBuffer \<Rightarrow> ('w, 't, 'e) encoder \<Rightarrow> ('w, 't val, 'e) encoder" where
  "dersp_encode W enc (VU8 x) = encode_u8 W x"
| "dersp_encode W enc (VU32 x) = encode_u32 W x"
| "dersp_encode W enc (VArray n x) = encode_array n W x"
| "dersp_encode W enc (VVec x) = encode_Vec (encode_u8 W) x"
| "dersp_encode W enc (VKey x) = encode_PublicKey W x"
| "dersp_encode W enc (VFrameType x) = encode_FrameType W x"
| "dersp_encode W enc (VSized x) = encode_SizeWrapper size_u32 W enc x"

definition dersp_runtime :: "('x \<Rightarrow> u8) \<Rightarrow> 't decoder \<Rightarrow> ('x, 't val) runtime" where
  "dersp_runtime val_of dec =
     \<lparr>decode_ty = dersp_decode dec, tag_ty = ''u8'', lit = (\<lambda>e. VU8 (val_of e)), const_from = (\<lambda>p v. v)\<rparr>"

text \<open>The values of dersp as objects of the generated code.\<close>

fun obj_FrameType :: "FrameType \<Rightarrow> 't val obj" where
  "obj_FrameType ServerKey = ObjUnit [''FrameType'', ''ServerKey'']"
| "obj_FrameType ClientInfo = ObjUnit [''FrameType'', ''ClientInfo'']"
| "obj_FrameType ServerInfo = ObjUnit [''FrameType'', ''ServerInfo'']"
| "obj_FrameType SendPacket = ObjUnit [''FrameType'', ''SendPacket'']"
| "obj_FrameType RecvPacket = ObjUnit [''FrameType'', ''RecvPacket'']"
| "obj_FrameType KeepAlive = ObjUnit [''FrameType'', ''KeepAlive'']"
| "obj_FrameType NotePreferred = ObjUnit [''FrameType'', ''NotePreferred'']"
| "obj_FrameType PeerGone = ObjUnit [''FrameType'', ''PeerGone'']"
| "obj_FrameType PeerPresent = ObjUnit [''FrameType'', ''PeerPresent'']"
| "obj_FrameType ForwardPacket = ObjUnit [''FrameType'', ''ForwardPacket'']"
| "obj_FrameType WatchConns = ObjUnit [''FrameType'', ''WatchConns'']"
| "obj_FrameType ClosePeer = ObjUnit [''FrameType'', ''ClosePeer'']"
| "obj_FrameType Ping = ObjUnit [''FrameType'', ''Ping'']"
| "obj_FrameType Pong = ObjUnit [''FrameType'', ''Pong'']"
| "obj_FrameType ControlMessage = ObjUnit [''FrameType'', ''ControlMessage'']"
| "obj_FrameType (Unkonow b) = ObjTuple [''FrameType'', ''Unkonow''] [VU8 b]"

definition obj_PublicKey :: "PublicKey \<Rightarrow> 't val obj" where
  "obj_PublicKey x = ObjTuple [''PublicKey''] [VArray KEY_SIZE (pk_bytes x)]"

definition obj_Frame :: "'t Frame \<Rightarrow> 't val obj" where
  "obj_Frame x = ObjNamed [''Frame''] [(''frame_type'', VFrameType (frame_type x)), (''inner'', VSized (inner x))]"

definition obj_ServerKey :: "ServerKey \<Rightarrow> 't val obj" where
  "obj_ServerKey x = ObjNamed [''ServerKey''] [(''magic'', VArray 8 (skey_magic x)), (''public_key'', VKey (skey_public_key x))]"

definition obj_ClientInfo :: "ClientInfo \<Rightarrow> 't val obj" where
  "obj_ClientInfo x = ObjNamed [''ClientInfo''] [(''public_key'', VKey (ci_public_key x)), (''nonce'', VArray 24 (ci_nonce x)), (''cipher_text'', VVec (ci_cipher_text x))]"

definition obj_ServerInfo :: "ServerInfo \<Rightarrow> 't val obj" where
  "obj_ServerInfo x = ObjNamed [''ServerInfo''] [(''data'', VVec (info_data x))]"

definition obj_SendPacket :: "SendPacket \<Rightarrow> 't val obj" where
  "obj_SendPacket x = ObjNamed [''SendPacket''] [(''target'', VKey (send_target x)), (''payload'', VVec (send_payload x))]"

definition obj_RecvPacket :: "RecvPacket \<Rightarrow> 't val obj" where
  "obj_RecvPacket x = ObjNamed [''RecvPacket''] [(''target'', VKey (recv_target x)), (''payload'', VVec (recv_payload x))]"

definition obj_ForwardPacket :: "ForwardPacket \<Rightarrow> 't val obj" where
  "obj_ForwardPacket x = ObjNamed [''ForwardPacket''] [(''source'', VKey (fwd_source x)), (''target'', VKey (fwd_target x)), (''payload'', VVec (fwd_payload x))]"

definition obj_PeerPresent :: "PeerPresent \<Rightarrow> 't val obj" where
  "obj_PeerPresent x = ObjNamed [''PeerPresent''] [(''public_key'', VKey (present_public_key x))]"

definition obj_WatchConns :: "WatchConns \<Rightarrow> 't val obj" where
  "obj_WatchConns x = ObjNamed [''WatchConns''] [(''data'', VVec (watch_data x))]"

definition obj_Header :: "Header \<Rightarrow> 't val obj" where
  "obj_Header x = ObjNamed [''Header''] [(''frame_type'', VFrameType (hdr_frame_type x)), (''size'', VU32 (hdr_size x))]"

section \<open>The generated code\<close>

definition derives_decode :: "'x syn \<Rightarrow> ('x, 'v) runtime \<Rightarrow> DeriveInput \<Rightarrow> ('a \<Rightarrow> 'v obj) \<Rightarrow> 'a decoder \<Rightarrow> bool" where
  "derives_decode syn R item obj dec \<longleftrightarrow>
     (case decode_derive syn item of
        Impl _ _ _ code \<Rightarrow> run_decode R code = fmapM obj dec
      | CompileError _ \<Rightarrow> False)"

definition derives_encode ::
  "'x syn \<Rightarrow> ('x, 'v) runtime \<Rightarrow> ('w, 'v, 'e) encoder \<Rightarrow> DeriveInput \<Rightarrow> ('a \<Rightarrow> 'v obj) \<Rightarrow> ('w, 'a, 'e) encoder \<Rightarrow> bool" where
  "derives_encode syn R enc item obj enc' \<longleftrightarrow>
     (case encode_derive syn item of
        Impl _ _ _ code \<Rightarrow> (\<forall>x. run_encode R enc code (obj x) = enc' x)
      | CompileError _ \<Rightarrow> False)"

lemma fmapM_fmapM: "bindM (fmapM f m) g = bindM m (\<lambda>x. g (f x))"
  by (simp add: fmapM_def bindM_assoc)

lemma find_converter_docs: "find_converter c (replicate n doc_attr) = Inr c"
  by (induction n) (simp_all add: doc_attr_def)

lemma plain_struct_simps [simp]:
  "input_ident (plain_struct n x g flds) = x" "input_data (plain_struct n x g flds) = Struct flds"
  "input_generics (plain_struct n x g flds) = g"
  by (simp_all add: plain_struct_def)

lemma extract_converter_struct [simp]: "extract_converter syn (plain_struct n x g flds) = Inr None"
  by (simp add: extract_converter_def plain_struct_def find_converter_docs)

lemma is_unknown_plain [simp]: "is_unknown syn (plain_field x t) = Inr False"
  by (simp add: is_unknown_def plain_field_def)

lemma unknown_or_false_plain [simp]: "unknown_or_false syn (plain_field x t) = False"
  by (simp add: unknown_or_false_def)

lemma field_ty_plain [simp]: "field_ty (plain_field x t) = t" "field_ident (plain_field x t) = x"
  by (simp_all add: plain_field_def)

lemma struct_derives_decode:
  assumes "\<forall>f \<in> set (fields_of flds). is_unknown syn f = Inr False"
    and "fields_decoder R syn [name] flds None = fmapM obj dec"
  shows "derives_decode syn R (plain_struct n name g flds) obj dec"
proof -
  obtain code where "decode_data syn name (Struct flds) None = Inr code"
    using decode_data_fails [of syn name "Struct flds" None] assms(1)
    by (cases "decode_data syn name (Struct flds) None") auto
  then show ?thesis
    using decode_struct_run [of syn name flds None code R] assms(2)
    by (simp add: derives_decode_def decode_derive_def Let_def)
qed

lemma struct_derives_encode:
  assumes "wf_fields flds" and "\<And>x. obj x = make_obj [name] flds (obj_values (obj x)) \<and> length (obj_values (obj x)) = length (fields_of flds)"
    and "\<And>x. encode_Vec enc (known_values syn flds (obj_values (obj x))) = enc' x"
  shows "derives_encode syn R enc (plain_struct n name g flds) obj enc'"
proof -
  have "run_encode R enc (EncodeStruct (encode_fields syn True flds)) (obj x) = enc' x" for x
    using encode_struct_run [of syn name flds None _ "obj_values (obj x)" R enc "[name]"] assms by (simp del: run_encode.simps)
  then show ?thesis by (simp add: derives_encode_def encode_derive_def Let_def del: run_encode.simps)
qed

lemma decode_ty_dersp [simp]: "decode_ty (dersp_runtime val_of dec) = dersp_decode dec"
  by (simp add: dersp_runtime_def)

lemma dersp_decode_simps [simp]:
  "dersp_decode dec ''u8'' = fmapM VU8 decode_u8"
  "dersp_decode dec ''u32'' = fmapM VU32 decode_u32"
  "dersp_decode dec ''[u8; 8]'' = fmapM (VArray 8) (decode_array 8)"
  "dersp_decode dec ''[u8; 24]'' = fmapM (VArray 24) (decode_array 24)"
  "dersp_decode dec ''[u8; KEY_SIZE]'' = fmapM (VArray KEY_SIZE) (decode_array KEY_SIZE)"
  "dersp_decode dec ''Vec<u8>'' = fmapM VVec (decode_Vec decode_u8)"
  "dersp_decode dec ''PublicKey'' = fmapM VKey decode_PublicKey"
  "dersp_decode dec ''FrameType'' = fmapM VFrameType decode_FrameType"
  "dersp_decode dec ''SizeWrapper<u32, T>'' = fmapM VSized (decode_SizeWrapper decode_u32 try_into_usize dec)"
  by (simp_all add: dersp_decode_def)

lemmas derived_decoder = fields_decoder_def field_decoder_def fmapM_fmapM bindM_assoc

lemmas item_defs =
   PublicKey_item_def Frame_item_def ServerKey_item_def ClientInfo_item_def ServerInfo_item_def
    SendPacket_item_def RecvPacket_item_def ForwardPacket_item_def PeerPresent_item_def WatchConns_item_def
    Header_item_def

lemmas obj_defs =
   obj_PublicKey_def obj_Frame_def obj_ServerKey_def obj_ClientInfo_def obj_ServerInfo_def obj_SendPacket_def
    obj_RecvPacket_def obj_ForwardPacket_def obj_PeerPresent_def obj_WatchConns_def obj_Header_def

lemmas derived_decoders =
   decode_PublicKey_def decode_Frame_def decode_ServerKey_def decode_ClientInfo_def decode_ServerInfo_def
    decode_SendPacket_def decode_RecvPacket_def decode_ForwardPacket_def decode_PeerPresent_def
    decode_WatchConns_def decode_Header_def

lemmas derived_encoders =
   encode_PublicKey_def encode_Frame_def encode_ServerKey_def encode_ClientInfo_def encode_ServerInfo_def
    encode_SendPacket_def encode_RecvPacket_def encode_ForwardPacket_def encode_PeerPresent_def
    encode_WatchConns_def

lemma derives_decode_structs:
  fixes dec :: "'t decoder" and syn :: "'x syn" and val_of :: "'x \<Rightarrow> u8"
  defines "R \<equiv> dersp_runtime val_of dec"
  shows "derives_decode syn R PublicKey_item obj_PublicKey decode_PublicKey"
    and "derives_decode syn R Frame_item obj_Frame (decode_Frame dec)"
    and "derives_decode syn R ServerKey_item obj_ServerKey decode_ServerKey"
    and "derives_decode syn R ClientInfo_item obj_ClientInfo decode_ClientInfo"
    and "derives_decode syn R ServerInfo_item obj_ServerInfo decode_ServerInfo"
    and "derives_decode syn R SendPacket_item obj_SendPacket decode_SendPacket"
    and "derives_decode syn R RecvPacket_item obj_RecvPacket decode_RecvPacket"
    and "derives_decode syn R ForwardPacket_item obj_ForwardPacket decode_ForwardPacket"
    and "derives_decode syn R PeerPresent_item obj_PeerPresent decode_PeerPresent"
    and "derives_decode syn R WatchConns_item obj_WatchConns decode_WatchConns"
    and "derives_decode syn R Header_item obj_Header decode_Header"
  unfolding R_def item_defs
  by (rule struct_derives_decode, simp,
      simp add: derived_decoder fmapM_def obj_defs derived_decoders del: retM_eq)+

lemma derives_encode_structs:
  fixes enc :: "('w, 't, 'e) encoder" and W :: "('w, 'e) WriteBuffer"
  defines "E \<equiv> dersp_encode W enc"
  shows "derives_encode syn R E PublicKey_item obj_PublicKey (encode_PublicKey W)"
    and "derives_encode syn R E Frame_item obj_Frame (encode_Frame W enc)"
    and "derives_encode syn R E ServerKey_item obj_ServerKey (encode_ServerKey W)"
    and "derives_encode syn R E ClientInfo_item obj_ClientInfo (encode_ClientInfo W)"
    and "derives_encode syn R E ServerInfo_item obj_ServerInfo (encode_ServerInfo W)"
    and "derives_encode syn R E SendPacket_item obj_SendPacket (encode_SendPacket W)"
    and "derives_encode syn R E RecvPacket_item obj_RecvPacket (encode_RecvPacket W)"
    and "derives_encode syn R E ForwardPacket_item obj_ForwardPacket (encode_ForwardPacket W)"
    and "derives_encode syn R E PeerPresent_item obj_PeerPresent (encode_PeerPresent W)"
    and "derives_encode syn R E WatchConns_item obj_WatchConns (encode_WatchConns W)"
  unfolding E_def item_defs
  by (rule struct_derives_encode, simp, simp add: obj_defs,
      simp add: obj_defs derived_encoders known_values_def encode_Vec_def)+

text \<open>\<open>FrameType\<close>: the tags are read off the attributes, past the doc comments.\<close>

lemma find_codec_attr_docs: "find_codec_attr c (replicate n doc_attr @ attrs) = find_codec_attr c attrs"
  by (induction n) (simp_all add: doc_attr_def is_codec_attr_def)

lemma extract_codec_meta_docs: "extract_codec_meta syn (replicate n doc_attr @ attrs) = extract_codec_meta syn attrs"
  by (simp add: extract_codec_meta_def find_codec_attr_docs)

lemma tagged_variant_simps [simp]:
  "variant_ident (tagged_variant n l x) = x" "variant_fields (tagged_variant n l x) = Unit"
  by (simp_all add: tagged_variant_def)

lemma get_variant_tag_tagged:
  "syn_law syn mk \<Longrightarrow> get_variant_tag syn (tagged_variant n l x) = Inr (Tag (mk l))"
  by (simp add: get_variant_tag_def tagged_variant_def extract_codec_meta_docs)

lemma get_variant_tag_unknown [simp]:
  "get_variant_tag syn \<lparr>variant_attrs = [unknown_attr], variant_ident = x, variant_fields = flds\<rparr> = Inr Unknown"
  by (simp add: get_variant_tag_def)

lemma is_unknown_attr [simp]: "is_unknown syn \<lparr>field_attrs = [unknown_attr], field_ident = x, field_ty = t\<rparr> = Inr True"
  by (simp add: is_unknown_def)

lemma extract_converter_FrameType [simp]: "extract_converter syn FrameType_item = Inr None"
  by (simp add: extract_converter_def FrameType_item_def)

lemma FrameType_literals:
  "map literal_u8 [''0x01u8'', ''0x02'', ''0x03'', ''0x04'', ''0x05'', ''0x06'', ''0x07'', ''0x08'', ''0x09'',
     ''0x0A'', ''0x10'', ''0x11'', ''0x12'', ''0x13'', ''0x14''] = known_tags"
  by code_simp

lemma literal_u8_tags [simp]:
  "literal_u8 ''0x01u8'' = 0x01" "literal_u8 ''0x02'' = 0x02" "literal_u8 ''0x03'' = 0x03" "literal_u8 ''0x04'' = 0x04"
  "literal_u8 ''0x05'' = 0x05" "literal_u8 ''0x06'' = 0x06" "literal_u8 ''0x07'' = 0x07" "literal_u8 ''0x08'' = 0x08"
  "literal_u8 ''0x09'' = 0x09" "literal_u8 ''0x0A'' = 0x0A" "literal_u8 ''0x10'' = 0x10" "literal_u8 ''0x11'' = 0x11"
  "literal_u8 ''0x12'' = 0x12" "literal_u8 ''0x13'' = 0x13" "literal_u8 ''0x14'' = 0x14"
  using FrameType_literals by (simp_all add: known_tags_def)

lemma select_FrameType:
  assumes "syn_law syn mk" and "\<forall>l. val_of (mk l) = literal_u8 l"
  shows "(case select_variant (dersp_runtime val_of dec) syn None FrameType_variants (VU8 t) of
       Some (variant, unknown) \<Rightarrow>
         fields_decoder (dersp_runtime val_of dec) syn [''FrameType'', variant_ident variant] (variant_fields variant) unknown
     | None \<Rightarrow> stuck) bs
    = (retM (obj_FrameType (if t = 0x01 then ServerKey
     else if t = 0x02 then ClientInfo
     else if t = 0x03 then ServerInfo
     else if t = 0x04 then SendPacket
     else if t = 0x05 then RecvPacket
     else if t = 0x06 then KeepAlive
     else if t = 0x07 then NotePreferred
     else if t = 0x08 then PeerGone
     else if t = 0x09 then PeerPresent
     else if t = 0x0A then ForwardPacket
     else if t = 0x10 then WatchConns
     else if t = 0x11 then ClosePeer
     else if t = 0x12 then Ping
     else if t = 0x13 then Pong
     else if t = 0x14 then ControlMessage
     else Unkonow t)) :: _ decoder) bs"
  using assms
  by (simp add: FrameType_variants_def get_variant_tag_tagged dersp_runtime_def fields_decoder_def field_decoder_def
      unknown_or_false_def)

lemma FrameType_item_simps [simp]:
  "input_ident FrameType_item = ''FrameType''" "input_data FrameType_item = Enum FrameType_variants"
  by (simp_all add: FrameType_item_def)

lemma FrameType_accepted:
  assumes "syn_law syn mk"
  shows "\<not> decode_refuses syn (Enum FrameType_variants)"
  using assms by (simp add: FrameType_variants_def get_variant_tag_tagged)

lemma derives_decode_FrameType:
  assumes "syn_law syn mk" and "\<forall>l. val_of (mk l) = literal_u8 l"
  shows "derives_decode syn (dersp_runtime val_of dec) FrameType_item obj_FrameType decode_FrameType"
proof -
  obtain code where code: "decode_data syn ''FrameType'' (Enum FrameType_variants) None = Inr code"
    using decode_data_fails [of syn "''FrameType''" "Enum FrameType_variants" None] FrameType_accepted [OF assms(1)]
    by (cases "decode_data syn ''FrameType'' (Enum FrameType_variants) None") (auto simp del: decode_refuses.simps decode_data.simps)
  have "enum_decoder (dersp_runtime val_of dec) syn ''FrameType'' FrameType_variants None
      = fmapM obj_FrameType decode_FrameType"
  proof
    fix bs
    have tag: "decode_ty (dersp_runtime val_of dec) (tag_ty (dersp_runtime val_of dec)) = fmapM VU8 decode_u8"
      by (simp add: dersp_runtime_def)
    show "enum_decoder (dersp_runtime val_of dec) syn ''FrameType'' FrameType_variants None bs
        = fmapM obj_FrameType decode_FrameType bs"
      unfolding enum_decoder_def tag fmapM_fmapM unfolding fmapM_def decode_FrameType_def bindM_assoc bindM_retM
      by (rule bindM_cong, rule refl, rule select_FrameType [OF assms])
  qed
  then show ?thesis
    using decode_enum_run [OF code, of "dersp_runtime val_of dec"] code
    by (simp add: derives_decode_def decode_derive_def Let_def del: decode_data.simps)
qed

lemma FrameType_names: "distinct (map variant_ident FrameType_variants)"
  by (simp add: FrameType_variants_def)

lemma variant_of_FrameType:
  fixes dec :: "'t decoder" and ft :: FrameType
  assumes "syn_law syn mk" and "\<forall>l. val_of (mk l) = literal_u8 l"
  defines "x \<equiv> obj_FrameType ft :: 't val obj"
  shows "\<exists>variant \<in> set FrameType_variants.
    x = make_obj [''FrameType'', variant_ident variant] (variant_fields variant) (obj_values x) \<and>
    length (obj_values x) = length (fields_of (variant_fields variant)) \<and>
    wf_fields (variant_fields variant) \<and> bindable syn (variant_fields variant) \<and>
    known_values syn (variant_fields variant) (obj_values x) = [] \<and>
    variant_tag (dersp_runtime val_of dec) syn ''FrameType'' None variant (obj_values x)
      = (retM (VU8 (frame_tag ft)) :: ('w, 't val, 'e) proc)"
  unfolding x_def
  using assms
  by (cases ft) (simp_all add: FrameType_variants_def known_values_def variant_tag_def get_variant_tag_tagged
      first_unknown_def unknown_or_false_def dersp_runtime_def)

lemma derives_encode_FrameType:
  fixes enc :: "('w, 't, 'e) encoder" and dec :: "'t decoder"
  assumes "syn_law syn mk" and "\<forall>l. val_of (mk l) = literal_u8 l"
  shows "derives_encode syn (dersp_runtime val_of dec) (dersp_encode W enc) FrameType_item obj_FrameType (encode_FrameType W)"
proof -
  obtain code where code: "encode_data syn ''FrameType'' (Enum FrameType_variants) None = Inr code"
    using encode_data_fails [of syn "''FrameType''" "Enum FrameType_variants" None] FrameType_accepted [OF assms(1)]
    by (cases "encode_data syn ''FrameType'' (Enum FrameType_variants) None")
       (auto simp del: encode_data.simps)
  have "run_encode (dersp_runtime val_of dec) (dersp_encode W enc) code (obj_FrameType ft) = encode_FrameType W ft" for ft
  proof -
    let ?x = "obj_FrameType ft :: 't val obj"
    obtain variant where v: "variant \<in> set FrameType_variants"
      "?x = make_obj [''FrameType'', variant_ident variant] (variant_fields variant) (obj_values ?x)"
      "length (obj_values ?x) = length (fields_of (variant_fields variant))"
      "wf_fields (variant_fields variant)" "bindable syn (variant_fields variant)"
      "known_values syn (variant_fields variant) (obj_values ?x) = []"
      "variant_tag (dersp_runtime val_of dec) syn ''FrameType'' None variant (obj_values ?x)
        = (retM (VU8 (frame_tag ft)) :: ('w, 't val, 'e) proc)"
      using variant_of_FrameType [OF assms, of ft dec] by auto
    show ?thesis
      using encode_enum_run [OF code v(1) FrameType_names v(4,3,5), of "dersp_runtime val_of dec" "dersp_encode W enc"] v(2,6,7)
      by (simp add: enum_encoder_def encode_FrameType_def encode_Vec_def del: retM_eq)
  qed
  then show ?thesis using code by (simp add: derives_encode_def encode_derive_def Let_def del: encode_data.simps)
qed

section \<open>The types of the fields\<close>

fun val_has_type :: "('t \<Rightarrow> bytes) \<Rightarrow> ('t \<Rightarrow> bool) \<Rightarrow> 't val \<Rightarrow> ty \<Rightarrow> bool" where
  "val_has_type wire valid (VU8 x) t \<longleftrightarrow> t = ''u8''"
| "val_has_type wire valid (VU32 x) t \<longleftrightarrow> t = ''u32''"
| "val_has_type wire valid (VArray n x) t \<longleftrightarrow> length x = n \<and>
     (t = ''[u8; 8]'' \<and> n = 8 \<or> t = ''[u8; 24]'' \<and> n = 24 \<or> t = ''[u8; KEY_SIZE]'' \<and> n = KEY_SIZE)"
| "val_has_type wire valid (VVec x) t \<longleftrightarrow> t = ''Vec<u8>''"
| "val_has_type wire valid (VKey x) t \<longleftrightarrow> t = ''PublicKey'' \<and> valid_PublicKey x"
| "val_has_type wire valid (VFrameType x) t \<longleftrightarrow> t = ''FrameType'' \<and> valid_FrameType x"
| "val_has_type wire valid (VSized x) t \<longleftrightarrow> t = ''SizeWrapper<u32, T>'' \<and> valid_SizeWrapper wire valid x"

fun val_wire :: "('t \<Rightarrow> bytes) \<Rightarrow> 't val \<Rightarrow> bytes" where
  "val_wire wire (VU8 x) = [x]"
| "val_wire wire (VU32 x) = to_be_bytes 4 x"
| "val_wire wire (VArray n x) = x"
| "val_wire wire (VVec x) = x"
| "val_wire wire (VKey x) = pk_bytes x"
| "val_wire wire (VFrameType x) = wire_FrameType x"
| "val_wire wire (VSized x) = wire_SizeWrapper (to_be_bytes 4) wire x"

definition delimited_ty :: "ty \<Rightarrow> bool" where
  "delimited_ty t \<longleftrightarrow> t \<noteq> ''Vec<u8>''"

definition dersp_types :: "ty set" where
  "dersp_types = {''u8'', ''u32'', ''[u8; 8]'', ''[u8; 24]'', ''[u8; KEY_SIZE]'', ''Vec<u8>'', ''PublicKey'',
     ''FrameType'', ''SizeWrapper<u32, T>''}"

text \<open>A field type whose values are a constructor around those of a codec.\<close>

definition field_law ::
  "'t decoder \<Rightarrow> ('t \<Rightarrow> bytes) \<Rightarrow> ('t \<Rightarrow> bool) \<Rightarrow> ty \<Rightarrow> bool" where
  "field_law dec wire valid t \<longleftrightarrow>
     (\<forall>v rest. val_has_type wire valid v t \<longrightarrow> delimited_ty t \<or> rest = [] \<longrightarrow>
        dersp_decode dec t (val_wire wire v @ rest) = Some (Ok v, rest)) \<and>
     (\<forall>bs v rest. dersp_decode dec t bs = Some (Ok v, rest) \<longrightarrow> val_has_type wire valid v t) \<and>
     answers (dersp_decode dec t)"

lemma field_law_prefix:
  assumes "prefix_codec w P d" and "dersp_decode dec t = fmapM C d"
    and "\<And>v. val_has_type wire valid v t \<longleftrightarrow> (\<exists>x. v = C x \<and> P x)" and "\<And>x. val_wire wire (C x) = w x"
  shows "field_law dec wire valid t"
proof -
  note c = prefix_codec.prefix_decodes [OF assms(1)] prefix_codec.prefix_sound [OF assms(1)]
    prefix_codec.prefix_answers [OF assms(1)]
  have "answers (fmapM C d)" unfolding fmapM_def using c(3) by (intro answers_bind answers_ret)
  then show ?thesis
    unfolding field_law_def assms(2) using c(1) c(2)
    by (auto simp: assms(3,4) fmapM_def bindM_Ok_iff) (use c(1) [of _ "[]"] in auto)
qed

lemma field_law_Vec: "field_law dec wire valid ''Vec<u8>''"
proof -
  have "fmapM VVec (decode_Vec decode_u8) bs = Some (Ok (VVec bs), [])" for bs
    using decode_Vec_u8 by (simp add: fmapM_def)
  moreover have "val_has_type wire valid v ''Vec<u8>'' \<longleftrightarrow> (\<exists>x. v = VVec x)" for v by (cases v) auto
  ultimately show ?thesis by (auto simp: field_law_def delimited_ty_def answers_def)
qed

context frame_codec
begin

lemma sized_prefix:
  "prefix_codec (wire_SizeWrapper (to_be_bytes 4) wire) (valid_SizeWrapper wire valid)
     (decode_SizeWrapper decode_u32 try_into_usize dec :: (u32, 't) SizeWrapper decoder)"
  by (rule sized.prefix_codec_axioms)

end

lemma dersp_field_laws:
  assumes "frame_codec wire valid dec" and "t \<in> dersp_types"
  shows "field_law dec wire valid t"
proof -
  from assms(2) show ?thesis
    unfolding dersp_types_def
  proof (elim insertE emptyE)
    assume 1: "t = ''u8''"
    have "val_has_type wire valid v ''u8'' \<longleftrightarrow> (\<exists>x. v = VU8 x \<and> True)" for v by (cases v) auto
    then show ?thesis using field_law_prefix [OF c_u8.prefix_codec_axioms, of dec t VU8 wire valid] 1 by simp
  next
    assume 2: "t = ''u32''"
    have "val_has_type wire valid v ''u32'' \<longleftrightarrow> (\<exists>x. v = VU32 x \<and> True)" for v by (cases v) auto
    then show ?thesis using field_law_prefix [OF c_u32.prefix_codec_axioms, of dec t VU32 wire valid] 2 by simp
  next
    assume 3: "t = ''[u8; 8]''"
    have "val_has_type wire valid v ''[u8; 8]'' \<longleftrightarrow> (\<exists>x. v = VArray 8 x \<and> length x = 8)" for v by (cases v) auto
    then show ?thesis using field_law_prefix [OF prefix_codec_array [of 8], of dec t "VArray 8" wire valid] 3 by simp
  next
    assume 4: "t = ''[u8; 24]''"
    have "val_has_type wire valid v ''[u8; 24]'' \<longleftrightarrow> (\<exists>x. v = VArray 24 x \<and> length x = 24)" for v by (cases v) auto
    then show ?thesis using field_law_prefix [OF prefix_codec_array [of 24], of dec t "VArray 24" wire valid] 4 by simp
  next
    assume 5: "t = ''[u8; KEY_SIZE]''"
    have "val_has_type wire valid v ''[u8; KEY_SIZE]'' \<longleftrightarrow> (\<exists>x. v = VArray KEY_SIZE x \<and> length x = KEY_SIZE)" for v
      by (cases v) auto
    then show ?thesis using field_law_prefix [OF prefix_codec_array [of KEY_SIZE], of dec t "VArray KEY_SIZE" wire valid] 5 by simp
  next
    assume 6: "t = ''Vec<u8>''"
    then show ?thesis by (simp only: field_law_Vec)
  next
    assume 7: "t = ''PublicKey''"
    have "val_has_type wire valid v ''PublicKey'' \<longleftrightarrow> (\<exists>x. v = VKey x \<and> valid_PublicKey x)" for v by (cases v) auto
    then show ?thesis using field_law_prefix [OF c_pk.prefix_codec_axioms, of dec t VKey wire valid] 7 by simp
  next
    assume 8: "t = ''FrameType''"
    have "val_has_type wire valid v ''FrameType'' \<longleftrightarrow> (\<exists>x. v = VFrameType x \<and> valid_FrameType x)" for v by (cases v) auto
    then show ?thesis using field_law_prefix [OF c_ft.prefix_codec_axioms, of dec t VFrameType wire valid] 8 by simp
  next
    assume 9: "t = ''SizeWrapper<u32, T>''"
    have "val_has_type wire valid v ''SizeWrapper<u32, T>'' \<longleftrightarrow> (\<exists>x. v = VSized x \<and> valid_SizeWrapper wire valid x)" for v
      by (cases v) auto
    then show ?thesis
      using field_law_prefix [OF frame_codec.sized_prefix [OF assms(1)], of dec t VSized wire valid] 9 by simp
  qed
qed

context write_buffer
begin

lemma writes_val:
  assumes "val_has_type wire valid v t" and enc: "\<And>x. valid x \<Longrightarrow> writes (length (wire x)) (enc x) (wire x)"
  shows "writes (length (val_wire wire v)) (dersp_encode W enc v) (val_wire wire v)"
proof (cases v)
  case (VSized s)
  obtain x where s: "s = SizeWrapper x" by (cases s)
  then have x: "valid x" "length (wire x) < 2 ^ 32" using assms(1) VSized by (simp_all add: valid_SizeWrapper_def)
  let ?z = "of_nat (length (wire x)) :: u32"
  have "writes (length (wire x) + BYTE_SIZE size_u32) (encode_SizeWrapper size_u32 W enc (SizeWrapper x))
      (to_be_bytes 4 ?z @ wire x)"
    using x by (intro s32.writes_SizeWrapper enc) (simp_all add: size_u32_def try_from_nat_def)
  then show ?thesis using VSized s by (simp add: wire_SizeWrapper_def size_u32_def add.commute)
next
  case (VU8 x)
  then show ?thesis using writes_u8 by simp
next
  case (VU32 x)
  then show ?thesis using writes_u32 by simp
next
  case (VArray n x)
  then show ?thesis using assms(1) writes_array [of n x] by simp
next
  case (VVec x)
  then show ?thesis using writes_Vec_u8 by simp
next
  case (VKey x)
  then show ?thesis using assms(1) writes_PublicKey [of x] by (simp add: valid_PublicKey_def)
next
  case (VFrameType x)
  then show ?thesis using writes_FrameType [of x] by (simp add: wire_FrameType_def)
qed

end

lemma dersp_derive_runtime:
  assumes "frame_endpoint wire valid dec enc enc_slice"
  shows "derive_runtime (dersp_runtime val_of dec) (val_has_type wire valid) delimited_ty (val_wire wire)
    (dersp_encode vec_buffer enc) dersp_types"
proof -
  have codec: "frame_codec wire valid dec" and enc: "\<And>x. valid x \<Longrightarrow> vec.writes (length (wire x)) (enc x) (wire x)"
    using assms unfolding frame_endpoint_def frame_endpoint_axioms_def by blast+
  have writes: "dersp_encode vec_buffer enc v buf = Some (Ok (length (val_wire wire v)), buf @ val_wire wire v)"
    if "val_has_type wire valid v t" for v t buf
    using vec.writes_val [OF that enc] by (simp add: vec_writes_iff)
  show ?thesis
    using dersp_field_laws [OF codec] writes
    by unfold_locales (auto simp: field_law_def)
qed

text \<open>The runtime of \<open>Frame<SendPacket>\<close> and of the types without parameters.\<close>

interpretation d_SendPacket: derive_runtime "dersp_runtime literal_u8 decode_SendPacket"
    "val_has_type wire_SendPacket valid_SendPacket" delimited_ty "val_wire wire_SendPacket"
    "dersp_encode vec_buffer (encode_SendPacket vec_buffer)" dersp_types
  by (rule dersp_derive_runtime) (rule e_SendPacket.frame_endpoint_axioms)

lemma FrameType_impls:
  obtains dcode ecode
  where "decode_derive literal_syn FrameType_item = Impl [''codec'', ''Decode''] [] ''FrameType'' dcode"
    and "encode_derive literal_syn FrameType_item = Impl [''codec'', ''Encode''] [] ''FrameType'' ecode"
proof -
  have "\<not> decode_refuses literal_syn (Enum FrameType_variants)" "\<not> encode_refuses literal_syn (Enum FrameType_variants)"
    using FrameType_accepted [OF syn_law_literal] by auto
  then obtain dcode ecode where "decode_data literal_syn ''FrameType'' (Enum FrameType_variants) None = Inr dcode"
    "encode_data literal_syn ''FrameType'' (Enum FrameType_variants) None = Inr ecode"
    using decode_data_fails encode_data_fails by (metis sum.exhaust)
  then show thesis
    using that by (simp add: decode_derive_def encode_derive_def FrameType_item_def add_trait_bounds_def Let_def
        extract_converter_def del: decode_data.simps encode_data.simps)
qed

abbreviation frame_runtime :: "(string, SendPacket val) runtime" where
  "frame_runtime \<equiv> dersp_runtime literal_u8 decode_SendPacket"

lemma FrameType_types: "set (types_of frame_runtime (input_data FrameType_item)) \<subseteq> dersp_types"
  by (simp add: FrameType_variants_def dersp_runtime_def dersp_types_def)

lemma FrameType_well_tagged: "well_tagged frame_runtime literal_syn None FrameType_variants"
  by (simp add: well_tagged_def FrameType_variants_def get_variant_tag_tagged [OF syn_law_literal] dersp_runtime_def)

lemma FrameType_sendable:
  "sendable frame_runtime (val_has_type wire_SendPacket valid_SendPacket) delimited_ty literal_syn None ''FrameType''
     (input_data FrameType_item) (obj_FrameType (Unkonow 0x20)) rest"
proof -
  let ?v = "\<lparr>variant_attrs = [unknown_attr], variant_ident = ''Unkonow'',
       variant_fields = Unnamed [\<lparr>field_attrs = [unknown_attr], field_ident = [], field_ty = ''u8''\<rparr>]\<rparr>"
  have v: "?v \<in> set FrameType_variants" by (simp add: FrameType_variants_def)
  have key: "Some (VU8 0x20) \<notin> variant_key frame_runtime literal_syn None ` set FrameType_variants"
    by (simp add: FrameType_variants_def get_variant_tag_tagged [OF syn_law_literal] dersp_runtime_def)
  show ?thesis
    using FrameType_well_tagged FrameType_names key
    by (simp add: delimited_ty_def dersp_runtime_def)
       (rule bexI [OF _ v], simp add: typed_obj_def readable_def known_types_def unknown_or_false_def value_tag_def first_unknown_def)
qed

section \<open>Properties\<close>

text \<open>
  C6. The macros generate the codecs of dersp: for each of the twelve types that derive \<open>Decode\<close>, the macro
  accepts the declaration and running the code it generates is running the decoder this development uses
  for the type, and likewise for the eleven types that derive \<open>Encode\<close>, at every write buffer.
\<close>

theorem derived_codecs_of_dersp:
  fixes dec :: "'t decoder" and enc :: "('w, 't, 'e) encoder" and W :: "('w, 'e) WriteBuffer"
    and val_of :: "'x \<Rightarrow> u8" and syn :: "'x syn"
  assumes "syn_law syn mk" and "\<forall>l. val_of (mk l) = literal_u8 l"
    and "R = dersp_runtime val_of dec" and "E = dersp_encode W enc"
  shows "derives_decode syn R FrameType_item obj_FrameType decode_FrameType \<and>
    derives_decode syn R PublicKey_item obj_PublicKey decode_PublicKey \<and>
    derives_decode syn R Frame_item obj_Frame (decode_Frame dec) \<and>
    derives_decode syn R ServerKey_item obj_ServerKey decode_ServerKey \<and>
    derives_decode syn R ClientInfo_item obj_ClientInfo decode_ClientInfo \<and>
    derives_decode syn R ServerInfo_item obj_ServerInfo decode_ServerInfo \<and>
    derives_decode syn R SendPacket_item obj_SendPacket decode_SendPacket \<and>
    derives_decode syn R RecvPacket_item obj_RecvPacket decode_RecvPacket \<and>
    derives_decode syn R ForwardPacket_item obj_ForwardPacket decode_ForwardPacket \<and>
    derives_decode syn R PeerPresent_item obj_PeerPresent decode_PeerPresent \<and>
    derives_decode syn R WatchConns_item obj_WatchConns decode_WatchConns \<and>
    derives_decode syn R Header_item obj_Header decode_Header \<and>
    derives_encode syn R E FrameType_item obj_FrameType (encode_FrameType W) \<and>
    derives_encode syn R E PublicKey_item obj_PublicKey (encode_PublicKey W) \<and>
    derives_encode syn R E Frame_item obj_Frame (encode_Frame W enc) \<and>
    derives_encode syn R E ServerKey_item obj_ServerKey (encode_ServerKey W) \<and>
    derives_encode syn R E ClientInfo_item obj_ClientInfo (encode_ClientInfo W) \<and>
    derives_encode syn R E ServerInfo_item obj_ServerInfo (encode_ServerInfo W) \<and>
    derives_encode syn R E SendPacket_item obj_SendPacket (encode_SendPacket W) \<and>
    derives_encode syn R E RecvPacket_item obj_RecvPacket (encode_RecvPacket W) \<and>
    derives_encode syn R E ForwardPacket_item obj_ForwardPacket (encode_ForwardPacket W) \<and>
    derives_encode syn R E PeerPresent_item obj_PeerPresent (encode_PeerPresent W) \<and>
    derives_encode syn R E WatchConns_item obj_WatchConns (encode_WatchConns W)"
  unfolding assms(3,4)
  by (intro conjI derives_decode_structs derives_encode_structs derives_decode_FrameType [OF assms(1,2)]
      derives_encode_FrameType [OF assms(1,2)])

theorem derived_codecs_of_dersp_witness:
  "derives_decode literal_syn (dersp_runtime literal_u8 decode_SendPacket) FrameType_item obj_FrameType decode_FrameType \<and>
   derives_encode literal_syn (dersp_runtime literal_u8 decode_SendPacket)
     (dersp_encode vec_buffer (encode_SendPacket vec_buffer :: (bytes, SendPacket, BufferOverflow) encoder))
     Frame_item obj_Frame (encode_Frame vec_buffer (encode_SendPacket vec_buffer))"
  using derived_codecs_of_dersp [OF syn_law_literal, of literal_u8 "dersp_runtime literal_u8 decode_SendPacket" decode_SendPacket
      "dersp_encode vec_buffer (encode_SendPacket vec_buffer :: (bytes, SendPacket, BufferOverflow) encoder)" vec_buffer
      "encode_SendPacket vec_buffer"]
  by simp

text \<open>
  C7. Generated codecs invert each other. Where both macros accept a type, the field types have codecs, no
  two variants share a tag and an unknown variant comes last, a value that is not an unknown variant with a
  known tag is decoded again from what the generated encoder wrote for it, the bytes behind it left alone.
\<close>

theorem derived_codecs_roundtrip:
  assumes "derive_runtime R has_type delimited wire enc tys" and "set (types_of R (input_data input)) \<subseteq> tys"
    and "decode_derive syn input = Impl dtr dgen name dcode" and "encode_derive syn input = Impl etr egen name ecode"
    and "extract_converter syn input = Inr conv"
    and "sendable R has_type delimited syn conv name (input_data input) x rest"
  shows "\<exists>bs. run_encode R enc ecode x [] = Some (Ok (length bs), bs) \<and> run_decode R dcode (bs @ rest) = Some (Ok x, rest)"
proof -
  have "decode_data syn name (input_data input) conv = Inr dcode"
    using assms(3,5) by (elim decode_derive_Impl) simp
  moreover have "encode_data syn name (input_data input) conv = Inr ecode"
    using assms(4,5) by (elim encode_derive_Impl) simp
  ultimately show ?thesis using derive_runtime.derived_roundtrip [OF assms(1) _ _ assms(2,6)] by blast
qed

theorem derived_codecs_roundtrip_witness:
  "\<exists>dcode ecode bs.
     decode_derive literal_syn FrameType_item = Impl [''codec'', ''Decode''] [] ''FrameType'' dcode \<and>
     encode_derive literal_syn FrameType_item = Impl [''codec'', ''Encode''] [] ''FrameType'' ecode \<and>
     run_encode frame_runtime
       (dersp_encode vec_buffer (encode_SendPacket vec_buffer :: (bytes, SendPacket, BufferOverflow) encoder)) ecode
       (obj_FrameType (Unkonow 0x20)) [] = Some (Ok (length bs), bs) \<and>
     run_decode frame_runtime dcode (bs @ [9]) = Some (Ok (obj_FrameType (Unkonow 0x20)), [9])"
proof -
  obtain dcode ecode where c: "decode_derive literal_syn FrameType_item = Impl [''codec'', ''Decode''] [] ''FrameType'' dcode"
    "encode_derive literal_syn FrameType_item = Impl [''codec'', ''Encode''] [] ''FrameType'' ecode"
    by (rule FrameType_impls)
  show ?thesis
    using derived_codecs_roundtrip [OF d_SendPacket.derive_runtime_axioms FrameType_types c
        extract_converter_FrameType FrameType_sendable] c by blast
qed

text \<open>
  C14. Generated decoders are typed: where the compiler accepts the generated code (the unknown fields have
  the type of the tag and every tag has an arm) and the decoders of the field types answer with values of
  these types, the generated decoder answers on every input with a value or a decoding error, never by a
  panic and never not at all, and the value is one of the declared type: a variant that is declared, with
  its fields, each of its type.
\<close>

theorem derived_decoder_typed:
  assumes "derive_runtime R has_type delimited wire enc tys" and "set (types_of R (input_data input)) \<subseteq> tys"
    and "decode_derive syn input = Impl tr gen name code" and "extract_converter syn input = Inr conv"
    and "unknown_typed R syn (input_data input)" and "exhaustive R has_type syn conv (input_data input)"
  shows "(\<exists>r rest. run_decode R code bs = Some (r, rest) \<and> (\<forall>msg. r \<noteq> Panic msg)) \<and>
    (\<forall>x rest. run_decode R code bs = Some (Ok x, rest) \<longrightarrow> inhabits has_type name (input_data input) x)"
proof -
  have "decode_data syn name (input_data input) conv = Inr code"
    using assms(3,4) by (elim decode_derive_Impl) simp
  then show ?thesis using derive_runtime.decoder_sound [OF assms(1) _ assms(2,5,6)] by (auto simp: answers_def)
qed

theorem derived_decoder_typed_witness:
  "\<exists>code. decode_derive literal_syn FrameType_item = Impl [''codec'', ''Decode''] [] ''FrameType'' code \<and>
     (\<exists>r rest. run_decode frame_runtime code [7] = Some (r, rest) \<and> (\<forall>msg. r \<noteq> Panic msg)) \<and>
     (\<forall>x rest. run_decode frame_runtime code [7] = Some (Ok x, rest) \<longrightarrow>
        inhabits (val_has_type wire_SendPacket valid_SendPacket) ''FrameType'' (Enum FrameType_variants) x)"
proof -
  obtain code ecode where c: "decode_derive literal_syn FrameType_item = Impl [''codec'', ''Decode''] [] ''FrameType'' code"
    "encode_derive literal_syn FrameType_item = Impl [''codec'', ''Encode''] [] ''FrameType'' ecode"
    by (rule FrameType_impls)
  have "unknown_typed frame_runtime literal_syn (input_data FrameType_item)"
    by (simp add: FrameType_variants_def dersp_runtime_def)
  moreover have "exhaustive frame_runtime (val_has_type wire_SendPacket valid_SendPacket) literal_syn None (input_data FrameType_item)"
    by (simp add: FrameType_variants_def)
  ultimately show ?thesis
    using derived_decoder_typed [OF d_SendPacket.derive_runtime_axioms FrameType_types c(1)
        extract_converter_FrameType, of "[7]"] c(1) by (simp only: FrameType_item_simps) blast
qed

end
