(* ===== verification/Liveness.thy ===== *)
theory Liveness
  imports System
begin

text \<open>
  Runs of the server: infinite sequences of steps of System, with pauses. A run is weakly fair to a task
  if the task does not stay ready for ever without taking its step, which is what the scheduler of tokio
  gives a task that has been woken. The theory shows that a packet for a connected client arrives.
\<close>

section \<open>Runs\<close>

type_synonym run = "nat \<Rightarrow> system"

definition is_run :: "parse_request \<Rightarrow> library \<Rightarrow> run \<Rightarrow> bool" where
  "is_run parse_request lib \<sigma> \<longleftrightarrow> (\<forall>n. sys_step parse_request lib (\<sigma> n) (\<sigma> (Suc n)) \<or> \<sigma> (Suc n) = \<sigma> n)"

definition weakly_fair :: "(system \<Rightarrow> system \<Rightarrow> bool) \<Rightarrow> run \<Rightarrow> bool" where
  "weakly_fair act \<sigma> \<longleftrightarrow> (\<forall>n. (\<forall>m \<ge> n. \<exists>s'. act (\<sigma> m) s') \<longrightarrow> (\<exists>m \<ge> n. act (\<sigma> m) (\<sigma> (Suc m))))"

text \<open>The steps of the command loop and of the write loop of an endpoint.\<close>

definition recv_act :: "system \<Rightarrow> system \<Rightarrow> bool" where
  "recv_act s s' \<longleftrightarrow> command_recv s = Some s'"

definition send_act :: "system \<Rightarrow> system \<Rightarrow> bool" where
  "send_act s s' \<longleftrightarrow> command_send s = Some s'"

definition write_act :: "sink \<Rightarrow> system \<Rightarrow> system \<Rightarrow> bool" where
  "write_act i s s' \<longleftrightarrow> i < length (sys_endpoints s) \<and> ep_writing (sys_endpoints s ! i) \<and>
     (\<exists>c queue r w. ep_queue (sys_endpoints s ! i) = c # queue \<and>
        write_command_of (ep_role (sys_endpoints s ! i)) c (ep_writer (sys_endpoints s ! i)) = Some (r, w) \<and>
        s' = update_endpoint i (\<lambda>e. e\<lparr>ep_queue := queue, ep_writing := continues r, ep_writer := w\<rparr>) s)"

lemma weakly_fair_leads:
  assumes fair: "weakly_fair act \<sigma>" and start: "P (\<sigma> n)"
    and keeps: "\<And>m. n \<le> m \<Longrightarrow> P (\<sigma> m) \<Longrightarrow> P (\<sigma> (Suc m)) \<or> Q (\<sigma> m) (\<sigma> (Suc m))"
    and ready: "\<And>m. n \<le> m \<Longrightarrow> P (\<sigma> m) \<Longrightarrow> \<exists>s'. act (\<sigma> m) s'"
    and acts: "\<And>m. n \<le> m \<Longrightarrow> P (\<sigma> m) \<Longrightarrow> act (\<sigma> m) (\<sigma> (Suc m)) \<Longrightarrow> Q (\<sigma> m) (\<sigma> (Suc m))"
  shows "\<exists>m \<ge> n. P (\<sigma> m) \<and> Q (\<sigma> m) (\<sigma> (Suc m))"
proof (rule ccontr)
  assume no: "\<not> ?thesis"
  have P: "P (\<sigma> m)" if "n \<le> m" for m
    using that
  proof (induction m rule: dec_induct)
    case (step m)
    then show ?case using keeps [of m] no by auto
  qed (rule start)
  then obtain m where "m \<ge> n" "act (\<sigma> m) (\<sigma> (Suc m))"
    using fair ready unfolding weakly_fair_def by meson
  then show False using acts P no by blast
qed

lemma run_inv:
  assumes "is_run parse_request lib \<sigma>" and "reachable parse_request lib meshkey (\<sigma> 0)"
  shows "sys_inv (\<sigma> n)"
  using assms by (induction n) (metis reachable_inv, metis is_run_def sys_step_inv)

section \<open>What a step does to an endpoint\<close>

lemma with_endpoint_nth [simp]:
  "i < length (sys_endpoints s) \<Longrightarrow> sys_endpoints (with_endpoint rl socket s) ! i = sys_endpoints s ! i"
  by (simp add: with_endpoint_def nth_append)

lemma update_endpoint_nth:
  "i < length (sys_endpoints s) \<Longrightarrow>
   sys_endpoints (update_endpoint j f s) ! i = (if i = j then f (sys_endpoints s ! i) else sys_endpoints s ! i)"
  by (auto simp: update_endpoint_def)

lemma table_endpoints [simp]:
  "sys_endpoints (insert_peer k i s) = sys_endpoints s" "sys_endpoints (insert_mesh k i s) = sys_endpoints s"
  "sys_endpoints (notify_all_mesh_peers k s) = sys_endpoints s"
  "sys_endpoints (notify_about_all_clients i ks s) = sys_endpoints s"
  by (simp_all add: insert_peer_def insert_mesh_def notify_all_mesh_peers_def notify_about_all_clients_def)

lemma handle_command_endpoints: "sys_endpoints (handle_command c s) = sys_endpoints s"
  by (cases c) (simp_all add: Let_def split: option.splits)

lemma start_mesh_peer_cases:
  assumes "start_mesh_peer resolved started s = Some (r, s')"
  obtains "s' = s" | k socket where "s' = insert_mesh k (length (sys_endpoints s)) (with_endpoint MeshRole socket s)"
  using assms
  by (auto simp: start_mesh_peer_def spawn_endpoint_eq elim!: bindM_cases split: outcome.splits prod.splits)

text \<open>
  Only the command loop fills the queue of a client that may not mesh, and only its write loop empties
  it.
\<close>

lemma client_endpoint_step:
  assumes step: "sys_step parse_request lib s s'" and inv: "sys_inv s"
    and i: "i < length (sys_endpoints s)" "ep_role (sys_endpoints s ! i) = ClientRole pk False"
  shows "ep_queue (sys_endpoints s' ! i) = ep_queue (sys_endpoints s ! i) \<and>
      ep_writer (sys_endpoints s' ! i) = ep_writer (sys_endpoints s ! i) \<or>
    (\<exists>c. sys_loop s = Sending i c \<and> send_act s s') \<or> write_act i s s'"
  using step
proof cases
  case (accept sk peer_addr socket r)
  from accept(1) show ?thesis by (cases rule: handle_client_cases) (use i in simp_all)
next
  case (mesh_peer resolved started r)
  from mesh_peer(2) show ?thesis by (cases rule: start_mesh_peer_cases) (use i in simp_all)
next
  case (read_one j r t)
  then show ?thesis using i by (simp add: update_endpoint_nth)
next
  case recv
  then show ?thesis
    by (auto simp: command_recv_def handle_command_endpoints split: loop_state.splits list.splits)
next
  case send
  then obtain j c where j: "sys_loop s = Sending j c" by (auto simp: command_send_def split: loop_state.splits)
  show ?thesis
  proof (cases "j = i")
    case False
    then show ?thesis
      using send j i
      by (auto simp: command_send_def update_endpoint_nth elim!: send_sink_cases split: option.splits prod.splits outcome.splits)
  qed (use send j in \<open>auto simp: send_act_def\<close>)
next
  case (notify t j k r s1)
  have "may_mesh s j" using inv notify(2,3) unfolding sys_inv_def by fastforce
  then have "j \<noteq> i" using i by (auto simp: may_mesh_def)
  from notify(4) show ?thesis
    by (cases rule: send_sink_cases) (use i notify(1) \<open>j \<noteq> i\<close> in \<open>simp_all add: update_endpoint_nth\<close>)
next
  case (write_one j c queue r w)
  show ?thesis
  proof (cases "j = i")
    case True
    then have "write_act i s s'" unfolding write_act_def using write_one by auto
    then show ?thesis by blast
  next
    case False
    then show ?thesis using write_one(1) i by (simp add: update_endpoint_nth)
  qed
next
  case (close j)
  then show ?thesis using i by (simp add: update_endpoint_nth)
qed

lemma role_step:
  assumes "sys_step parse_request lib s s'" and "i < length (sys_endpoints s)"
  shows "i < length (sys_endpoints s') \<and> ep_role (sys_endpoints s' ! i) = ep_role (sys_endpoints s ! i)"
  using assms
proof cases
  case (accept sk peer_addr socket r)
  from accept(1) show ?thesis by (cases rule: handle_client_cases) (use assms(2) in \<open>simp_all add: with_endpoint_def nth_append\<close>)
next
  case (mesh_peer resolved started r)
  from mesh_peer(2) show ?thesis by (cases rule: start_mesh_peer_cases) (use assms(2) in \<open>simp_all add: with_endpoint_def nth_append\<close>)
next
  case recv
  then show ?thesis
    using assms(2) by (auto simp: command_recv_def handle_command_endpoints split: loop_state.splits list.splits)
next
  case send
  then show ?thesis
    using assms(2) by (auto simp: command_send_def update_endpoint_nth elim!: send_sink_cases
        split: loop_state.splits option.splits prod.splits outcome.splits)
next
  case (notify t j k r s1)
  from notify(4) show ?thesis
    by (cases rule: send_sink_cases) (use assms(2) notify(1) in \<open>simp_all add: update_endpoint_nth\<close>)
qed (use assms(2) in \<open>simp_all add: update_endpoint_nth\<close>)

text \<open>While the command loop waits, it alone takes commands off its channel; while it sends, it goes on sending.\<close>

lemma loop_step:
  assumes "sys_step parse_request lib s s'"
  shows "sys_loop s' = sys_loop s \<and> (\<exists>cs. sys_commands s' = sys_commands s @ cs) \<or> recv_act s s' \<or> send_act s s'"
  using assms
proof cases
  case (accept sk peer_addr socket r)
  from accept(1) show ?thesis
    by (cases rule: handle_client_cases) (simp_all add: notify_all_mesh_peers_def insert_peer_def with_endpoint_def)
next
  case (mesh_peer resolved started r)
  from mesh_peer(2) show ?thesis by (cases rule: start_mesh_peer_cases) (simp_all add: insert_mesh_def with_endpoint_def)
next
  case (read_one j r t)
  then show ?thesis using read_step_commands [OF read_one(5)] by (auto simp: reader_state_def)
next
  case (notify t j k r s1)
  from notify(4) show ?thesis by (cases rule: send_sink_cases) (use notify(1) in simp_all)
qed (auto simp: recv_act_def send_act_def)

section \<open>Writing to a client\<close>

lemma client_write_returns:
  assumes "valid_PublicKey pk" and "\<forall>k. c \<noteq> WPeerPresent k"
  shows "\<exists>r w'. client_write_command pk False c w = Some (r, w')"
proof (cases c)
  case (WSendPacket source target payload)
  show ?thesis
  proof (cases "target = pk")
    case True
    then show ?thesis
      using encode_recv_packet_cases [OF assms(1), of payload w] WSendPacket
      by (auto simp: client_write_command_def bindM_def write_all_def split: outcome.splits prod.splits)
  qed (use WSendPacket in \<open>simp add: client_write_command_def\<close>)
qed (use assms(2) in \<open>simp_all add: client_write_command_def\<close>)

lemma client_write_delivers:
  assumes "valid_PublicKey pk" and "client_write_command pk False (WSendPacket source pk payload) w = Some (Ok None, w')"
  shows "w_out w' = w_out w @ recv_packet_bytes pk payload"
proof -
  have "write_all (recv_packet_bytes pk payload) w = Some (Ok (), w')"
    using assms(2) encode_recv_packet_cases [OF assms(1), of payload w]
    by (auto simp: client_write_command_def bindM_Ok_iff)
  then obtain n where "w_out w' = w_out w @ take n (recv_packet_bytes pk payload)"
      "take n (recv_packet_bytes pk payload) = recv_packet_bytes pk payload"
    using write_all_prefix by blast
  then show ?thesis by simp
qed

section \<open>A packet arrives\<close>

text \<open>
  A fair run with a client \<open>i\<close> from time \<open>n\<close> on: it has been admitted without the mesh key, and its
  connection stays up.
\<close>

definition serves :: "parse_request \<Rightarrow> library \<Rightarrow> bytes option \<Rightarrow> sink \<Rightarrow> PublicKey \<Rightarrow> nat \<Rightarrow> run \<Rightarrow> bool" where
  "serves parse_request lib meshkey i pk n \<sigma> \<longleftrightarrow>
     is_run parse_request lib \<sigma> \<and> reachable parse_request lib meshkey (\<sigma> 0) \<and>
     weakly_fair recv_act \<sigma> \<and> weakly_fair send_act \<sigma> \<and> weakly_fair (write_act i) \<sigma> \<and>
     i < length (sys_endpoints (\<sigma> n)) \<and> ep_role (sys_endpoints (\<sigma> n) ! i) = ClientRole pk False \<and>
     (\<forall>m \<ge> n. ep_writing (sys_endpoints (\<sigma> m) ! i))"

lemma serves_client:
  assumes "serves parse_request lib meshkey i pk n \<sigma>" and "n \<le> m"
  shows "i < length (sys_endpoints (\<sigma> m)) \<and> ep_role (sys_endpoints (\<sigma> m) ! i) = ClientRole pk False"
  using assms(2)
proof (induction m rule: dec_induct)
  case base
  then show ?case using assms(1) by (simp add: serves_def)
next
  case (step m)
  have "sys_step parse_request lib (\<sigma> m) (\<sigma> (Suc m)) \<or> \<sigma> (Suc m) = \<sigma> m"
    using assms(1) by (simp add: serves_def is_run_def)
  then show ?case using step.IH role_step [of parse_request lib "\<sigma> m" "\<sigma> (Suc m)" i] by auto
qed

lemma serves_later: "serves parse_request lib meshkey i pk n \<sigma> \<Longrightarrow> n \<le> m \<Longrightarrow> serves parse_request lib meshkey i pk m \<sigma>"
  using serves_client [of parse_request lib meshkey i pk n \<sigma> m] by (auto simp: serves_def)

lemma serves_inv:
  assumes "serves parse_request lib meshkey i pk n \<sigma>" and "n \<le> m"
  shows "sys_inv (\<sigma> m)" and "valid_PublicKey pk" and "ep_writing (sys_endpoints (\<sigma> m) ! i)"
    and "\<And>k. WPeerPresent k \<notin> set (ep_queue (sys_endpoints (\<sigma> m) ! i))"
proof -
  show inv: "sys_inv (\<sigma> m)" using assms(1) run_inv unfolding serves_def by blast
  have "endpoint_ok (svc_meshkey (sys_service (\<sigma> m))) (ClientRole pk False) (sys_endpoints (\<sigma> m) ! i)"
    using inv serves_client [OF assms] by (metis nth_mem sys_inv_def)
  then show "valid_PublicKey pk" and "\<And>k. WPeerPresent k \<notin> set (ep_queue (sys_endpoints (\<sigma> m) ! i))" by simp_all
  show "ep_writing (sys_endpoints (\<sigma> m) ! i)" using assms by (simp add: serves_def)
qed

lemma serves_cases:
  assumes "serves parse_request lib meshkey i pk n \<sigma>" and "n \<le> m"
  obtains "ep_queue (sys_endpoints (\<sigma> (Suc m)) ! i) = ep_queue (sys_endpoints (\<sigma> m) ! i)"
      and "ep_writer (sys_endpoints (\<sigma> (Suc m)) ! i) = ep_writer (sys_endpoints (\<sigma> m) ! i)"
  | c where "sys_loop (\<sigma> m) = Sending i c" and "send_act (\<sigma> m) (\<sigma> (Suc m))"
  | "write_act i (\<sigma> m) (\<sigma> (Suc m))"
proof -
  have "sys_step parse_request lib (\<sigma> m) (\<sigma> (Suc m)) \<or> \<sigma> (Suc m) = \<sigma> m"
    using assms(1) by (simp add: serves_def is_run_def)
  then show thesis
    using client_endpoint_step [of parse_request lib "\<sigma> m" "\<sigma> (Suc m)" i pk] serves_inv(1) [OF assms]
      serves_client [OF assms] that by metis
qed

lemma write_ready:
  assumes "serves parse_request lib meshkey i pk n \<sigma>" and "n \<le> m" and "ep_queue (sys_endpoints (\<sigma> m) ! i) \<noteq> []"
  shows "\<exists>s'. write_act i (\<sigma> m) s'"
proof -
  obtain c queue where q: "ep_queue (sys_endpoints (\<sigma> m) ! i) = c # queue" using assms(3) by (cases "ep_queue (sys_endpoints (\<sigma> m) ! i)") auto
  obtain r w where "client_write_command pk False c (ep_writer (sys_endpoints (\<sigma> m) ! i)) = Some (r, w)"
    using client_write_returns [of pk c] serves_inv(2,4) [OF assms(1,2)] q by (metis list.set_intros(1))
  then show ?thesis
    using q serves_client [OF assms(1,2)] serves_inv(3) [OF assms(1,2)]
    by (simp add: write_act_def write_command_of_def)
qed

text \<open>The loop cannot send while the queue is full.\<close>

lemma no_send_full:
  assumes "serves parse_request lib meshkey i pk n \<sigma>" and "n \<le> m" and "ep_queue (sys_endpoints (\<sigma> m) ! i) \<noteq> []"
    and "sys_loop (\<sigma> m) = Sending i c"
  shows "\<not> send_act (\<sigma> m) s'"
  using assms serves_inv(3) [OF assms(1,2)] serves_client [OF assms(1,2)]
  by (auto simp: send_act_def command_send_def send_sink_def Let_def CHANNEL_SIZE_def)

lemma serves_loop:
  assumes "serves parse_request lib meshkey i pk n \<sigma>"
  obtains "sys_loop (\<sigma> (Suc m)) = sys_loop (\<sigma> m)" and "\<exists>cs. sys_commands (\<sigma> (Suc m)) = sys_commands (\<sigma> m) @ cs"
  | "recv_act (\<sigma> m) (\<sigma> (Suc m))"
  | "send_act (\<sigma> m) (\<sigma> (Suc m))"
proof -
  have "sys_step parse_request lib (\<sigma> m) (\<sigma> (Suc m)) \<or> \<sigma> (Suc m) = \<sigma> m"
    using assms by (simp add: serves_def is_run_def)
  then show thesis using loop_step [of parse_request lib "\<sigma> m" "\<sigma> (Suc m)"] that by auto
qed

lemma sending_no_recv: "sys_loop s = Sending i c \<Longrightarrow> \<not> recv_act s s'"
  by (simp add: recv_act_def command_recv_def)

text \<open>The command in front of the queue is written; a command loop that waits for the queue goes on waiting.\<close>

lemma queue_leads:
  assumes sv: "serves parse_request lib meshkey i pk n \<sigma>" and q: "ep_queue (sys_endpoints (\<sigma> n) ! i) = d # queue"
    and loop: "any \<or> sys_loop (\<sigma> n) = Sending i c"
  shows "\<exists>m \<ge> n. (ep_queue (sys_endpoints (\<sigma> m) ! i) = d # queue \<and> (any \<or> sys_loop (\<sigma> m) = Sending i c)) \<and>
    write_act i (\<sigma> m) (\<sigma> (Suc m))"
proof (rule weakly_fair_leads [where act = "write_act i" and Q = "write_act i"
      and P = "\<lambda>s. ep_queue (sys_endpoints s ! i) = d # queue \<and> (any \<or> sys_loop s = Sending i c)"])
  show "weakly_fair (write_act i) \<sigma>" using sv by (simp add: serves_def)
  show "ep_queue (sys_endpoints (\<sigma> n) ! i) = d # queue \<and> (any \<or> sys_loop (\<sigma> n) = Sending i c)"
    using q loop by blast
  fix m assume m: "n \<le> m"
    and P: "ep_queue (sys_endpoints (\<sigma> m) ! i) = d # queue \<and> (any \<or> sys_loop (\<sigma> m) = Sending i c)"
  note full = no_send_full [OF sv m, of _ "\<sigma> (Suc m)"]
  show "\<exists>s'. write_act i (\<sigma> m) s'" using write_ready [OF sv m] P by simp
  have loop': "any \<or> sys_loop (\<sigma> (Suc m)) = Sending i c"
    by (cases rule: serves_loop [OF sv, of m]) (use P full sending_no_recv [of "\<sigma> m" i c] in auto)
  show "ep_queue (sys_endpoints (\<sigma> (Suc m)) ! i) = d # queue \<and> (any \<or> sys_loop (\<sigma> (Suc m)) = Sending i c) \<or>
      write_act i (\<sigma> m) (\<sigma> (Suc m))"
    by (cases rule: serves_cases [OF sv m]) (use P full loop' in auto)
qed

lemma write_act_queue:
  assumes "write_act i s s'" and "ep_queue (sys_endpoints s ! i) = d # queue"
  shows "ep_queue (sys_endpoints s' ! i) = queue" and "sys_loop s' = sys_loop s"
  using assms by (auto simp: write_act_def update_endpoint_nth)

text \<open>What the command loop sends gets into the queue, behind nothing.\<close>

lemma send_act_queue:
  assumes sv: "serves parse_request lib meshkey i pk n \<sigma>" "n \<le> m" and "sys_loop (\<sigma> m) = Sending i c"
    and "send_act (\<sigma> m) (\<sigma> (Suc m))" and "ep_queue (sys_endpoints (\<sigma> m) ! i) = []"
  shows "ep_queue (sys_endpoints (\<sigma> (Suc m)) ! i) = [c]"
proof -
  have "\<sigma> (Suc m) = the (command_send (\<sigma> m))" using assms(4) by (simp add: send_act_def)
  then show ?thesis
    using assms serves_inv(3) [OF sv] serves_client [OF sv]
    by (simp add: command_send_def send_sink_def Let_def CHANNEL_SIZE_def)
qed

lemma sending_leads:
  assumes "serves parse_request lib meshkey i pk n \<sigma>" and "sys_loop (\<sigma> n) = Sending i c"
  shows "\<exists>m \<ge> n. ep_queue (sys_endpoints (\<sigma> m) ! i) = [c]"
  using assms
proof (induction "ep_queue (sys_endpoints (\<sigma> n) ! i)" arbitrary: n)
  case Nil
  note sv = Nil.prems(1)
  have "\<exists>m \<ge> n. (sys_loop (\<sigma> m) = Sending i c \<and> ep_queue (sys_endpoints (\<sigma> m) ! i) = []) \<and> send_act (\<sigma> m) (\<sigma> (Suc m))"
  proof (rule weakly_fair_leads [where act = send_act and Q = send_act
        and P = "\<lambda>s. sys_loop s = Sending i c \<and> ep_queue (sys_endpoints s ! i) = []"])
    show "weakly_fair send_act \<sigma>" using sv by (simp add: serves_def)
    show "sys_loop (\<sigma> n) = Sending i c \<and> ep_queue (sys_endpoints (\<sigma> n) ! i) = []" using Nil by simp
    fix m assume m: "n \<le> m" and P: "sys_loop (\<sigma> m) = Sending i c \<and> ep_queue (sys_endpoints (\<sigma> m) ! i) = []"
    show "\<exists>s'. send_act (\<sigma> m) s'"
      using P serves_inv(3) [OF sv m] serves_client [OF sv m]
      by (simp add: send_act_def command_send_def send_sink_def Let_def CHANNEL_SIZE_def)
    have loop': "sys_loop (\<sigma> (Suc m)) = Sending i c \<or> send_act (\<sigma> m) (\<sigma> (Suc m))"
      by (cases rule: serves_loop [OF sv, of m]) (use P sending_no_recv [of "\<sigma> m" i c] in auto)
    show "sys_loop (\<sigma> (Suc m)) = Sending i c \<and> ep_queue (sys_endpoints (\<sigma> (Suc m)) ! i) = [] \<or>
        send_act (\<sigma> m) (\<sigma> (Suc m))"
      by (cases rule: serves_cases [OF sv m]) (use P loop' in \<open>auto simp: write_act_def\<close>)
  qed
  then show ?case using send_act_queue [OF sv] by (meson le_SucI)
next
  case (Cons d queue)
  obtain m where m: "n \<le> m" "ep_queue (sys_endpoints (\<sigma> m) ! i) = d # queue" "sys_loop (\<sigma> m) = Sending i c"
      "write_act i (\<sigma> m) (\<sigma> (Suc m))"
    using queue_leads [OF Cons.prems(1) Cons.hyps(2) [symmetric], of False c] Cons.prems(2) by auto
  have "\<exists>k \<ge> Suc m. ep_queue (sys_endpoints (\<sigma> k) ! i) = [c]"
    using write_act_queue [OF m(4,2)] m(1,3) serves_later [OF Cons.prems(1), of "Suc m"]
    by (intro Cons.hyps(1)) simp_all
  then show ?case using m(1) by (meson Suc_leD le_trans)
qed

lemma delivery_leads:
  assumes sv: "serves parse_request lib meshkey i pk n \<sigma>" and "ep_queue (sys_endpoints (\<sigma> n) ! i) = [WSendPacket source pk payload]"
  shows "\<exists>m \<ge> n. w_out (ep_writer (sys_endpoints (\<sigma> (Suc m)) ! i))
    = w_out (ep_writer (sys_endpoints (\<sigma> m) ! i)) @ recv_packet_bytes pk payload"
proof -
  let ?c = "WSendPacket source pk payload"
  obtain m where m: "n \<le> m" "ep_queue (sys_endpoints (\<sigma> m) ! i) = [?c]" "write_act i (\<sigma> m) (\<sigma> (Suc m))"
    using queue_leads [OF assms, of True] by auto
  then obtain r w where w: "client_write_command pk False ?c (ep_writer (sys_endpoints (\<sigma> m) ! i)) = Some (r, w)"
      "\<sigma> (Suc m) = update_endpoint i (\<lambda>e. e\<lparr>ep_queue := [], ep_writing := continues r, ep_writer := w\<rparr>) (\<sigma> m)"
    using serves_client [OF sv m(1)] by (auto simp: write_act_def write_command_of_def)
  have i: "i < length (sys_endpoints (\<sigma> m))" using serves_client [OF sv m(1)] by simp
  have "continues r" using serves_inv(3) [OF sv, of "Suc m"] m(1) w(2) i by (simp add: update_endpoint_nth)
  then have "w_out w = w_out (ep_writer (sys_endpoints (\<sigma> m) ! i)) @ recv_packet_bytes pk payload"
    using client_write_delivers [OF serves_inv(2) [OF sv m(1)]] w(1) by (simp add: continues_def)
  then show ?thesis using w(2) i m(1) by (auto simp: update_endpoint_nth)
qed

section \<open>A run in which a client writes to itself\<close>

definition own_key :: PublicKey where
  "own_key = PublicKey (replicate 32 2)"

definition own_packet :: SendPacket where
  "own_packet = \<lparr>send_target = own_key, send_payload = []\<rparr>"

definition waiting_state :: "DerpReader \<Rightarrow> reads \<Rightarrow> system" where
  "waiting_state r reads = update_endpoint 0 (\<lambda>e. e\<lparr>ep_reading := True, ep_reader := r\<rparr>)
     ((joined reads)\<lparr>sys_commands := [CSendPacket own_key own_key []]\<rparr>)"

definition sending_state :: "DerpReader \<Rightarrow> reads \<Rightarrow> system" where
  "sending_state r reads =
     (waiting_state r reads)\<lparr>sys_commands := [], sys_loop := Sending 0 (WSendPacket own_key own_key [])\<rparr>"

definition queued_state :: "DerpReader \<Rightarrow> reads \<Rightarrow> system" where
  "queued_state r reads =
     (update_endpoint 0 (\<lambda>e. e\<lparr>ep_queue := [WSendPacket own_key own_key []]\<rparr>) (sending_state r reads))\<lparr>sys_loop := Waiting\<rparr>"

definition written_state :: "DerpReader \<Rightarrow> reads \<Rightarrow> system" where
  "written_state r reads = update_endpoint 0 (\<lambda>e. e\<lparr>ep_queue := [], ep_writing := True,
     ep_writer := \<lparr>w_out = recv_packet_bytes own_key [], w_events = []\<rparr>\<rparr>) (queued_state r reads)"

definition own_run :: "DerpReader \<Rightarrow> reads \<Rightarrow> run" where
  "own_run r reads n =
     [waiting_state r reads, sending_state r reads, queued_state r reads, written_state r reads] ! min n 3"

lemmas own_states = waiting_state_def sending_state_def queued_state_def written_state_def update_endpoint_def
  joined_endpoints fresh_endpoint_def

lemma own_key_valid: "valid_PublicKey own_key"
  by (simp add: own_key_def valid_PublicKey_def KEY_SIZE_def)

lemma own_request: "valid_request (Send own_packet)"
  using own_key_valid by (simp add: own_packet_def valid_SendPacket_def wire_SendPacket_def valid_PublicKey_def KEY_SIZE_def)

lemma own_write:
  "client_write_command own_key False (WSendPacket own_key own_key []) \<lparr>w_out = [], w_events = []\<rparr>
     = Some (Ok None, \<lparr>w_out = recv_packet_bytes own_key [], w_events = []\<rparr>)"
  using client_write_command_eq [of own_key False "WSendPacket own_key own_key []"] own_key_valid
  by (simp add: write_all_quiet)

lemma own_run_steps:
  "sys_step parse_request lib (waiting_state r reads) (sending_state r reads)"
  "sys_step parse_request lib (sending_state r reads) (queued_state r reads)"
  "sys_step parse_request lib (queued_state r reads) (written_state r reads)"
proof -
  show "sys_step parse_request lib (waiting_state r reads) (sending_state r reads)"
    by (rule sys_step.recv)
       (simp add: command_recv_def waiting_state_def sending_state_def joined_def notify_all_mesh_peers_def insert_peer_def
          with_endpoint_def empty_service_def own_key_def)
  show "sys_step parse_request lib (sending_state r reads) (queued_state r reads)"
    by (rule sys_step.send) (simp add: command_send_def send_sink_def CHANNEL_SIZE_def own_states)
  show "sys_step parse_request lib (queued_state r reads) (written_state r reads)"
    using sys_step.write_one [of 0 "queued_state r reads" "WSendPacket own_key own_key []" "[]" "Ok None"
        "\<lparr>w_out = recv_packet_bytes own_key [], w_events = []\<rparr>" parse_request lib] own_write
    by (simp add: own_states continues_def write_command_of_def own_key_def)
qed

lemma own_run_cases: "own_run r reads n \<in> {waiting_state r reads, sending_state r reads, queued_state r reads, written_state r reads}"
proof -
  consider "n = 0" | "n = 1" | "n = 2" | "3 \<le> n" by linarith
  then show ?thesis by cases (simp_all add: own_run_def min_def numeral_2_eq_2 numeral_3_eq_3)
qed

lemma own_run_late: "3 \<le> n \<Longrightarrow> own_run r reads n = written_state r reads"
  by (simp add: own_run_def min_def)

lemma own_run_is_run: "is_run parse_request lib (own_run r reads)"
  unfolding is_run_def
proof
  fix n :: nat
  consider "n = 0" | "n = 1" | "n = 2" | "3 \<le> n" by linarith
  then show "sys_step parse_request lib (own_run r reads n) (own_run r reads (Suc n)) \<or> own_run r reads (Suc n) = own_run r reads n"
    by cases (use own_run_steps [of parse_request lib r reads] in \<open>simp_all add: own_run_def min_def numeral_2_eq_2 numeral_3_eq_3\<close>)
qed

lemma own_run_fair:
  assumes "\<And>s'. \<not> act (written_state r reads) s'"
  shows "weakly_fair act (own_run r reads)"
  unfolding weakly_fair_def
proof (intro allI impI)
  fix n assume "\<forall>m \<ge> n. \<exists>s'. act (own_run r reads m) s'"
  then have "\<exists>s'. act (own_run r reads (max n 3)) s'" by (metis max.cobounded1)
  then show "\<exists>m \<ge> n. act (own_run r reads m) (own_run r reads (Suc m))"
    using assms own_run_late [of "max n 3" r reads] by simp
qed

lemma own_run_registered: "map_of (peers_sinks (sys_service (own_run r reads m))) own_key = Some 0"
  using own_run_cases [of r reads m]
  by (auto simp: waiting_state_def sending_state_def queued_state_def written_state_def joined_def
      notify_all_mesh_peers_def insert_peer_def with_endpoint_def empty_service_def own_key_def)

lemma own_run_connected: "ep_writing (sys_endpoints (own_run r reads m) ! 0)"
  using own_run_cases [of r reads m] by (auto simp: own_states)

lemma own_run_serves:
  obtains r reads where "serves accept_request plain_library None 0 own_key 0 (own_run r reads)"
proof -
  let ?reads = "[Chunk (msg_buffer (request_message (Send own_packet)))]"
  have "split_messages [] = ([], [])"
    by (rule split_messages_None) (simp add: next_frame_def frame_length_def HEADER_SIZE_def)
  then have "messages (ep_reader (sys_endpoints (joined ?reads) ! 0)) = [request_message (Send own_packet)]"
    using messages_frames [of "ep_reader (sys_endpoints (joined ?reads) ! 0)" "[request_message (Send own_packet)]" "[]"]
      request_is_frame [OF own_request]
    by (simp add: joined_endpoints fresh_endpoint_def pending_def derp_reader_new_def del: request_message.simps)
  then have "listening 0 own_key [request_message (Send own_packet)] (joined ?reads)"
    by (simp add: listening_def joined_endpoints fresh_endpoint_def own_key_def del: request_message.simps)
  moreover have "sys_commands (joined ?reads) = []" "sys_loop (joined ?reads) \<noteq> Finished"
    by (simp_all add: joined_def notify_all_mesh_peers_def insert_peer_def with_endpoint_def empty_service_def)
  ultimately obtain r where "sys_step accept_request plain_library (joined ?reads) (waiting_state r ?reads)"
    using request_step [of 0 own_key "Send own_packet" "[]" "joined ?reads" accept_request plain_library] own_request
    by (auto simp: waiting_state_def own_packet_def simp del: request_message.simps)
  then have "reachable accept_request plain_library None (own_run r ?reads 0)"
    using joined_reachable [of ?reads] unfolding reachable_def own_run_def by (auto intro: rtranclp.rtrancl_into_rtrancl)
  moreover have "\<not> recv_act (written_state r ?reads) s'" "\<not> send_act (written_state r ?reads) s'"
      "\<not> write_act 0 (written_state r ?reads) s'" for s'
    by (simp_all add: recv_act_def send_act_def write_act_def command_recv_def command_send_def own_states)
  ultimately have "serves accept_request plain_library None 0 own_key 0 (own_run r ?reads)"
    unfolding serves_def using own_run_is_run own_run_fair own_run_connected
    by (auto simp: own_run_def own_states own_key_def)
  then show thesis by (rule that)
qed

section \<open>Properties\<close>

text \<open>
  C3. Delivery. In every run that is fair to the command loop and to the write loop of a client admitted
  without the mesh key, and in which the client stays connected and registered: when a packet for the
  client is next in the command channel and the command loop is free, the packet is eventually written
  to the client, whatever the other tasks do.
\<close>

theorem packets_arrive:
  assumes sv: "serves parse_request lib meshkey i pk n \<sigma>"
    and registered: "\<forall>m \<ge> n. map_of (peers_sinks (sys_service (\<sigma> m))) pk = Some i"
    and "sys_loop (\<sigma> n) = Waiting" and "sys_commands (\<sigma> n) = CSendPacket source pk payload # commands"
  shows "\<exists>m \<ge> n. w_out (ep_writer (sys_endpoints (\<sigma> (Suc m)) ! i))
    = w_out (ep_writer (sys_endpoints (\<sigma> m) ! i)) @ recv_packet_bytes pk payload"
proof -
  let ?c = "CSendPacket source pk payload"
  have "\<exists>m \<ge> n. (sys_loop (\<sigma> m) = Waiting \<and> (\<exists>cs. sys_commands (\<sigma> m) = ?c # cs)) \<and> recv_act (\<sigma> m) (\<sigma> (Suc m))"
  proof (rule weakly_fair_leads [where act = recv_act and Q = recv_act
        and P = "\<lambda>s. sys_loop s = Waiting \<and> (\<exists>cs. sys_commands s = ?c # cs)"])
    show "weakly_fair recv_act \<sigma>" using sv by (simp add: serves_def)
    show "sys_loop (\<sigma> n) = Waiting \<and> (\<exists>cs. sys_commands (\<sigma> n) = ?c # cs)" using assms(3,4) by simp
    fix m assume P: "sys_loop (\<sigma> m) = Waiting \<and> (\<exists>cs. sys_commands (\<sigma> m) = ?c # cs)"
    show "\<exists>s'. recv_act (\<sigma> m) s'" using P by (auto simp: recv_act_def command_recv_def)
    show "sys_loop (\<sigma> (Suc m)) = Waiting \<and> (\<exists>cs. sys_commands (\<sigma> (Suc m)) = ?c # cs) \<or> recv_act (\<sigma> m) (\<sigma> (Suc m))"
      by (cases rule: serves_loop [OF sv, of m]) (use P in \<open>auto simp: send_act_def command_send_def\<close>)
  qed
  then obtain m where m: "n \<le> m" "sys_loop (\<sigma> m) = Waiting" "\<exists>cs. sys_commands (\<sigma> m) = ?c # cs"
      "recv_act (\<sigma> m) (\<sigma> (Suc m))" by blast
  have "\<sigma> (Suc m) = the (command_recv (\<sigma> m))" using m(4) by (simp add: recv_act_def)
  then have "sys_loop (\<sigma> (Suc m)) = Sending i (WSendPacket source pk payload)"
    using m(1-3) registered by (auto simp: command_recv_def)
  then obtain k where k: "Suc m \<le> k" "ep_queue (sys_endpoints (\<sigma> k) ! i) = [WSendPacket source pk payload]"
    using sending_leads [OF serves_later [OF sv, of "Suc m"]] m(1) by auto
  then obtain l where "k \<le> l" "w_out (ep_writer (sys_endpoints (\<sigma> (Suc l)) ! i))
    = w_out (ep_writer (sys_endpoints (\<sigma> l) ! i)) @ recv_packet_bytes pk payload"
    using delivery_leads [OF serves_later [OF sv, of k] k(2)] m(1) by auto
  then show ?thesis using k(1) m(1) by (intro exI [of _ l]) auto
qed

theorem packets_arrive_witness:
  "\<exists>\<sigma>. serves accept_request plain_library None 0 own_key 0 \<sigma> \<and> sys_commands (\<sigma> 0) = [CSendPacket own_key own_key []] \<and>
     (\<exists>m. w_out (ep_writer (sys_endpoints (\<sigma> (Suc m)) ! 0))
        = w_out (ep_writer (sys_endpoints (\<sigma> m) ! 0)) @ recv_packet_bytes own_key [])"
proof -
  obtain r reads where sv: "serves accept_request plain_library None 0 own_key 0 (own_run r reads)"
    by (rule own_run_serves)
  have registered: "map_of (peers_sinks (sys_service (own_run r reads m))) own_key = Some 0" for m
    by (rule own_run_registered)
  have "sys_loop (own_run r reads 0) = Waiting" "sys_commands (own_run r reads 0) = [CSendPacket own_key own_key []]"
    by (simp_all add: own_run_def waiting_state_def joined_def notify_all_mesh_peers_def insert_peer_def
          with_endpoint_def empty_service_def)
  then show ?thesis
    using packets_arrive [OF sv, of own_key "[]" "[]"] registered sv by blast
qed

end
