(* ===== verification/Program.thy ===== *)
theory Program
  imports System
begin

text \<open>
  The program as a whole (dersp/src/main.rs): the configuration, binding the listener, the start-up of
  the service with the connections to its mesh peers, and the task of one such connection from its first
  byte to its last (\<open>MeshClient::run\<close> of mesh_client.rs).

  clap, which makes a \<open>Config\<close> of the command line, the listener and the name lookup are parameters.
  \<open>main_program\<close> ends where \<open>service.run\<close> is entered: from there on the server is the transition system of
  System.
\<close>

section \<open>Definitions\<close>

record Config =
  cfg_meshkey :: "bytes option"
  cfg_mesh_peers :: "bytes list"
  cfg_listen_on :: bytes

text \<open>
  What the tasks of a mesh connection need of the outside: httparse, the strings of the program, the
  random nonce of a connection, \<open>TcpStream::connect\<close>, and the two halves of the socket that the write loop
  and the read loop are started on.
\<close>

record network =
  net_parse_response :: parse_response
  net_version :: bytes
  net_os :: bytes
  net_nonce :: "MeshClient \<Rightarrow> bytes"
  net_lookup_host :: "bytes \<Rightarrow> bytes list option"
  net_connect :: "bytes \<Rightarrow> mesh_state option"
  net_socket :: "MeshClient \<Rightarrow> conn"
  net_bind :: "bytes \<Rightarrow> bool"

definition peer_start :: "network \<Rightarrow> library \<Rightarrow> MeshClient \<Rightarrow> (conn \<times> PublicKey) result option" where
  "peer_start net lib self =
     map_option (\<lambda>r. case r of
         Ok (sender, mesh_peer_pk) \<Rightarrow> Ok (net_socket net self, mesh_peer_pk)
       | Err e \<Rightarrow> Err e
       | Panic msg \<Rightarrow> Panic msg)
       (mesh_start (net_parse_response net) (net_version net) (net_os net) lib (net_nonce net self)
          (net_connect net) 0 self)"

text \<open>The loop over \<open>config.mesh_peers\<close>: resolve, start and wait, enter into the mesh table.\<close>

fun start_peers :: "network \<Rightarrow> library \<Rightarrow> SecretKey \<Rightarrow> bytes \<Rightarrow> bytes list \<Rightarrow> (system, unit, error) proc" where
  "start_peers net lib service_sk meshkey [] = retM ()"
| "start_peers net lib service_sk meshkey (addr # addrs) =
     bindM (liftM (mesh_client_new (net_lookup_host net) addr service_sk meshkey)) (\<lambda>mesh_client s.
       case peer_start net lib mesh_client of
         None \<Rightarrow> None
       | Some started \<Rightarrow>
           bindM (start_mesh_peer (Ok mesh_client) started) (\<lambda>_. start_peers net lib service_sk meshkey addrs) s)"

definition service_new :: "network \<Rightarrow> library \<Rightarrow> SecretKey \<Rightarrow> Config \<Rightarrow> (unit result \<times> system) option" where
  "service_new net lib service_sk config =
     (case cfg_meshkey config of
        Some meshkey \<Rightarrow>
          start_peers net lib service_sk meshkey (cfg_mesh_peers config) (empty_service (cfg_meshkey config))
      | None \<Rightarrow> Some (Ok (), empty_service (cfg_meshkey config)))"

definition main_program :: "network \<Rightarrow> library \<Rightarrow> SecretKey \<Rightarrow> Config \<Rightarrow> (unit result \<times> system) option" where
  "main_program net lib service_sk config =
     (if net_bind net (cfg_listen_on config) then service_new net lib service_sk config
      else Some (Err IoError, empty_service (cfg_meshkey config)))"

section \<open>Start-up\<close>

text \<open>The loop is \<open>start_mesh_peers\<close> on the results of its lookups and connections.\<close>

lemma start_peers_refines:
  assumes "start_peers net lib service_sk meshkey addrs s = Some (r, s')"
  shows "\<exists>peers. start_mesh_peers peers s = Some (r, s')"
  using assms
proof (induction addrs arbitrary: s)
  case Nil
  then show ?case by (intro exI [of _ "[]"]) simp
next
  case (Cons addr addrs)
  let ?resolved = "mesh_client_new (net_lookup_host net) addr service_sk meshkey"
  show ?case
  proof (cases ?resolved)
    case (Ok mesh_client)
    then obtain started where "bindM (start_mesh_peer (Ok mesh_client) started)
        (\<lambda>_. start_peers net lib service_sk meshkey addrs) s = Some (r, s')"
      using Cons.prems by (auto split: option.splits)
    then show ?thesis
    proof (cases rule: bindM_cases)
      case (1 u s1)
      then obtain peers where "start_mesh_peers peers s1 = Some (r, s')" using Cons.IH by blast
      with 1(1) show ?thesis by (intro exI [of _ "(Ok mesh_client, started) # peers"]) simp
    qed (auto intro!: exI [of _ "[(Ok mesh_client, started)]"])
  qed (use Cons.prems in \<open>auto intro!: exI [of _ "[(?resolved, Err IoError)]"] simp: start_mesh_peer_def\<close>)
qed

lemma main_program_refines:
  assumes "main_program net lib service_sk config = Some (r, s)" and "net_bind net (cfg_listen_on config)"
  shows "\<exists>peers. derp_service_new (cfg_meshkey config) peers = Some (r, s)"
  using assms start_peers_refines
  by (auto simp: main_program_def service_new_def derp_service_new_def split: option.splits)

text \<open>A peer that answers the HTTP request and then closes the connection before its key has arrived.\<close>

lemma mesh_exchange_waits:
  assumes law: "response_law parse_response" and socket: "mt_peer_addr s" "w_events (l_writer (mt_link s)) = []"
      "dr_reader (l_reader (mt_link s)) = Chunk (http_response @ first) # later"
      "length (http_response @ first) \<le> MAX_TCP_PACKET_SIZE"
    and closed: "next_frame (first @ delivered later) = None" "\<not> fails later"
  shows "mesh_exchange parse_response version os lib nonce self s = None"
proof -
  let ?r = "derp_reader_new (if first = [] then later else Chunk first # later)"
  let ?w = "(l_writer (mt_link s))\<lparr>w_out := w_out (l_writer (mt_link s)) @ connect_request version os\<rparr>"
  have "messages ?r = []" using closed(1) by (simp add: messages_Nil pending_chain)
  moreover have "\<not> fails (dr_reader ?r)" using closed(2) by (simp add: derp_reader_new_def fails_def)
  ultimately have "get_next_message ?r = None" by (rule rd.recv_closed)
  then have key: "read_server_key ?r = None" by (simp add: read_server_key_def)
  have "stream_peer_addr s = Some (Ok (), s)" using socket(1) by (simp add: stream_peer_addr_def)
  moreover have "on_link (connect_http parse_response version os) s
      = Some (Ok first, s\<lparr>mt_link := (mt_link s)\<lparr>l_reader := (l_reader (mt_link s))\<lparr>dr_reader := later\<rparr>, l_writer := ?w\<rparr>\<rparr>)"
    using connect_http_accepts [OF law socket(4) socket(2,3)] by (simp add: on_link_def)
  moreover have "on_link (chain_reader first)
      (s\<lparr>mt_link := (mt_link s)\<lparr>l_reader := (l_reader (mt_link s))\<lparr>dr_reader := later\<rparr>, l_writer := ?w\<rparr>\<rparr>)
      = Some (Ok (), s\<lparr>mt_link := (mt_link s)\<lparr>l_reader := ?r, l_writer := ?w\<rparr>\<rparr>)"
    by (simp add: on_link_def chain_reader_def)
  moreover have "on_link (exchange_keys lib nonce (mc_secret_key self) (Some (mc_meshkey self)))
      (s\<lparr>mt_link := (mt_link s)\<lparr>l_reader := ?r, l_writer := ?w\<rparr>\<rparr>) = None"
    using key by (simp add: on_link_def exchange_keys_def link_read_def)
  ultimately show ?thesis unfolding mesh_exchange_def by (simp only: bindM_Ok bindM_None)
qed

section \<open>A mesh connection\<close>

text \<open>Whether a connection is going to break is not changed by reading messages.\<close>

lemma next_message_keeps_fails:
  assumes "get_next_message r = Some (Ok m, r')"
  shows "fails (dr_reader r') = fails (dr_reader r)"
proof (cases "messages r")
  case Nil
  then show ?thesis
    using assms rd.recv_broken [of r] rd.recv_closed [of r] by (cases "fails (dr_reader r)") auto
next
  case (Cons m' ms)
  then show ?thesis using assms rd.recv_Cons [OF Cons] by auto
qed

lemma read_server_key_fails:
  "read_server_key r = Some (Ok k, r') \<Longrightarrow> fails (dr_reader r') = fails (dr_reader r)"
  unfolding read_server_key_def
  by (auto simp: bindM_Ok_iff Let_def split: if_splits dest!: run_decoder_state dest: next_message_keeps_fails)

lemma read_server_info_fails:
  "read_server_info r = Some (Ok u, r') \<Longrightarrow> fails (dr_reader r') = fails (dr_reader r)"
  unfolding read_server_info_def by (auto simp: bindM_Ok_iff split: if_splits dest: next_message_keeps_fails)

lemma exchange_keys_fails:
  assumes "exchange_keys lib nonce sk meshkey l = Some (Ok k, l')"
  shows "fails (dr_reader (l_reader l')) = fails (dr_reader (l_reader l))"
  using assms unfolding exchange_keys_def
  by (auto simp: bindM_Ok_iff link_read_def link_write_def dest: read_server_key_fails)

lemma connect_http_fails:
  assumes "connect_http parse_response version os l = Some (Ok left, l')"
    and "dr_reader (l_reader l) = Chunk bs # later" and "length bs \<le> MAX_TCP_PACKET_SIZE"
  shows "fails (dr_reader (l_reader l')) = fails (dr_reader (l_reader l))"
proof -
  obtain w where "write_all (connect_request version os) (l_writer l) = Some (Ok (), w)"
    using assms(1) unfolding connect_http_def by (auto simp: bindM_Ok_iff link_write_def)
  then have "dr_reader (l_reader l') = later"
    using assms by (auto simp: connect_http_def link_read_def link_write_def raw_read_def Let_def
        split: option.split_asm if_split_asm)
  then show ?thesis using assms(2) by (simp add: fails_def)
qed

lemma mesh_exchange_fails:
  assumes "mesh_exchange parse_response version os lib nonce self s = Some (Ok k, s')"
    and "dr_reader (l_reader (mt_link s)) = Chunk bs # later" and "length bs \<le> MAX_TCP_PACKET_SIZE"
  shows "fails (dr_reader (l_reader (mt_link s'))) = fails later"
proof -
  obtain left l1 l2 l3 where l: "connect_http parse_response version os (mt_link s) = Some (Ok left, l1)"
      "chain_reader left l1 = Some (Ok (), l2)"
      "exchange_keys lib nonce (mc_secret_key self) (Some (mc_meshkey self)) l2 = Some (Ok k, l3)" "mt_link s' = l3"
    using assms(1) unfolding mesh_exchange_def
    by (auto simp: bindM_Ok_iff on_link_def stream_peer_addr_def send_peer_key_def split: if_splits)
  have "fails (dr_reader (l_reader l2)) = fails (dr_reader (l_reader l1))"
    using l(2) by (auto simp: chain_reader_def derp_reader_new_def fails_def split: if_splits)
  then show ?thesis
    using connect_http_fails [OF l(1) assms(2,3)] exchange_keys_fails [OF l(3)] l(4) assms(2) by (simp add: fails_def)
qed

section \<open>Properties\<close>

text \<open>
  C11. A mesh connection from its first byte to its last. Let the server hold \<open>server\<close>, and let the stream
  be its HTTP response, its key, its information and any sequence of announcements, cut into reads in any
  way once the response has arrived. Then the task writes the HTTP request, the information of the client
  and the subscription, reports the key of the server, and hands over exactly the commands of the
  announcements; then it ends with the I/O error if the connection breaks, and never if the server closes it.
\<close>

theorem mesh_run_relays:
  assumes lib: "key_law lib" "box_law lib" "json_law lib" "response_law parse_response"
    and keys: "valid_SecretKey server" "valid_SecretKey (mc_secret_key self)" "length nonce = 24"
    and meshkey: "plain_meshkey (mc_meshkey self)" "length (mc_meshkey self) < 2 ^ 31"
    and socket: "mt_listens s \<and> mt_peer_addr s" "l_writer (mt_link s) = \<lparr>w_out = [], w_events = []\<rparr>"
      "dr_reader (l_reader (mt_link s)) = Chunk (http_response @ first) # later"
      "length (http_response @ first) \<le> MAX_TCP_PACKET_SIZE" "mt_room s = None"
    and stream: "first @ delivered later = server_key_bytes (secret_key_public (box_public_key lib) server)
        @ server_info_bytes @ concat (map (msg_buffer \<circ> announcement_message) announced) @ extra"
      "next_frame extra = None" "\<forall>a \<in> set announced. valid_announcement a"
  shows "if fails later
    then \<exists>s' info. mesh_run parse_response version os lib nonce sender self s = Some (Err IoError, s') \<and>
      mt_peer s' = Some (secret_key_public (box_public_key lib) server) \<and>
      mt_commands s' = mt_commands s @ concat (map (announcement_commands sender) announced) \<and>
      w_out (l_writer (mt_link s')) = connect_request version os @ client_info_bytes info @ watch_conns_bytes \<and>
      client_info_new lib nonce (mc_secret_key self) (secret_key_public (box_public_key lib) server)
        (Some (mc_meshkey self)) = Ok info
    else mesh_run parse_response version os lib nonce sender self s = None"
proof -
  let ?pk = "secret_key_public (box_public_key lib) server"
  let ?rest = "concat (map (msg_buffer \<circ> announcement_message) announced) @ extra"
  obtain x where x: "client_info_new lib nonce (mc_secret_key self) ?pk (Some (mc_meshkey self)) = Ok x"
      "valid_ClientInfo x" "length (wire_ClientInfo x) = 101 + length (mc_meshkey self)"
    by (rule client_info_new_complete [OF lib(1-3) keys, of "Some (mc_meshkey self)"])
       (use meshkey in \<open>simp_all add: meshkey_sent_def\<close>)
  have len: "length (wire_ClientInfo x) < 2 ^ 32" using x(3) meshkey(2) by simp
  obtain r1 where r1: "pending r1 = server_info_bytes @ ?rest"
    and ex: "mesh_exchange parse_response version os lib nonce self s
      = Some (Ok ?pk, s\<lparr>mt_link := (mt_link s)\<lparr>l_reader := r1, l_writer :=
          \<lparr>w_out = connect_request version os @ client_info_bytes x, w_events = []\<rparr>\<rparr>, mt_peer := Some ?pk\<rparr>)"
    by (rule mesh_exchange_accepts [OF lib(4) public_valid [OF lib(1) keys(1)] socket(1-4) stream(1) x(1,2) len])
  obtain r2 where r2: "read_server_info r1 = Some (Ok (), r2)" "pending r2 = ?rest"
    using read_server_info_accepts [OF r1] by blast
  have fails: "fails (dr_reader r2) = fails later"
    using mesh_exchange_fails [OF ex socket(3,4)] read_server_info_fails [OF r2(1)] by simp
  let ?s2 = "s\<lparr>mt_peer := Some ?pk, mt_link := (mt_link s)\<lparr>l_reader := r2, l_writer :=
    \<lparr>w_out = connect_request version os @ client_info_bytes x @ watch_conns_bytes, w_events = []\<rparr>\<rparr>\<rparr>"
  have sub: "mesh_run parse_response version os lib nonce sender self s = on_read_state (mesh_read_loop sender) ?s2"
    using ex r2(1)
    by (simp add: mesh_run_def mesh_subscribe_def on_link_def link_read_def link_write_def write_watch_conns_eq
        write_all_quiet bindM_def)
  let ?t = "\<lparr>rs_reader = r2, rs_commands = mt_commands s, rs_room = None\<rparr>"
  have "if fails (dr_reader (rs_reader ?t))
    then \<exists>t'. mesh_read_loop sender ?t = Some (Err IoError, t') \<and>
           rs_commands t' = rs_commands ?t @ concat (map (announcement_commands sender) announced)
    else mesh_read_loop sender ?t = None"
    unfolding mesh_read_loop_eq using r2(2) stream(2,3) by (intro mr.relays) simp_all
  then show ?thesis using sub fails socket(5) x(1) by (auto simp: on_read_state_def split: if_splits)
qed

theorem mesh_run_relays_witness:
  "\<exists>s s'. mesh_run http_head (ascii ''0.1'') (ascii ''linux'') plain_library (replicate 24 3) 5
      \<lparr>mc_addr = [], mc_secret_key = SecretKey (replicate 32 2), mc_meshkey = ascii ''key''\<rparr> s
      = Some (Err IoError, s') \<and>
     mt_peer s' = Some (PublicKey (replicate 32 1)) \<and> mt_commands s = [] \<and>
     mt_commands s' = [CPeerPresent (PublicKey (replicate 32 4)) 5]"
proof -
  let ?self = "\<lparr>mc_addr = [], mc_secret_key = SecretKey (replicate 32 2), mc_meshkey = ascii ''key''\<rparr>"
  let ?as = "[Announce (PublicKey (replicate 32 4))]"
  let ?later = "[Chunk (server_key_bytes (PublicKey (replicate 32 1)) @ server_info_bytes),
    Chunk (concat (map (msg_buffer \<circ> announcement_message) ?as)), ReadError]"
  let ?s = "\<lparr>mt_link = \<lparr>l_reader = derp_reader_new (Chunk (http_response @ []) # ?later),
      l_writer = \<lparr>w_out = [], w_events = []\<rparr>\<rparr>,
    mt_peer_addr = True, mt_peer = None, mt_listens = True, mt_commands = [], mt_room = None\<rparr>"
  have pub: "secret_key_public (box_public_key plain_library) (SecretKey bs) = PublicKey bs" for bs
    by (simp add: secret_key_public_def plain_library_def)
  have fails: "fails ?later" by (simp add: fails_def)
  have "if fails ?later
    then \<exists>s' info. mesh_run http_head (ascii ''0.1'') (ascii ''linux'') plain_library (replicate 24 3) 5 ?self ?s
        = Some (Err IoError, s') \<and>
      mt_peer s' = Some (secret_key_public (box_public_key plain_library) (SecretKey (replicate 32 1))) \<and>
      mt_commands s' = mt_commands ?s @ concat (map (announcement_commands 5) ?as) \<and>
      w_out (l_writer (mt_link s')) = connect_request (ascii ''0.1'') (ascii ''linux'') @ client_info_bytes info
        @ watch_conns_bytes \<and>
      client_info_new plain_library (replicate 24 3) (mc_secret_key ?self)
        (secret_key_public (box_public_key plain_library) (SecretKey (replicate 32 1))) (Some (mc_meshkey ?self)) = Ok info
    else mesh_run http_head (ascii ''0.1'') (ascii ''linux'') plain_library (replicate 24 3) 5 ?self ?s = None"
    by (rule mesh_run_relays [where first = "[]" and extra = "[]", OF plain_library_laws http_head_law])
       (simp_all del: announcement_message.simps add: pub valid_SecretKey_def KEY_SIZE_def plain_meshkey_def ascii_def
          derp_reader_new_def MAX_TCP_PACKET_SIZE_def http_response_def valid_PublicKey_def next_frame_def
          frame_length_def HEADER_SIZE_def)
  then obtain s' where "mesh_run http_head (ascii ''0.1'') (ascii ''linux'') plain_library (replicate 24 3) 5 ?self ?s
        = Some (Err IoError, s')" and "mt_peer s' = Some (PublicKey (replicate 32 1))"
      and "mt_commands s' = [CPeerPresent (PublicKey (replicate 32 4)) 5]"
    unfolding if_P [OF fails] pub by (elim exE conjE) simp
  then show ?thesis by (intro exI [of _ ?s] exI [of _ s']) simp
qed

text \<open>
  C40. Start-up waits for its mesh peers. If the first configured mesh peer answers the HTTP request and
  then closes the connection before its key has arrived, the program never begins to accept clients: the
  task of the connection reads the closed connection for ever, and \<open>DerpService::new\<close> waits for the key.
\<close>

theorem main_waits_for_mesh_peer:
  assumes "net_bind net (cfg_listen_on config)" and "cfg_meshkey config = Some meshkey"
    and "cfg_mesh_peers config = addr # addrs" and "net_lookup_host net addr = Some (ip # ips)"
    and "net_connect net ip = Some s" and "response_law (net_parse_response net)"
    and "mt_peer_addr s" and "w_events (l_writer (mt_link s)) = []"
    and "dr_reader (l_reader (mt_link s)) = Chunk (http_response @ first) # later"
    and "length (http_response @ first) \<le> MAX_TCP_PACKET_SIZE"
    and "next_frame (first @ delivered later) = None" and "\<not> fails later"
  shows "main_program net lib service_sk config = None"
  using assms mesh_exchange_waits [OF assms(6-12)]
  by (simp add: main_program_def service_new_def mesh_client_new_def peer_start_def mesh_start_def bindM_def)

theorem main_waits_for_mesh_peer_witness:
  "\<exists>net. main_program net plain_library (SecretKey (replicate 32 1))
     \<lparr>cfg_meshkey = Some (ascii ''key''), cfg_mesh_peers = [ascii ''peer''], cfg_listen_on = []\<rparr> = None"
proof -
  let ?s = "\<lparr>mt_link = \<lparr>l_reader = derp_reader_new [Chunk (http_response @ [1])],
      l_writer = \<lparr>w_out = [], w_events = []\<rparr>\<rparr>,
    mt_peer_addr = True, mt_peer = None, mt_listens = True, mt_commands = [], mt_room = None\<rparr>"
  let ?net = "\<lparr>net_parse_response = http_head, net_version = [], net_os = [], net_nonce = (\<lambda>_. []),
    net_lookup_host = (\<lambda>_. Some [[]]), net_connect = (\<lambda>_. Some ?s),
    net_socket = (\<lambda>_. \<lparr>c_in = [], c_w = \<lparr>w_out = [], w_events = []\<rparr>\<rparr>), net_bind = (\<lambda>_. True)\<rparr>"
  have "main_program ?net plain_library (SecretKey (replicate 32 1))
     \<lparr>cfg_meshkey = Some (ascii ''key''), cfg_mesh_peers = [ascii ''peer''], cfg_listen_on = []\<rparr> = None"
    by (rule main_waits_for_mesh_peer [where first = "[1]" and later = "[]" and s = ?s and meshkey = "ascii ''key''"])
       (simp_all add: http_head_law derp_reader_new_def next_frame_def frame_length_def HEADER_SIZE_def fails_def
          http_response_def ascii_def MAX_TCP_PACKET_SIZE_def)
  then show ?thesis by blast
qed

end
