(* ===== verification/Test_Vectors.thy ===== *)
theory Test_Vectors
  imports Key_Text Proto_Data
begin

text \<open>
  The unit tests of the sources (proto/data.rs and crypto.rs) on the model: it gives the bytes that the
  tests expect of the code. The tests of crypto.rs that need the text of a key or the multiplication of
  the curve are not repeated, since base64, hex and crypto_box are parameters.
\<close>

definition server_key_data :: bytes where
  "server_key_data = [1, 0, 0, 0, 40, 0x44, 0x45, 0x52, 0x50, 0xF0, 0x9F, 0x94, 0x91] @ replicate 32 0"

definition client_info_data :: bytes where
  "client_info_data = [2, 0, 0, 0, 58] @ replicate 32 5 @ replicate 24 2 @ [12, 12]"

definition client_info_value :: "ClientInfo Frame" where
  "client_info_value = \<lparr>frame_type = FrameType.ClientInfo, inner = SizeWrapper
     \<lparr>ci_public_key = public_key_new (replicate 32 5), ci_nonce = replicate 24 2, ci_cipher_text = [12, 12]\<rparr>\<rparr>"

lemmas frame_data = wire_Frame_def wire_FrameType_def wire_SizeWrapper_def to_be_bytes_4 public_key_new_def

lemmas frame_validity = valid_Frame_def valid_SizeWrapper_def valid_FrameType_def valid_PublicKey_def KEY_SIZE_def
  public_key_new_def

lemma test_server_key_frame:
  defines "f \<equiv> server_key_frame (server_key_new (public_key_new (replicate 32 0)))"
  shows "encode_Frame vec_buffer (encode_ServerKey vec_buffer) f [] = Some (Ok (length server_key_data), server_key_data)"
    and "decode_Frame decode_ServerKey server_key_data = Some (Ok f, [])"
proof -
  have valid: "valid_Frame wire_ServerKey valid_ServerKey f"
    by (simp add: f_def server_key_frame_def server_key_new_def valid_ServerKey_def wire_ServerKey_def MAGIC_def
        frame_validity)
  have data: "wire_Frame wire_ServerKey f = server_key_data"
    by (simp add: f_def server_key_frame_def server_key_new_def wire_ServerKey_def MAGIC_def server_key_data_def
        frame_data)
  show "encode_Frame vec_buffer (encode_ServerKey vec_buffer) f [] = Some (Ok (length server_key_data), server_key_data)"
    using e_ServerKey.frame_vec [OF valid, of "[]"] by (simp add: data)
  show "decode_Frame decode_ServerKey server_key_data = Some (Ok f, [])"
    using f_ServerKey.frame.exact_decodes [OF valid] by (simp only: data)
qed

lemma test_client_info:
  "encode_Frame vec_buffer (encode_ClientInfo vec_buffer) client_info_value []
     = Some (Ok (length client_info_data), client_info_data)"
  "decode_Frame decode_ClientInfo client_info_data = Some (Ok client_info_value, [])"
proof -
  have valid: "valid_Frame wire_ClientInfo valid_ClientInfo client_info_value"
    by (simp add: client_info_value_def valid_ClientInfo_def wire_ClientInfo_def frame_validity)
  have data: "wire_Frame wire_ClientInfo client_info_value = client_info_data"
    by (simp add: client_info_value_def client_info_data_def wire_ClientInfo_def frame_data)
  show "encode_Frame vec_buffer (encode_ClientInfo vec_buffer) client_info_value []
     = Some (Ok (length client_info_data), client_info_data)"
    using e_ClientInfo.frame_vec [OF valid, of "[]"] by (simp add: data)
  show "decode_Frame decode_ClientInfo client_info_data = Some (Ok client_info_value, [])"
    using f_ClientInfo.frame.exact_decodes [OF valid] by (simp only: data)
qed

lemma secret_key_is_clammped:
  "as_bytes (secret_key_new (replicate 32 0xBA)) ! 0 = 0xb8"
  "as_bytes (secret_key_new (replicate 32 0xBA)) ! 31 = 0x7a"
  by code_simp+

end
