(* ===== verification/Spec2Isabelle.thy ===== *)
theory Spec2Isabelle
  imports System Key_Text Derive_Types Liveness Program Test_Vectors
begin

text \<open>
  A verification of dersp, a relay server of the DERP protocol written in Rust, and of the crates codec
  and codec-derive it uses for its messages.

  \<^bold>\<open>The program.\<close> Clients connect over TCP, upgrade an HTTP request and exchange keys with the server
  (dersp/src/proto/mod.rs). A client is known by its public key from then on. It has a read loop, which
  turns frames into commands for the service, and a write loop, which turns commands into frames
  (client.rs); the command loop of the service routes packets between them (service.rs). Servers form a
  mesh: a server connects to its configured peers as a client (mesh_client.rs), subscribes to
  announcements, and packets for clients of other servers are forwarded over such connections. Frames
  are defined in proto/data.rs, cut out of the byte stream by inout.rs, and encoded and decoded by the
  crate codec. The codecs of structs and enums are generated from their declarations by the macros of
  codec-derive. Keys are in crypto.rs. main.rs reads the configuration, binds the listener, starts the
  service with its mesh connections and enters the accept loop.

  \<^bold>\<open>The theories\<close>, in the order they build on each other:

  \<^item> Prelude: machine words, the outcomes of a Rust call (a value, an error, a panic), procedures over a
    state that may also never return, loops, big-endian bytes.
  \<^item> Write_Buffer: codec/src/encode.rs, the trait \<open>WriteBuffer\<close> for slices and vectors. The locale
    \<open>write_buffer\<close> is the contract encoders rely on; both implementations are proved to satisfy it.
  \<^item> Codec_Encode, Codec_Decode: all implementations of \<open>Encode\<close> and \<open>Decode\<close> (encode.rs, decode.rs, lib.rs
    of codec), one definition each. The locales \<open>exact_codec\<close> and \<open>prefix_codec\<close> state what a decoder
    promises about the bytes of a value.
  \<^item> Codec_Laws: these contracts for integers, arrays, vectors, options, length-prefixed values and
    opaque strings, and rules that carry them through structs field by field.
  \<^item> Crypto, Key_Text: crypto.rs, key types and clamping, and keys as text. The locale \<open>key_kind\<close> is what
    the macro \<open>gen_common\<close> uses of a key type; it is interpreted for the three of them.
  \<^item> Proto_Data: proto/data.rs, the frame types, every payload with the codec the derive macros
    generate, and the sealed client information. The locale \<open>frame_endpoint\<close> states that encoder and
    decoder of a frame type fit together; it is interpreted for all eight payloads.
  \<^item> Inout: inout.rs, \<open>next_message\<close> and \<open>get_next_message\<close>, against the specification \<open>split_messages\<close> of
    cutting a stream into frames. The locale \<open>message_source\<close> is what read loops rely on.
  \<^item> Proto: proto/mod.rs, the handshake of both sides.
  \<^item> Client: client.rs, both loops. The locale \<open>command_reader\<close> holds what the read loops of client.rs and
    mesh_client.rs have in common.
  \<^item> Mesh_Client: mesh_client.rs, connecting, subscribing and both loops.
  \<^item> Service: service.rs, admission of clients, start-up, notifications and the command loop.
  \<^item> System: all tasks together as a step relation, its invariant and the properties of the whole server.
  \<^item> Liveness: infinite runs of that relation, weak fairness of single tasks, and delivery of packets.
  \<^item> Program: main.rs, \<open>DerpService::new\<close> with the network as a parameter, and \<open>MeshClient::run\<close> as a whole.
  \<^item> Derive_Attr, Derive_Macro: codec-derive/src/attr.rs and lib.rs. Declarations are syntax trees as syn
    gives them, one definition per function of the macros, and the result is a tree of the code that is
    quoted, or the compile error.
  \<^item> Derive_Code: what the generated code does when it runs (\<open>run_decode\<close>, \<open>run_encode\<close>), and that it is the
    obvious codec of the declaration. A value of the generated code is None where the compiler refuses it.
  \<^item> Derive_Laws: which declarations are refused, and the laws of generated codecs. The locale
    \<open>derive_runtime\<close> is what they rely on of the codecs of the field types.
  \<^item> Derive_Types: the declarations of dersp as the macros read them, and the interpretation of
    \<open>derive_runtime\<close> for their field types.
  \<^item> Test_Vectors: the unit tests of proto/data.rs and crypto.rs on the model.

  \<^bold>\<open>How code becomes definitions.\<close> A function with a mutable argument is a procedure over that argument;
  every \<open>?\<close>, \<open>ensure!\<close>, \<open>bail!\<close>, \<open>unwrap\<close>, \<open>todo!\<close> and early return is a branch. A call that never returns
  has no value, and loops that may not end are partial functions, so no fuel is used anywhere. Integers
  of the wire are machine words; \<open>usize\<close> counts bytes in memory and is a natural number. A connection is
  the list of what successive reads will find and how much successive writes will take, so theorems
  quantify over every way of cutting a stream. The parsers of syn are parameters, and \<open>syn_law\<close> is what is
  assumed of them. crypto_box, serde_json, httparse, base64, hex, name lookup
  and random bytes are parameters; what is assumed of them is stated in the predicates \<open>key_law\<close>,
  \<open>box_law\<close>, \<open>json_law\<close>, \<open>response_law\<close> and \<open>text_law\<close> where it is needed, and instances that satisfy them are given.

  \<^bold>\<open>What is shown.\<close>

  \<^item> Codec: round trips, canonical encoding, refusal of truncated input, totality of the frame decoders,
    exact bounds of slices, the panic on oversized payloads.
  \<^item> Keys: clamping, and which keys survive being printed and parsed.
  \<^item> Framing: the reader returns the frames of the stream whatever the chunks, and its behaviour on a
    broken and on a closed connection.
  \<^item> Handshake and mesh: server and client agree on keys and mesh key; a refused request is answered by
    nothing; forwarding over a mesh link keeps source, target, payload and order.
  \<^item> Loops: a read loop hands over exactly the commands of its requests, a write loop writes exactly the
    frames of its commands.
  \<^item> Whole server: what a client without the mesh key can receive, who can be in the mesh table, who is
    admitted, that the command loop is a routing table, that sources cannot be forged, and that a packet
    for a connected client is eventually written to it when the tasks involved get their turns.
  \<^item> Generated codecs: the macros accept every declaration of dersp, and running what they generate is
    running the decoders and encoders of Proto_Data and Crypto; for any declaration, the codecs invert each
    other and decoded values have the declared type, under the stated conditions on tags and fields.
  \<^item> Program: a mesh connection from its first to its last byte, and start-up.
  \<^item> Defects: a closed connection is read for ever, unhandled frames panic, the client information must
    arrive in one read, the mesh client cannot write packets, any client can end the command loop, a mesh
    peer that closes its connection keeps the server from starting, and Encode drops a field that Decode
    refuses.

  \<^bold>\<open>What is not modelled.\<close> Parsing the command line (clap), logging, and the source positions that the
  macros attach to the code they generate and to their errors. The traits \<open>ReadBuffer\<close>, \<open>Encode\<close> and \<open>Decode\<close>
  are interfaces without code: decoders are procedures on byte strings, the one implementation of
  \<open>ReadBuffer\<close>, and encoders procedures on any write buffer. The tasks are interleaved at the points where
  they wait; each iteration of a loop between two such points is one step. A write loop whose last sender
  is dropped ends; the step relation lets that happen at any time. In Program the connections to the mesh
  peers are started one after the other, as in the code; the tasks already started do not run meanwhile,
  and every state in which start-up ends is one that Service reaches from the results of the connections.
\<close>

end
